theory Spec2Isabelle
  imports Complex_Main
begin

section \<open>JavaScript values, tables and errors\<close>

text \<open>
  The build script \<^verbatim>\<open>verdafile.js\<close> reads its configuration from TOML files, passed through
  \<^verbatim>\<open>JSON.parse(JSON.stringify(...))\<close>. A configuration value is therefore a finite number, a
  string, a boolean, \<^verbatim>\<open>null\<close> (what JSON makes of a non-finite number), a table or array,
  or \<^verbatim>\<open>undefined\<close> when a property is absent. Numbers are IEEE doubles in the script and
  real numbers here; strings are lists of characters. A table or array whose content the
  script never inspects is the opaque value \<open>Object\<close>.
\<close>

datatype jsval = Undefined | Null | Bool bool | Num real | Str string | Object

text \<open>The truth value JavaScript gives a value in \<^verbatim>\<open>!v\<close>, \<^verbatim>\<open>a || b\<close> and \<^verbatim>\<open>if (v)\<close>.\<close>

fun truthy :: "jsval \<Rightarrow> bool" where
  "truthy Undefined = False"
| "truthy Null = False"
| "truthy (Bool b) = b"
| "truthy (Num x) = (x \<noteq> 0)"
| "truthy (Str s) = (s \<noteq> [])"
| "truthy Object = True"

text \<open>\<^verbatim>\<open>a || b\<close> on values.\<close>

definition or_js :: "jsval \<Rightarrow> jsval \<Rightarrow> jsval" where
  "or_js a b = (if truthy a then a else b)"

text \<open>
  \<^verbatim>\<open>a || b\<close> where \<open>a\<close> and \<open>b\<close> are tables or absent: a table is truthy (also an empty
  one), \<^verbatim>\<open>undefined\<close> is not.
\<close>

definition or_table :: "'a option \<Rightarrow> 'a option \<Rightarrow> 'a option" where
  "or_table a b = (case a of Some x \<Rightarrow> Some x | None \<Rightarrow> b)"

text \<open>
  A table (a plain JavaScript object) is the list of its own properties in the order
  \<^verbatim>\<open>for (const k in ob)\<close> enumerates them; each key stands once. \<^verbatim>\<open>ob[k]\<close> is
  \<open>map_of ob k\<close>, and \<open>None\<close> is \<^verbatim>\<open>undefined\<close>. Property names that \<^verbatim>\<open>Object.prototype\<close>
  also has (such as \<^verbatim>\<open>__proto__\<close>) are outside the model.
\<close>

type_synonym 'v obj = "(string \<times> 'v) list"

definition for_in :: "'v obj option \<Rightarrow> string list" where
  "for_in ob = (case ob of None \<Rightarrow> [] | Some kvs \<Rightarrow> map fst kvs)"

text \<open>
  JavaScript enumerates the keys that are array indices (canonical decimal numerals below
  \<open>2^32 - 1\<close>) first, in ascending order, and the other keys after them in the order of
  their creation. \<open>obj_set k v ob\<close> is the assignment \<^verbatim>\<open>ob[k] = v\<close>: it overwrites the
  value of a key the table has and keeps its place, and puts a new key where the
  enumeration will find it.
\<close>

definition decimal_value :: "string \<Rightarrow> nat" where
  "decimal_value s = foldl (\<lambda>n c. 10 * n + (of_char c - 48)) 0 s"

definition array_index :: "string \<Rightarrow> nat option" where
  "array_index s =
     (if s \<noteq> [] \<and> list_all (\<lambda>c. c \<in> set ''0123456789'') s
         \<and> (s = ''0'' \<or> hd s \<noteq> CHR ''0'') \<and> decimal_value s < 2 ^ 32 - 1
      then Some (decimal_value s) else None)"

fun insert_index :: "nat \<Rightarrow> string \<Rightarrow> 'v \<Rightarrow> 'v obj \<Rightarrow> 'v obj" where
  "insert_index n k v [] = [(k, v)]"
| "insert_index n k v ((k', v') # rest) =
     (case array_index k' of
        Some m \<Rightarrow> if m < n then (k', v') # insert_index n k v rest
                  else (k, v) # (k', v') # rest
      | None \<Rightarrow> (k, v) # (k', v') # rest)"

fun overwrite :: "string \<Rightarrow> 'v \<Rightarrow> 'v obj \<Rightarrow> 'v obj" where
  "overwrite k v [] = []"
| "overwrite k v ((k', v') # rest) =
     (if k' = k then (k, v) # rest else (k', v') # overwrite k v rest)"

definition obj_set :: "string \<Rightarrow> 'v \<Rightarrow> 'v obj \<Rightarrow> 'v obj" where
  "obj_set k v ob =
     (if k \<in> set (map fst ob) then overwrite k v ob
      else case array_index k of
             Some n \<Rightarrow> insert_index n k v ob
           | None \<Rightarrow> ob @ [(k, v)])"

text \<open>
  Every \<^verbatim>\<open>throw\<close> and every \<^verbatim>\<open>fail(...)\<close> of the script is a value:
  \<^item> \<open>NoFamilyName prefix\<close>: \<^verbatim>\<open>fail(`Build plan for ${prefix} does not have a family name. Exit.`)\<close>;
  \<^item> \<open>PlanNotFound gid\<close>: \<^verbatim>\<open>fail(`Build plan for '${gid}' not found.` + ...)\<close>;
  \<^item> \<open>NotAValidNumber key v\<close>: \<^verbatim>\<open>throw new TypeError(`${key} = ${v} is not a valid number.`)\<close>,
    the message kept as the key and the value it prints;
  \<^item> \<open>ParseError file\<close>: the error \<^verbatim>\<open>tryParseToml\<close> throws for a file it cannot parse;
  \<^item> \<open>RuntimeTypeError\<close>: a \<^verbatim>\<open>TypeError\<close> of the JavaScript runtime itself (a property read
    from \<^verbatim>\<open>undefined\<close>, \<^verbatim>\<open>Object.assign\<close> onto \<^verbatim>\<open>undefined\<close>, a call of something
    that is no function).
\<close>

datatype error =
    NoFamilyName string
  | PlanNotFound string
  | NotAValidNumber string jsval
  | ParseError string
  | RuntimeTypeError

text \<open>Sequencing: the second step runs on the value of the first unless that one threw.\<close>

definition and_then :: "error + 'a \<Rightarrow> ('a \<Rightarrow> error + 'b) \<Rightarrow> error + 'b" where
  "and_then m f = (case m of Inl e \<Rightarrow> Inl e | Inr x \<Rightarrow> f x)"

section \<open>Target names\<close>

definition WIDTH_NORMAL :: string where "WIDTH_NORMAL = ''normal''"
definition WEIGHT_NORMAL :: string where "WEIGHT_NORMAL = ''regular''"
definition SLOPE_NORMAL :: string where "SLOPE_NORMAL = ''upright''"
definition DEFAULT_SUBFAMILY :: string where "DEFAULT_SUBFAMILY = ''regular''"

definition makeFileName :: "string \<Rightarrow> string \<Rightarrow> string" where
  "makeFileName prefix suffix = prefix @ ''-'' @ suffix"

text \<open>The empty string is falsy, so \<^verbatim>\<open>... || fallback\<close> replaces an empty concatenation.\<close>

definition makeSuffix :: "string \<Rightarrow> string \<Rightarrow> string \<Rightarrow> string \<Rightarrow> string" where
  "makeSuffix w wd s fallback =
     (let joined = (if wd = WIDTH_NORMAL then [] else wd)
                 @ (if w = WEIGHT_NORMAL then [] else w)
                 @ (if s = SLOPE_NORMAL then [] else s)
      in if joined = [] then fallback else joined)"

section \<open>Value validation\<close>

text \<open>
  A validator object has a method \<^verbatim>\<open>validate\<close> and may have a method \<^verbatim>\<open>fix\<close>;
  \<^verbatim>\<open>nValidate\<close> asks for its property \<^verbatim>\<open>fixup\<close> before it calls \<^verbatim>\<open>fix\<close>. The field
  \<open>fixup\<close> is the truth value of that property and \<open>fix_of\<close> the value \<^verbatim>\<open>fix\<close> returns
  for a number (a value that is no number is passed on as it is); without a method
  \<^verbatim>\<open>fix\<close> the call is a \<^verbatim>\<open>TypeError\<close> of the runtime. \<^verbatim>\<open>isFinite\<close> holds of every number a
  configuration can hold.
\<close>

record validator =
  validate :: "real \<Rightarrow> bool"
  fixup :: bool
  fix_of :: "(real \<Rightarrow> real) option"

definition nValidate :: "string \<Rightarrow> jsval \<Rightarrow> validator \<Rightarrow> error + real" where
  "nValidate key v0 vl =
     (case (if fixup vl
            then (case fix_of vl of
                    None \<Rightarrow> Inl RuntimeTypeError
                  | Some f \<Rightarrow> Inr (case v0 of Num x \<Rightarrow> Num (f x) | _ \<Rightarrow> v0))
            else Inr v0) of
        Inl e \<Rightarrow> Inl e
      | Inr v \<Rightarrow>
          (case v of
             Num x \<Rightarrow> if validate vl x then Inr x else Inl (NotAValidNumber key v)
           | _ \<Rightarrow> Inl (NotAValidNumber key v)))"

text \<open>
  The condition under which \<^verbatim>\<open>nValidate\<close> does not throw:
  \<^verbatim>\<open>typeof v === "number" && isFinite(v) && validator.validate(v)\<close>.
\<close>

definition passes :: "validator \<Rightarrow> jsval \<Rightarrow> bool" where
  "passes vl v = (case v of Num x \<Rightarrow> validate vl x | _ \<Rightarrow> False)"

definition VlShapeWeight :: validator where
  "VlShapeWeight = \<lparr>validate = (\<lambda>x. x \<ge> 100 \<and> x \<le> 900), fixup = False, fix_of = None\<rparr>"

definition VlCssWeight :: validator where
  "VlCssWeight = \<lparr>validate = (\<lambda>x. x > 0 \<and> x < 1000), fixup = False, fix_of = None\<rparr>"

definition VlMenuWeight :: validator where
  "VlMenuWeight = VlCssWeight"

definition VlMenuWidth :: validator where
  "VlMenuWidth =
     \<lparr>validate = (\<lambda>x. x \<ge> 1 \<and> x \<le> 9 \<and> x = of_int \<lfloor>x\<rfloor>), fixup = False, fix_of = None\<rparr>"

subsection \<open>The legacy width grades\<close>

text \<open>
  \<^verbatim>\<open>VlShapeWidth.fix\<close> reads and writes the module-level map \<^verbatim>\<open>g_widthFixupMemory\<close> and
  prints a warning through \<^verbatim>\<open>echo.warn\<close>. Both are the state of the process: the map, and
  the list of warnings printed so far, each recorded as the grade and the unit width its
  text names. The argument is a number.
\<close>

record fix_state =
  g_widthFixupMemory :: "real \<rightharpoonup> real"
  warned :: "(real \<times> real) list"

definition process_start :: fix_state where
  "process_start = \<lparr>g_widthFixupMemory = Map.empty, warned = []\<rparr>"

text \<open>
  The script computes \<^verbatim>\<open>Math.round(500 * Math.pow(Math.sqrt(576 / 500), x - 5))\<close> in
  double arithmetic, where \<^verbatim>\<open>Math.round\<close> is \<open>\<lfloor>y + 1/2\<rfloor>\<close>, which is \<open>round\<close>. At an integer
  grade from 3 to 9 the real number \<open>500 * (sqrt (576/500)) powr (x - 5)\<close> lies within 0.46
  of an integer, so
  the error of double arithmetic does not reach the rounding and the script gets the
  rounded real number (lemma \<open>grade_values_stable\<close> below allows an error of a hundredth).
  At a grade that is not an integer the real number can lie within that error of a half:
  at 6.7149492651127 the double is 564.5 and the script gets 565, where the real number
  rounds to 564. There the result is what the arithmetic of the runtime gives, which the
  model takes as the parameter \<open>inexact\<close>.
\<close>

definition xCorrected_of :: "(real \<Rightarrow> real) \<Rightarrow> real \<Rightarrow> real" where
  "xCorrected_of inexact x =
     (if x = of_int \<lfloor>x\<rfloor> then of_int (round (500 * (sqrt (576 / 500)) powr (x - 5)))
      else inexact x)"

definition VlShapeWidth_fix :: "(real \<Rightarrow> real) \<Rightarrow> fix_state \<Rightarrow> real \<Rightarrow> real \<times> fix_state" where
  "VlShapeWidth_fix inexact st x =
     (if x \<ge> 3 \<and> x \<le> 9 then
        (case g_widthFixupMemory st x of
           Some v \<Rightarrow> (v, st)
         | None \<Rightarrow>
             (let xCorrected = xCorrected_of inexact x
              in (xCorrected,
                  st\<lparr>warned := warned st @ [(x, xCorrected)],
                     g_widthFixupMemory := (g_widthFixupMemory st)(x \<mapsto> xCorrected)\<rparr>)))
      else (x, st))"

text \<open>The state of the process after a sequence of calls of \<^verbatim>\<open>fix\<close>.\<close>

fun fix_calls :: "(real \<Rightarrow> real) \<Rightarrow> fix_state \<Rightarrow> real list \<Rightarrow> fix_state" where
  "fix_calls inexact st [] = st"
| "fix_calls inexact st (x # xs) = fix_calls inexact (snd (VlShapeWidth_fix inexact st x)) xs"

text \<open>Arithmetic without rounding error, one of the values the parameter can take.\<close>

definition exact_arithmetic :: "real \<Rightarrow> real" where
  "exact_arithmetic x = of_int (round (500 * (sqrt (576 / 500)) powr (x - 5)))"

text \<open>
  The object \<^verbatim>\<open>VlShapeWidth\<close> has the methods \<^verbatim>\<open>validate\<close> and \<^verbatim>\<open>fix\<close> and no property
  \<^verbatim>\<open>fixup\<close>, so \<^verbatim>\<open>validator.fixup\<close> is \<^verbatim>\<open>undefined\<close> for it and \<^verbatim>\<open>nValidate\<close> never
  calls the method. The field \<open>fix_of\<close> records it as a function of the number alone: its
  result at the start of the process, with \<open>exact_arithmetic\<close>.
\<close>

definition VlShapeWidth :: validator where
  "VlShapeWidth =
     \<lparr>validate = (\<lambda>x. x \<ge> 433 \<and> x \<le> 665), fixup = False,
      fix_of = Some (\<lambda>x. fst (VlShapeWidth_fix exact_arithmetic process_start x))\<rparr>"

text \<open>
  What the memory holds in every state the process reaches: only values the script
  computes for their grades, and a key for every warning printed, each grade warned about
  once.
\<close>

definition memory_sound :: "(real \<Rightarrow> real) \<Rightarrow> fix_state \<Rightarrow> bool" where
  "memory_sound inexact st \<longleftrightarrow>
     (\<forall>x v. g_widthFixupMemory st x = Some v \<longrightarrow> v = xCorrected_of inexact x)
   \<and> distinct (map fst (warned st))
   \<and> fst ` set (warned st) \<subseteq> dom (g_widthFixupMemory st)"

section \<open>The suffix mapping\<close>

text \<open>
  An entry of the tables \<^verbatim>\<open>weights\<close> and \<^verbatim>\<open>widths\<close> is a table with the properties
  \<^verbatim>\<open>shape\<close>, \<^verbatim>\<open>css\<close> and \<^verbatim>\<open>menu\<close> (\<open>Undefined\<close> when the table lacks one); an entry of
  \<^verbatim>\<open>slopes\<close> is a value, usually a string.
\<close>

record axis_entry =
  shape :: jsval
  css :: jsval
  menu :: jsval

record suffix_item =
  weight :: string
  shapeWeight :: real
  cssWeight :: real
  menuWeight :: real
  width :: string
  shapeWidth :: real
  cssStretch :: jsval
  menuWidth :: real
  slope :: string
  cssStyle :: jsval
  menuSlope :: jsval

text \<open>
  \<^verbatim>\<open>tbl[k].field\<close>: a \<^verbatim>\<open>TypeError\<close> of the runtime when \<open>tbl\<close> or \<open>tbl[k]\<close> is
  \<^verbatim>\<open>undefined\<close>.
\<close>

definition entry_of :: "'v obj option \<Rightarrow> string \<Rightarrow> error + 'v" where
  "entry_of tbl k =
     (case tbl of
        None \<Rightarrow> Inl RuntimeTypeError
      | Some kvs \<Rightarrow> (case map_of kvs k of None \<Rightarrow> Inl RuntimeTypeError | Some e \<Rightarrow> Inr e))"

text \<open>\<^verbatim>\<open>slopes[s]\<close>: \<^verbatim>\<open>undefined\<close> when the table has no such key.\<close>

definition value_of :: "jsval obj option \<Rightarrow> string \<Rightarrow> error + jsval" where
  "value_of tbl k =
     (case tbl of
        None \<Rightarrow> Inl RuntimeTypeError
      | Some kvs \<Rightarrow> (case map_of kvs k of None \<Rightarrow> Inr Undefined | Some v \<Rightarrow> Inr v))"

text \<open>The properties of the object literal are evaluated in the order they are written.\<close>

definition getSuffixMappingItem ::
  "axis_entry obj option \<Rightarrow> string \<Rightarrow> jsval obj option \<Rightarrow> string \<Rightarrow>
   axis_entry obj option \<Rightarrow> string \<Rightarrow> error + suffix_item" where
  "getSuffixMappingItem weights w slopes s widths wd =
     and_then (entry_of weights w) (\<lambda>we.
     and_then (nValidate (''Shape weight of '' @ w) (shape we) VlShapeWeight) (\<lambda>shW.
     and_then (nValidate (''CSS weight of '' @ w) (css we) VlCssWeight) (\<lambda>cssW.
     and_then (nValidate (''Menu weight of '' @ w) (menu we) VlMenuWeight) (\<lambda>menuW.
     and_then (entry_of widths wd) (\<lambda>wde.
     and_then (nValidate (''Shape width of '' @ wd) (shape wde) VlShapeWidth) (\<lambda>shWd.
     and_then (nValidate (''Menu width of '' @ wd) (menu wde) VlMenuWidth) (\<lambda>menuWd.
     and_then (value_of slopes s) (\<lambda>sv.
       Inr \<lparr>weight = w, shapeWeight = shW, cssWeight = cssW, menuWeight = menuW,
            width = wd, shapeWidth = shWd, cssStretch = or_js (css wde) (Str wd),
            menuWidth = menuWd,
            slope = s, cssStyle = or_js sv (Str s), menuSlope = or_js sv (Str s)\<rparr>))))))))"

text \<open>
  The three nested \<^verbatim>\<open>for ... in\<close> loops of \<^verbatim>\<open>getSuffixMapping\<close>, innermost first. Each
  takes the keys still to visit and the mapping built so far; an error ends all of them.
  \<^verbatim>\<open>validateRecommendedWeight\<close> only prints warnings and is left out.
\<close>

fun mapping_widths ::
  "axis_entry obj option \<Rightarrow> string \<Rightarrow> jsval obj option \<Rightarrow> string \<Rightarrow> axis_entry obj option \<Rightarrow>
   string list \<Rightarrow> suffix_item obj \<Rightarrow> error + suffix_item obj" where
  "mapping_widths weights w slopes s widths [] mapping = Inr mapping"
| "mapping_widths weights w slopes s widths (wd # wds) mapping =
     and_then (getSuffixMappingItem weights w slopes s widths wd) (\<lambda>item.
       mapping_widths weights w slopes s widths wds
         (obj_set (makeSuffix w wd s DEFAULT_SUBFAMILY) item mapping))"

fun mapping_slopes ::
  "axis_entry obj option \<Rightarrow> string \<Rightarrow> jsval obj option \<Rightarrow> string list \<Rightarrow> axis_entry obj option \<Rightarrow>
   suffix_item obj \<Rightarrow> error + suffix_item obj" where
  "mapping_slopes weights w slopes [] widths mapping = Inr mapping"
| "mapping_slopes weights w slopes (s # ss) widths mapping =
     and_then (mapping_widths weights w slopes s widths (for_in widths) mapping)
       (\<lambda>mapping'. mapping_slopes weights w slopes ss widths mapping')"

fun mapping_weights ::
  "axis_entry obj option \<Rightarrow> string list \<Rightarrow> jsval obj option \<Rightarrow> axis_entry obj option \<Rightarrow>
   suffix_item obj \<Rightarrow> error + suffix_item obj" where
  "mapping_weights weights [] slopes widths mapping = Inr mapping"
| "mapping_weights weights (w # ws) slopes widths mapping =
     and_then (mapping_slopes weights w slopes (for_in slopes) widths mapping)
       (\<lambda>mapping'. mapping_weights weights ws slopes widths mapping')"

definition getSuffixMapping ::
  "axis_entry obj option \<Rightarrow> jsval obj option \<Rightarrow> axis_entry obj option \<Rightarrow> error + suffix_item obj" where
  "getSuffixMapping weights slopes widths =
     mapping_weights weights (for_in weights) slopes widths []"

text \<open>
  An error names an invalid field of the axis tables: its key is the label \<^verbatim>\<open>nValidate\<close> is
  given for a field of an entry of \<open>weights\<close> or \<open>widths\<close>, its value is the value stored in
  that field, and the value does not pass the field's validator.
\<close>

definition names_invalid_field :: "axis_entry obj \<Rightarrow> axis_entry obj \<Rightarrow> error \<Rightarrow> bool" where
  "names_invalid_field weights widths e \<longleftrightarrow>
     (\<exists>(w, we) \<in> set weights.
        e = NotAValidNumber (''Shape weight of '' @ w) (shape we) \<and> \<not> passes VlShapeWeight (shape we)
      \<or> e = NotAValidNumber (''CSS weight of '' @ w) (css we) \<and> \<not> passes VlCssWeight (css we)
      \<or> e = NotAValidNumber (''Menu weight of '' @ w) (menu we) \<and> \<not> passes VlMenuWeight (menu we))
   \<or> (\<exists>(wd, wde) \<in> set widths.
        e = NotAValidNumber (''Shape width of '' @ wd) (shape wde) \<and> \<not> passes VlShapeWidth (shape wde)
      \<or> e = NotAValidNumber (''Menu width of '' @ wd) (menu wde) \<and> \<not> passes VlMenuWidth (menu wde))"

section \<open>Configuration loading\<close>

text \<open>
  A build plan, as far as the plan expansion reads or writes it. The properties carry the
  prefix \<open>bp_\<close> where a table of the whole configuration has the same name. \<open>targets\<close> is
  the list \<^verbatim>\<open>BuildPlans\<close> stores in the copy of the plan it returns.
\<close>

record build_plan =
  family :: jsval
  bp_weights :: "axis_entry obj option"
  bp_slopes :: "jsval obj option"
  bp_slants :: "jsval obj option"
  bp_widths :: "axis_entry obj option"
  targets :: "string list"

text \<open>
  An entry of \<^verbatim>\<open>collectPlans\<close> with its array \<^verbatim>\<open>from\<close> (absent: \<open>None\<close>), and the table
  \<^verbatim>\<open>collectConfig\<close>, of which only the truth values of three properties are read.
\<close>

record collect_entry =
  from_list :: "string list option"

record collect_config =
  distinguishWeights :: bool
  distinguishWidths :: bool
  distinguishSlope :: bool

text \<open>
  The parsed configuration: the top-level tables the script reads (\<open>rp_weights\<close>,
  \<open>rp_slopes\<close> and \<open>rp_widths\<close> are \<^verbatim>\<open>rp.weights\<close>, \<^verbatim>\<open>rp.slopes\<close> and \<^verbatim>\<open>rp.widths\<close>); any
  other top-level table is in the extension part of the record.
\<close>

record raw_plans =
  buildPlans :: "build_plan obj option"
  buildOptions :: "jsval obj option"
  rp_weights :: "axis_entry obj option"
  rp_slopes :: "jsval obj option"
  rp_widths :: "axis_entry obj option"
  collectPlans :: "collect_entry obj option"
  collectConfig :: "collect_config option"

text \<open>
  \<^verbatim>\<open>Object.assign(target, source)\<close>: every property of the source is assigned to the
  target, in the source's order. It throws on an \<^verbatim>\<open>undefined\<close> target and ignores an
  \<^verbatim>\<open>undefined\<close> source.
\<close>

definition object_assign :: "'v obj option \<Rightarrow> 'v obj option \<Rightarrow> error + 'v obj" where
  "object_assign tgt src =
     (case tgt of
        None \<Rightarrow> Inl RuntimeTypeError
      | Some ob \<Rightarrow>
          Inr (foldl (\<lambda>acc (k, v). obj_set k v acc) ob (case src of None \<Rightarrow> [] | Some kvs \<Rightarrow> kvs)))"

text \<open>The entries of a table that may be absent: \<^verbatim>\<open>tbl[k]\<close> for every key \<open>k\<close>.\<close>

definition entries_of :: "'v obj option \<Rightarrow> string \<rightharpoonup> 'v" where
  "entries_of tbl = (case tbl of None \<Rightarrow> Map.empty | Some ob \<Rightarrow> map_of ob)"

text \<open>
  \<^verbatim>\<open>RawPlans\<close>. The two arguments are what \<^verbatim>\<open>tryParseToml\<close> gives for
  \<^verbatim>\<open>build-plans.toml\<close> and for \<^verbatim>\<open>private-build-plans.toml\<close>: the parsed file or the error it
  throws; the second is \<open>None\<close> when \<^verbatim>\<open>fs.existsSync\<close> does not find the private file.
\<close>

definition RawPlans ::
  "error + 'a raw_plans_scheme \<Rightarrow> (error + 'a raw_plans_scheme) option \<Rightarrow> error + 'a raw_plans_scheme" where
  "RawPlans base private =
     and_then base (\<lambda>bp0.
       let bp = bp0\<lparr>buildOptions := or_table (buildOptions bp0) (Some [])\<rparr>
       in case private of
            None \<Rightarrow> Inr bp
          | Some parsed \<Rightarrow>
              and_then parsed (\<lambda>privateBP.
              and_then (object_assign (buildPlans bp) (buildPlans privateBP)) (\<lambda>plans.
              and_then (object_assign (buildOptions bp)
                          (or_table (buildOptions privateBP) (Some []))) (\<lambda>opts.
                Inr (bp\<lparr>buildPlans := Some plans, buildOptions := Some opts\<rparr>)))))"

section \<open>Plan expansion\<close>

text \<open>\<^verbatim>\<open>validateAndShimBuildPlans\<close>; the warning about \<^verbatim>\<open>slants\<close> is only printed.\<close>

definition validateAndShimBuildPlans ::
  "string \<Rightarrow> build_plan \<Rightarrow> axis_entry obj option \<Rightarrow> jsval obj option \<Rightarrow> axis_entry obj option \<Rightarrow>
   error + build_plan" where
  "validateAndShimBuildPlans prefix bp dWeights dSlopes dWidths =
     (if \<not> truthy (family bp) then Inl (NoFamilyName prefix)
      else Inr (bp\<lparr>bp_weights := or_table (bp_weights bp) dWeights,
                   bp_slopes := or_table (bp_slopes bp) (or_table (bp_slants bp) dSlopes),
                   bp_widths := or_table (bp_widths bp) dWidths\<rparr>))"

text \<open>
  The two tests of the loop over the suffix mapping inside \<^verbatim>\<open>BuildPlans\<close> that end in
  \<^verbatim>\<open>continue\<close>: \<^verbatim>\<open>weights && !weights[sfi.weight]\<close> and \<^verbatim>\<open>slopes && !slopes[sfi.slope]\<close>.
  An entry of \<^verbatim>\<open>weights\<close> is a table and so truthy; an entry of \<^verbatim>\<open>slopes\<close> is any value.
\<close>

definition skips :: "axis_entry obj option \<Rightarrow> jsval obj option \<Rightarrow> suffix_item \<Rightarrow> bool" where
  "skips weights slopes sfi \<longleftrightarrow>
     (case weights of None \<Rightarrow> False | Some ws \<Rightarrow> map_of ws (weight sfi) = None)
   \<or> (case slopes of None \<Rightarrow> False
      | Some sl \<Rightarrow> \<not> truthy (case map_of sl (slope sfi) of None \<Rightarrow> Undefined | Some v \<Rightarrow> v))"

text \<open>
  The loop itself: it takes the entries still to visit and the pair of \<^verbatim>\<open>bp.targets\<close> and
  \<^verbatim>\<open>fileNameToBpMap\<close> built so far.
\<close>

fun plan_targets ::
  "string \<Rightarrow> axis_entry obj option \<Rightarrow> jsval obj option \<Rightarrow> suffix_item obj \<Rightarrow>
   string list \<times> (string \<times> string) obj \<Rightarrow> string list \<times> (string \<times> string) obj" where
  "plan_targets prefix weights slopes [] acc = acc"
| "plan_targets prefix weights slopes ((suffix, sfi) # rest) acc =
     (if skips weights slopes sfi then plan_targets prefix weights slopes rest acc
      else plan_targets prefix weights slopes rest
             (fst acc @ [makeFileName prefix suffix],
              obj_set (makeFileName prefix suffix) (prefix, suffix) (snd acc)))"

text \<open>
  The result of \<^verbatim>\<open>BuildPlans\<close>: the reverse index, whose entries \<^verbatim>\<open>{ prefix, suffix }\<close>
  are pairs, and the table of the expanded plans (the property \<^verbatim>\<open>buildPlans\<close> of the
  result, named after the local variable that holds it).
\<close>

record build_plans =
  fileNameToBpMap :: "(string \<times> string) obj"
  returnBuildPlans :: "build_plan obj"

fun build_plans_loop ::
  "'a raw_plans_scheme \<Rightarrow> build_plan obj \<Rightarrow> build_plans \<Rightarrow> error + build_plans" where
  "build_plans_loop rp [] acc = Inr acc"
| "build_plans_loop rp ((prefix, raw) # rest) acc =
     and_then (validateAndShimBuildPlans prefix raw (rp_weights rp) (rp_slopes rp) (rp_widths rp)) (\<lambda>bp.
     and_then (getSuffixMapping (bp_weights bp) (bp_slopes bp) (bp_widths bp)) (\<lambda>suffixMapping.
       build_plans_loop rp rest
         (let found = plan_targets prefix (bp_weights bp) (bp_slopes bp) suffixMapping
                        ([], fileNameToBpMap acc)
          in \<lparr>fileNameToBpMap = snd found,
              returnBuildPlans = obj_set prefix (bp\<lparr>targets := fst found\<rparr>) (returnBuildPlans acc)\<rparr>)))"

definition BuildPlans :: "'a raw_plans_scheme \<Rightarrow> error + build_plans" where
  "BuildPlans rp =
     build_plans_loop rp (case buildPlans rp of None \<Rightarrow> [] | Some plans \<Rightarrow> plans)
       \<lparr>fileNameToBpMap = [], returnBuildPlans = []\<rparr>"

text \<open>
  What holds of the index and the plans after every iteration of the loop over the plans:
  an entry of the index for a name \<open>t\<close> is a pair whose target name is \<open>t\<close> and whose plan
  lists \<open>t\<close> among its targets; and every target a plan lists is the name of that plan's
  prefix with some suffix, and has an entry in the index.
\<close>

definition index_sound :: "build_plans \<Rightarrow> bool" where
  "index_sound r \<longleftrightarrow>
     (\<forall>t p s. map_of (fileNameToBpMap r) t = Some (p, s) \<longrightarrow>
        t = makeFileName p s \<and> (\<exists>bp. map_of (returnBuildPlans r) p = Some bp \<and> t \<in> set (targets bp)))
   \<and> (\<forall>p bp t. map_of (returnBuildPlans r) p = Some bp \<and> t \<in> set (targets bp) \<longrightarrow>
        (\<exists>q. map_of (fileNameToBpMap r) t = Some q) \<and> (\<exists>s. t = makeFileName p s))"

text \<open>\<^verbatim>\<open>BuildPlanOf(gid)\<close> as a requester of it sees it: the plan, or the failure.\<close>

definition BuildPlanOf :: "'a raw_plans_scheme \<Rightarrow> string \<Rightarrow> error + build_plan" where
  "BuildPlanOf rp gid =
     and_then (BuildPlans rp) (\<lambda>r.
       case map_of (returnBuildPlans r) gid of
         None \<Rightarrow> Inl (PlanNotFound gid)
       | Some plan \<Rightarrow> Inr plan)"

definition StandardSuffixes :: "'a raw_plans_scheme \<Rightarrow> error + suffix_item obj" where
  "StandardSuffixes rp = getSuffixMapping (rp_weights rp) (rp_slopes rp) (rp_widths rp)"

section \<open>Collection plans\<close>

definition fnStandardTtc ::
  "collect_config option \<Rightarrow> string \<Rightarrow> string \<Rightarrow> string \<Rightarrow> string \<Rightarrow> error + string" where
  "fnStandardTtc cfg prefix w wd s =
     (case cfg of
        None \<Rightarrow> Inl RuntimeTypeError
      | Some c \<Rightarrow>
          Inr (prefix @ ''-'' @
               makeSuffix (if distinguishWeights c then w else WEIGHT_NORMAL)
                          (if distinguishWidths c then wd else WIDTH_NORMAL)
                          (if distinguishSlope c then s else SLOPE_NORMAL)
                          DEFAULT_SUBFAMILY))"

text \<open>\<^verbatim>\<open>{ ...config, distinguishWidths: true }\<close>; spreading \<^verbatim>\<open>undefined\<close> adds no property.\<close>

definition with_widths :: "collect_config option \<Rightarrow> collect_config option" where
  "with_widths cfg =
     (case cfg of
        None \<Rightarrow> Some \<lparr>distinguishWeights = False, distinguishWidths = True, distinguishSlope = False\<rparr>
      | Some c \<Rightarrow> Some (c\<lparr>distinguishWidths := True\<rparr>))"

text \<open>
  \<^verbatim>\<open>if (!ob[k]) ob[k] = []; ob[k].push(x)\<close> (an array is truthy), and \<^verbatim>\<open>Set.add\<close>, a
  \<^verbatim>\<open>Set\<close> being the list of its elements in the order they were first added.
\<close>

definition obj_push :: "string \<Rightarrow> 'v \<Rightarrow> 'v list obj \<Rightarrow> 'v list obj" where
  "obj_push k x ob =
     (case map_of ob k of None \<Rightarrow> obj_set k [x] ob | Some xs \<Rightarrow> obj_set k (xs @ [x]) ob)"

definition set_add :: "'a \<Rightarrow> 'a list \<Rightarrow> 'a list" where
  "set_add x xs = (if x \<in> set xs then xs else xs @ [x])"

text \<open>\<^verbatim>\<open>new Set(xs)\<close>, also \<^verbatim>\<open>Array.from\<close> of it.\<close>

definition new_Set :: "'a list \<Rightarrow> 'a list" where
  "new_Set xs = foldl (\<lambda>acc x. set_add x acc) [] xs"

text \<open>An element \<^verbatim>\<open>{ dir, file }\<close> of a list in \<^verbatim>\<open>glyfTtcComposition\<close> is a pair.\<close>

record collect_plans =
  glyfTtcComposition :: "(string \<times> string) list obj"
  ttcComposition :: "string list obj"
  ttcContents :: "string list obj"
  groupDecomposition :: "string list obj"

text \<open>
  The loops of \<^verbatim>\<open>getCollectPlans\<close>, innermost first. \<open>need_plan prefix\<close> is
  \<^verbatim>\<open>await target.need(BuildPlanOf(prefix))\<close>; the state of the two inner loops is the plan
  set with \<^verbatim>\<open>groupFileList\<close>.
\<close>

fun collect_suffixes ::
  "(collect_config option \<Rightarrow> string \<Rightarrow> string \<Rightarrow> string \<Rightarrow> string \<Rightarrow> error + string) \<Rightarrow>
   collect_config option \<Rightarrow> string \<Rightarrow> string \<Rightarrow> string list \<Rightarrow> suffix_item obj \<Rightarrow>
   collect_plans \<times> string list \<Rightarrow> error + collect_plans \<times> string list" where
  "collect_suffixes fnFileName config collectPrefix prefix ttfFileNameSet [] acc = Inr acc"
| "collect_suffixes fnFileName config collectPrefix prefix ttfFileNameSet ((suffix, sfi) # rest) acc =
     and_then (fnFileName config collectPrefix (weight sfi) (width sfi) (slope sfi)) (\<lambda>ttcFileName.
     and_then (fnFileName (with_widths config) collectPrefix (weight sfi) (width sfi) (slope sfi))
       (\<lambda>glyfTtcFileName.
         if makeFileName prefix suffix \<notin> set ttfFileNameSet
         then collect_suffixes fnFileName config collectPrefix prefix ttfFileNameSet rest acc
         else collect_suffixes fnFileName config collectPrefix prefix ttfFileNameSet rest
                ((fst acc)\<lparr>glyfTtcComposition :=
                             obj_push glyfTtcFileName (prefix, makeFileName prefix suffix)
                               (glyfTtcComposition (fst acc)),
                           ttcComposition :=
                             obj_push ttcFileName glyfTtcFileName (ttcComposition (fst acc))\<rparr>,
                 set_add ttcFileName (snd acc))))"

fun collect_sources ::
  "(string \<Rightarrow> error + build_plan) \<Rightarrow>
   (collect_config option \<Rightarrow> string \<Rightarrow> string \<Rightarrow> string \<Rightarrow> string \<Rightarrow> error + string) \<Rightarrow>
   collect_config option \<Rightarrow> suffix_item obj \<Rightarrow> string \<Rightarrow> string list \<Rightarrow>
   collect_plans \<times> string list \<Rightarrow> error + collect_plans \<times> string list" where
  "collect_sources need_plan fnFileName config suffixMapping collectPrefix [] acc = Inr acc"
| "collect_sources need_plan fnFileName config suffixMapping collectPrefix (prefix # rest) acc =
     and_then (need_plan prefix) (\<lambda>gri.
     and_then (collect_suffixes fnFileName config collectPrefix prefix (targets gri) suffixMapping acc)
       (\<lambda>acc'. collect_sources need_plan fnFileName config suffixMapping collectPrefix rest acc'))"

fun collect_loop ::
  "(string \<Rightarrow> error + build_plan) \<Rightarrow>
   (collect_config option \<Rightarrow> string \<Rightarrow> string \<Rightarrow> string \<Rightarrow> string \<Rightarrow> error + string) \<Rightarrow>
   collect_config option \<Rightarrow> suffix_item obj \<Rightarrow> collect_entry obj \<Rightarrow> collect_plans \<Rightarrow>
   error + collect_plans" where
  "collect_loop need_plan fnFileName config suffixMapping [] cp = Inr cp"
| "collect_loop need_plan fnFileName config suffixMapping ((collectPrefix, collect) # rest) cp =
     (case from_list collect of
        None \<Rightarrow> collect_loop need_plan fnFileName config suffixMapping rest cp
      | Some [] \<Rightarrow> collect_loop need_plan fnFileName config suffixMapping rest cp
      | Some (p # ps) \<Rightarrow>
          and_then (collect_sources need_plan fnFileName config suffixMapping collectPrefix (p # ps)
                      (cp, []))
            (\<lambda>acc. collect_loop need_plan fnFileName config suffixMapping rest
               ((fst acc)\<lparr>ttcContents := obj_set collectPrefix (snd acc) (ttcContents (fst acc)),
                          groupDecomposition :=
                            obj_set collectPrefix (p # ps) (groupDecomposition (fst acc))\<rparr>)))"

definition getCollectPlans ::
  "(string \<Rightarrow> error + build_plan) \<Rightarrow> collect_entry obj option \<Rightarrow> suffix_item obj \<Rightarrow>
   collect_config option \<Rightarrow>
   (collect_config option \<Rightarrow> string \<Rightarrow> string \<Rightarrow> string \<Rightarrow> string \<Rightarrow> error + string) \<Rightarrow>
   error + collect_plans" where
  "getCollectPlans need_plan rawCollectPlans suffixMapping config fnFileName =
     collect_loop need_plan fnFileName config suffixMapping
       (case rawCollectPlans of None \<Rightarrow> [] | Some entries \<Rightarrow> entries)
       \<lparr>glyfTtcComposition = [], ttcComposition = [], ttcContents = [], groupDecomposition = []\<rparr>"

text \<open>
  What holds of the two composition tables after every step of the loops: every pair in a
  list of \<^verbatim>\<open>glyfTtcComposition\<close> names a source plan that \<open>need_plan\<close> finds and a target
  that plan lists; and every name in a list of \<^verbatim>\<open>ttcComposition\<close> is a key of
  \<^verbatim>\<open>glyfTtcComposition\<close> with a non-empty list.
\<close>

definition composition_sound :: "(string \<Rightarrow> error + build_plan) \<Rightarrow> collect_plans \<Rightarrow> bool" where
  "composition_sound need_plan cp \<longleftrightarrow>
     (\<forall>name parts dir file.
        map_of (glyfTtcComposition cp) name = Some parts \<and> (dir, file) \<in> set parts \<longrightarrow>
        (\<exists>gri. need_plan dir = Inr gri \<and> file \<in> set (targets gri)))
   \<and> (\<forall>name gs g.
        map_of (ttcComposition cp) name = Some gs \<and> g \<in> set gs \<longrightarrow>
        (\<exists>parts. map_of (glyfTtcComposition cp) g = Some parts \<and> parts \<noteq> []))"

text \<open>
  Where the pairs of \<^verbatim>\<open>glyfTtcComposition\<close> come from, with the standard naming function.
  \<open>T\<close> is a set of triples of a collection, a source plan and a suffix, the iterations of
  the innermost loop that have pushed so far: every list is free of duplicates, and each
  of its pairs is the source and the target of such an iteration, pushed to the list that
  the naming function gives for the collection and the suffix.
\<close>

definition glyf_origin ::
  "collect_config option \<Rightarrow> suffix_item obj \<Rightarrow> (string \<times> string \<times> string) set \<Rightarrow>
   collect_plans \<Rightarrow> bool" where
  "glyf_origin config suffixMapping T cp \<longleftrightarrow>
     (\<forall>name parts.
        map_of (glyfTtcComposition cp) name = Some parts \<longrightarrow>
        distinct parts
      \<and> (\<forall>dir file. (dir, file) \<in> set parts \<longrightarrow>
           (\<exists>collectPrefix suffix sfi.
              (collectPrefix, dir, suffix) \<in> T \<and> (suffix, sfi) \<in> set suffixMapping
            \<and> file = makeFileName dir suffix
            \<and> fnStandardTtc (with_widths config) collectPrefix (weight sfi) (width sfi) (slope sfi)
                = Inr name)))"

definition CollectPlans :: "'a raw_plans_scheme \<Rightarrow> error + collect_plans" where
  "CollectPlans rp =
     and_then (StandardSuffixes rp) (\<lambda>suffixMapping.
       getCollectPlans (BuildPlanOf rp) (collectPlans rp) suffixMapping (collectConfig rp)
         fnStandardTtc)"

text \<open>
  The constituents \<^verbatim>\<open>ExportTtcFile\<close> requests for the container \<open>f\<close>:
  \<^verbatim>\<open>Array.from(new Set(cp.ttcComposition[f]))\<close>, and the ones \<^verbatim>\<open>glyfTtc\<close> hands to
  \<^verbatim>\<open>buildGlyfTtc\<close>: \<^verbatim>\<open>cp.glyfTtcComposition[f]\<close> as it is.
\<close>

definition ExportTtcFile_parts :: "collect_plans \<Rightarrow> string \<Rightarrow> string list" where
  "ExportTtcFile_parts cp f =
     new_Set (case map_of (ttcComposition cp) f of None \<Rightarrow> [] | Some gs \<Rightarrow> gs)"

definition glyfTtc_parts :: "collect_plans \<Rightarrow> string \<Rightarrow> (string \<times> string) list option" where
  "glyfTtc_parts cp f = map_of (glyfTtcComposition cp) f"

section \<open>Example configurations\<close>

text \<open>
  The axis tables of the scenario of the specification: one weight \<^verbatim>\<open>regular\<close>, one slope
  \<^verbatim>\<open>upright\<close>, one width \<^verbatim>\<open>normal\<close>; and a weight table whose only entry has the shape
  weight 950.
\<close>

definition scenario_weights :: "axis_entry obj" where
  "scenario_weights = [(''regular'', \<lparr>shape = Num 400, css = Num 400, menu = Num 400\<rparr>)]"

definition scenario_slopes :: "jsval obj" where
  "scenario_slopes = [(''upright'', Str ''normal'')]"

definition scenario_widths :: "axis_entry obj" where
  "scenario_widths = [(''normal'', \<lparr>shape = Num 500, css = Str ''normal'', menu = Num 5\<rparr>)]"

definition overweight :: "axis_entry obj" where
  "overweight = [(''heavy'', \<lparr>shape = Num 950, css = Num 900, menu = Num 900\<rparr>)]"

text \<open>
  The configuration of the scenario: the plan \<^verbatim>\<open>sans\<close> with these axes. A configuration with
  two plans, \<^verbatim>\<open>sans\<close> and \<^verbatim>\<open>serif\<close>, that take their axes from the global tables. And one
  whose plans \<^verbatim>\<open>a\<close> (with the weight \<^verbatim>\<open>b-c\<close>) and \<^verbatim>\<open>a-b\<close> (with the weight \<^verbatim>\<open>c\<close>) both
  produce the target name \<^verbatim>\<open>a-b-c\<close>.
\<close>

definition plan_with :: "axis_entry obj option \<Rightarrow> build_plan" where
  "plan_with ws = \<lparr>family = Str ''Example'', bp_weights = ws, bp_slopes = None, bp_slants = None,
                   bp_widths = None, targets = []\<rparr>"

definition config_with :: "build_plan obj \<Rightarrow> raw_plans" where
  "config_with plans =
     \<lparr>buildPlans = Some plans, buildOptions = None, rp_weights = Some scenario_weights,
      rp_slopes = Some scenario_slopes, rp_widths = Some scenario_widths,
      collectPlans = None, collectConfig = None\<rparr>"

definition scenario :: raw_plans where
  "scenario =
     \<lparr>buildPlans = Some [(''sans'',
         \<lparr>family = Str ''Sans'', bp_weights = Some scenario_weights, bp_slopes = Some scenario_slopes,
          bp_slants = None, bp_widths = Some scenario_widths, targets = []\<rparr>)],
      buildOptions = None, rp_weights = None, rp_slopes = None, rp_widths = None,
      collectPlans = None, collectConfig = None\<rparr>"

definition two_plans :: raw_plans where
  "two_plans = config_with [(''sans'', plan_with None), (''serif'', plan_with None)]"

definition colliding_plans :: raw_plans where
  "colliding_plans =
     config_with
       [(''a'', plan_with (Some [(''b-c'', \<lparr>shape = Num 700, css = Num 700, menu = Num 700\<rparr>)])),
        (''a-b'', plan_with (Some [(''c'', \<lparr>shape = Num 700, css = Num 700, menu = Num 700\<rparr>)]))]"

text \<open>What \<^verbatim>\<open>BuildPlans\<close> returns for the configuration with the two plans.\<close>

definition two_plans_expanded :: build_plans where
  "two_plans_expanded =
     \<lparr>fileNameToBpMap = [(''sans-regular'', (''sans'', ''regular'')),
                         (''serif-regular'', (''serif'', ''regular''))],
      returnBuildPlans =
        [(''sans'', \<lparr>family = Str ''Example'', bp_weights = Some scenario_weights,
                     bp_slopes = Some scenario_slopes, bp_slants = None,
                     bp_widths = Some scenario_widths, targets = [''sans-regular'']\<rparr>),
         (''serif'', \<lparr>family = Str ''Example'', bp_weights = Some scenario_weights,
                      bp_slopes = Some scenario_slopes, bp_slants = None,
                      bp_widths = Some scenario_widths, targets = [''serif-regular'']\<rparr>)]\<rparr>"

text \<open>
  A configuration with a collection \<^verbatim>\<open>both\<close> that draws from the plans \<^verbatim>\<open>sans\<close> and
  \<^verbatim>\<open>mono\<close>; the global slopes are \<^verbatim>\<open>upright\<close> and \<^verbatim>\<open>italic\<close>, and \<^verbatim>\<open>mono\<close> restricts its
  slopes to \<^verbatim>\<open>upright\<close>. The collection distinguishes no axis.
\<close>

definition sparse_collection :: raw_plans where
  "sparse_collection =
     \<lparr>buildPlans = Some [(''sans'', plan_with None),
                         (''mono'', (plan_with None)\<lparr>bp_slopes := Some scenario_slopes\<rparr>)],
      buildOptions = None, rp_weights = Some scenario_weights,
      rp_slopes = Some [(''upright'', Str ''normal''), (''italic'', Str ''italic'')],
      rp_widths = Some scenario_widths,
      collectPlans = Some [(''both'', \<lparr>from_list = Some [''sans'', ''mono'']\<rparr>)],
      collectConfig = Some \<lparr>distinguishWeights = False, distinguishWidths = False,
                            distinguishSlope = False\<rparr>\<rparr>"

text \<open>What \<^verbatim>\<open>CollectPlans\<close> returns for it.\<close>

definition sparse_collection_plans :: collect_plans where
  "sparse_collection_plans =
     \<lparr>glyfTtcComposition =
        [(''both-regular'',
          [(''sans'', ''sans-regular''), (''sans'', ''sans-italic''), (''mono'', ''mono-regular'')])],
      ttcComposition = [(''both-regular'', [''both-regular'', ''both-regular'', ''both-regular''])],
      ttcContents = [(''both'', [''both-regular''])],
      groupDecomposition = [(''both'', [''sans'', ''mono''])]\<rparr>"

text \<open>
  A configuration whose collection \<^verbatim>\<open>twice\<close> names the plan \<^verbatim>\<open>sans\<close> two times, and what
  \<^verbatim>\<open>CollectPlans\<close> returns for it.
\<close>

definition repeated_source :: raw_plans where
  "repeated_source =
     \<lparr>buildPlans = Some [(''sans'', plan_with None)],
      buildOptions = None, rp_weights = Some scenario_weights,
      rp_slopes = Some scenario_slopes, rp_widths = Some scenario_widths,
      collectPlans = Some [(''twice'', \<lparr>from_list = Some [''sans'', ''sans'']\<rparr>)],
      collectConfig = Some \<lparr>distinguishWeights = False, distinguishWidths = False,
                            distinguishSlope = False\<rparr>\<rparr>"

definition repeated_source_plans :: collect_plans where
  "repeated_source_plans =
     \<lparr>glyfTtcComposition =
        [(''twice-regular'', [(''sans'', ''sans-regular''), (''sans'', ''sans-regular'')])],
      ttcComposition = [(''twice-regular'', [''twice-regular'', ''twice-regular''])],
      ttcContents = [(''twice'', [''twice-regular''])],
      groupDecomposition = [(''twice'', [''sans'', ''sans''])]\<rparr>"

text \<open>
  A private file for the configuration with the two plans (which has no table
  \<^verbatim>\<open>buildOptions\<close>): it redefines \<^verbatim>\<open>serif\<close>, adds \<^verbatim>\<open>extra\<close> and sets one option.
\<close>

definition private_overlay :: raw_plans where
  "private_overlay =
     \<lparr>buildPlans = Some [(''serif'', plan_with (Some overweight)), (''extra'', plan_with None)],
      buildOptions = Some [(''optimizeWithTtx'', Bool True)],
      rp_weights = Some overweight, rp_slopes = None, rp_widths = None,
      collectPlans = None, collectConfig = None\<rparr>"

section \<open>Properties\<close>

subsection \<open>Sequencing and tables\<close>

lemma and_then_Inr [simp]: "and_then (Inr x) f = f x"
  by (simp add: and_then_def)

lemma and_then_Inl [simp]: "and_then (Inl e) f = Inl e"
  by (simp add: and_then_def)

lemma and_then_eq_Inr: "and_then m f = Inr y \<longleftrightarrow> (\<exists>x. m = Inr x \<and> f x = Inr y)"
  by (cases m) simp_all

lemma and_then_eq_Inl: "and_then m f = Inl e \<longleftrightarrow> m = Inl e \<or> (\<exists>x. m = Inr x \<and> f x = Inl e)"
  by (cases m) simp_all

lemma map_of_overwrite:
  "map_of (overwrite k v ob) = (if k \<in> set (map fst ob) then (map_of ob)(k \<mapsto> v) else map_of ob)"
proof (induction k v ob rule: overwrite.induct)
  case (1 k v)
  then show ?case by simp
next
  case (2 k v k' v' rest)
  show ?case
  proof (cases "k' = k")
    case True
    then show ?thesis by simp
  next
    case False
    with 2 show ?thesis by (auto simp: fun_upd_twist)
  qed
qed

lemma keys_overwrite: "map fst (overwrite k v ob) = map fst ob"
  by (induction k v ob rule: overwrite.induct) auto

lemma keys_insert_index: "fst ` set (insert_index n k v ob) = insert k (fst ` set ob)"
  by (induction n k v ob rule: insert_index.induct) (auto split: option.splits)

lemma map_of_insert_index:
  "k \<notin> set (map fst ob) \<Longrightarrow> map_of (insert_index n k v ob) = (map_of ob)(k \<mapsto> v)"
proof (induction n k v ob rule: insert_index.induct)
  case (1 n k v)
  then show ?case by simp
next
  case (2 n k v k' v' rest)
  then have ne: "k' \<noteq> k" and nin: "k \<notin> set (map fst rest)" by auto
  show ?case
  proof (cases "array_index k'")
    case None
    then show ?thesis by (auto simp: fun_eq_iff)
  next
    case (Some m)
    show ?thesis
    proof (cases "m < n")
      case True
      with Some 2 nin ne show ?thesis by (auto simp: fun_eq_iff)
    next
      case False
      with Some show ?thesis by (auto simp: fun_eq_iff)
    qed
  qed
qed

lemma map_of_obj_set: "map_of (obj_set k v ob) = (map_of ob)(k \<mapsto> v)"
proof (cases "k \<in> set (map fst ob)")
  case True
  then show ?thesis by (simp add: obj_set_def map_of_overwrite)
next
  case False
  then have "map_of ob k = None" by (simp add: map_of_eq_None_iff)
  then have "map_of (ob @ [(k, v)]) = (map_of ob)(k \<mapsto> v)"
    by (auto simp: fun_eq_iff map_add_def split: option.splits)
  with False show ?thesis
    by (simp add: obj_set_def map_of_insert_index split: option.splits)
qed

lemma keys_obj_set: "fst ` set (obj_set k v ob) = insert k (fst ` set ob)"
proof (cases "k \<in> fst ` set ob")
  case True
  moreover have "fst ` set (overwrite k v ob) = fst ` set ob"
    using keys_overwrite[of k v ob] by (metis set_map)
  ultimately show ?thesis by (auto simp: obj_set_def)
next
  case False
  then show ?thesis
    by (simp add: obj_set_def keys_insert_index split: option.splits)
qed

lemma distinct_insert_index:
  "k \<notin> set (map fst ob) \<Longrightarrow> distinct (map fst ob) \<Longrightarrow> distinct (map fst (insert_index n k v ob))"
proof (induction n k v ob rule: insert_index.induct)
  case (1 n k v)
  then show ?case by simp
next
  case (2 n k v k' v' rest)
  then have ne: "k' \<noteq> k" and nin: "k \<notin> set (map fst rest)" and d: "distinct (map fst rest)"
    and k': "k' \<notin> set (map fst rest)" by auto
  show ?case
  proof (cases "array_index k'")
    case None
    with 2 show ?thesis by auto
  next
    case (Some m)
    show ?thesis
    proof (cases "m < n")
      case True
      from 2(1)[OF Some True nin d] have "distinct (map fst (insert_index n k v rest))" .
      moreover have "k' \<notin> fst ` set (insert_index n k v rest)"
        using k' ne unfolding keys_insert_index by simp
      ultimately show ?thesis using Some True by simp
    next
      case False
      with Some 2 show ?thesis by auto
    qed
  qed
qed

lemma distinct_obj_set: "distinct (map fst ob) \<Longrightarrow> distinct (map fst (obj_set k v ob))"
  by (auto simp: obj_set_def keys_overwrite distinct_insert_index split: option.splits)

subsection \<open>Configuration loading\<close>

lemma assign_entries:
  "distinct (map fst kvs) \<Longrightarrow>
   map_of (foldl (\<lambda>acc (k, v). obj_set k v acc) ob kvs) x
   = (case map_of kvs x of None \<Rightarrow> map_of ob x | Some v \<Rightarrow> Some v)"
proof (induction kvs arbitrary: ob)
  case Nil
  then show ?case by simp
next
  case (Cons kv kvs)
  obtain k v where kv: "kv = (k, v)" by (cases kv)
  from Cons.prems kv have fresh: "map_of kvs k = None" and d: "distinct (map fst kvs)"
    by (simp_all add: map_of_eq_None_iff)
  have "map_of (foldl (\<lambda>acc (k, v). obj_set k v acc) (obj_set k v ob) kvs) x
        = (case map_of kvs x of None \<Rightarrow> map_of (obj_set k v ob) x | Some v \<Rightarrow> Some v)"
    by (rule Cons.IH[OF d])
  with fresh show ?case
    by (cases "x = k") (simp_all add: kv map_of_obj_set split: option.splits)
qed

lemma object_assign_entries:
  "distinct (for_in src) \<Longrightarrow>
   \<exists>ob'. object_assign (Some ob) src = Inr ob' \<and> map_of ob' = map_of ob ++ entries_of src"
  by (cases src)
     (auto simp: object_assign_def entries_of_def for_in_def assign_entries fun_eq_iff map_add_def)

text \<open>
  Claim C8. When both files parse and the base file has a table \<^verbatim>\<open>buildPlans\<close>, the loaded
  configuration has, in \<^verbatim>\<open>buildPlans\<close> and in \<^verbatim>\<open>buildOptions\<close>, the entries of the base
  overridden key by key by those of the private file (an absent \<^verbatim>\<open>buildOptions\<close> counts as
  empty), and every other top-level table as the base file has it. Without a private file
  the result is the base configuration with \<^verbatim>\<open>buildOptions\<close> defaulted to the empty table.
\<close>

theorem private_overlay_merge:
  "(buildPlans bp = Some plans \<and> distinct (for_in (buildPlans pv)) \<and> distinct (for_in (buildOptions pv)) \<longrightarrow>
      (\<exists>r. RawPlans (Inr bp) (Some (Inr pv)) = Inr r
          \<and> entries_of (buildPlans r) = entries_of (buildPlans bp) ++ entries_of (buildPlans pv)
          \<and> entries_of (buildOptions r) = entries_of (buildOptions bp) ++ entries_of (buildOptions pv)
          \<and> rp_weights r = rp_weights bp \<and> rp_slopes r = rp_slopes bp \<and> rp_widths r = rp_widths bp
          \<and> collectPlans r = collectPlans bp \<and> collectConfig r = collectConfig bp
          \<and> raw_plans.more r = raw_plans.more bp))
   \<and> RawPlans (Inr bp) None
       = Inr (bp\<lparr>buildOptions := Some (case buildOptions bp of None \<Rightarrow> [] | Some opts \<Rightarrow> opts)\<rparr>)"
proof (intro conjI impI)
  assume a: "buildPlans bp = Some plans \<and> distinct (for_in (buildPlans pv))
             \<and> distinct (for_in (buildOptions pv))"
  define opts0 where "opts0 = (case buildOptions bp of None \<Rightarrow> [] | Some opts \<Rightarrow> opts)"
  have o0: "or_table (buildOptions bp) (Some []) = Some opts0"
    by (simp add: or_table_def opts0_def split: option.splits)
  have e0: "map_of opts0 = entries_of (buildOptions bp)"
    by (simp add: opts0_def entries_of_def split: option.splits)
  from a obtain plans' where p: "object_assign (Some plans) (buildPlans pv) = Inr plans'"
    "map_of plans' = map_of plans ++ entries_of (buildPlans pv)"
    using object_assign_entries[of "buildPlans pv" plans] by blast
  have "distinct (for_in (or_table (buildOptions pv) (Some [])))"
    using a by (simp add: or_table_def for_in_def split: option.splits)
  then obtain opts' where o: "object_assign (Some opts0) (or_table (buildOptions pv) (Some [])) = Inr opts'"
    "map_of opts' = map_of opts0 ++ entries_of (or_table (buildOptions pv) (Some []))"
    using object_assign_entries[of "or_table (buildOptions pv) (Some [])" opts0] by blast
  have e1: "entries_of (or_table (buildOptions pv) (Some [])) = entries_of (buildOptions pv)"
    by (simp add: or_table_def entries_of_def split: option.splits)
  have "RawPlans (Inr bp) (Some (Inr pv)) = Inr (bp\<lparr>buildOptions := Some opts', buildPlans := Some plans'\<rparr>)"
    using a p(1) o(1) o0 by (simp add: RawPlans_def Let_def)
  moreover have "entries_of (Some plans') = entries_of (buildPlans bp) ++ entries_of (buildPlans pv)"
    using a p(2) by (simp add: entries_of_def)
  moreover have "entries_of (Some opts') = entries_of (buildOptions bp) ++ entries_of (buildOptions pv)"
    using o(2) e0 e1 by (simp add: entries_of_def)
  ultimately show "\<exists>r. RawPlans (Inr bp) (Some (Inr pv)) = Inr r
          \<and> entries_of (buildPlans r) = entries_of (buildPlans bp) ++ entries_of (buildPlans pv)
          \<and> entries_of (buildOptions r) = entries_of (buildOptions bp) ++ entries_of (buildOptions pv)
          \<and> rp_weights r = rp_weights bp \<and> rp_slopes r = rp_slopes bp \<and> rp_widths r = rp_widths bp
          \<and> collectPlans r = collectPlans bp \<and> collectConfig r = collectConfig bp
          \<and> raw_plans.more r = raw_plans.more bp"
    by simp
next
  show "RawPlans (Inr bp) None
       = Inr (bp\<lparr>buildOptions := Some (case buildOptions bp of None \<Rightarrow> [] | Some opts \<Rightarrow> opts)\<rparr>)"
    by (simp add: RawPlans_def or_table_def split: option.splits)
qed

theorem private_overlay_merge_witness:
  "buildPlans two_plans = Some [(''sans'', plan_with None), (''serif'', plan_with None)]
   \<and> distinct (for_in (buildPlans private_overlay)) \<and> distinct (for_in (buildOptions private_overlay))
   \<and> RawPlans (Inr two_plans) (Some (Inr private_overlay))
       = Inr (two_plans\<lparr>buildPlans := Some [(''sans'', plan_with None),
                                              (''serif'', plan_with (Some overweight)),
                                              (''extra'', plan_with None)],
                         buildOptions := Some [(''optimizeWithTtx'', Bool True)]\<rparr>)
   \<and> rp_weights two_plans = Some scenario_weights
   \<and> RawPlans (Inr two_plans) None = Inr (two_plans\<lparr>buildOptions := Some []\<rparr>)"
  using private_overlay_merge[of two_plans "[(''sans'', plan_with None), (''serif'', plan_with None)]"
      private_overlay]
  by (simp add: two_plans_def config_with_def private_overlay_def for_in_def RawPlans_def
      object_assign_def or_table_def obj_set_def array_index_def)

subsection \<open>The suffix mapping\<close>

lemma nValidate_no_fixup:
  "\<not> fixup vl \<Longrightarrow>
   nValidate key v vl = (if passes vl v then Inr (case v of Num x \<Rightarrow> x) else Inl (NotAValidNumber key v))"
  by (cases v) (simp_all add: nValidate_def passes_def)

lemma no_fixup [simp]:
  "\<not> fixup VlShapeWeight" "\<not> fixup VlCssWeight" "\<not> fixup VlMenuWeight"
  "\<not> fixup VlShapeWidth" "\<not> fixup VlMenuWidth"
  by (simp_all add: VlShapeWeight_def VlCssWeight_def VlMenuWeight_def VlShapeWidth_def VlMenuWidth_def)

lemma nValidate_Inr:
  "\<not> fixup vl \<Longrightarrow> nValidate key v vl = Inr x \<longleftrightarrow> v = Num x \<and> validate vl x"
  by (cases v) (auto simp: nValidate_def)

lemma nValidate_Inl:
  "\<not> fixup vl \<Longrightarrow> nValidate key v vl = Inl e \<longleftrightarrow> e = NotAValidNumber key v \<and> \<not> passes vl v"
  by (cases v) (auto simp: nValidate_def passes_def)

lemma item_shape_weight_rejected:
  assumes "map_of weights w = Some we" "\<not> passes VlShapeWeight (shape we)"
  shows "getSuffixMappingItem (Some weights) w slopes s widths wd
         = Inl (NotAValidNumber (''Shape weight of '' @ w) (shape we))"
  using assms by (simp add: getSuffixMappingItem_def entry_of_def nValidate_no_fixup)

lemma item_Inr:
  assumes "getSuffixMappingItem weights w slopes s widths wd = Inr item"
  shows "\<exists>ws we wds wde sl.
           weights = Some ws \<and> map_of ws w = Some we \<and> widths = Some wds \<and> map_of wds wd = Some wde
         \<and> slopes = Some sl
         \<and> shape we = Num (shapeWeight item) \<and> validate VlShapeWeight (shapeWeight item)
         \<and> css we = Num (cssWeight item) \<and> validate VlCssWeight (cssWeight item)
         \<and> menu we = Num (menuWeight item) \<and> validate VlMenuWeight (menuWeight item)
         \<and> shape wde = Num (shapeWidth item) \<and> validate VlShapeWidth (shapeWidth item)
         \<and> menu wde = Num (menuWidth item) \<and> validate VlMenuWidth (menuWidth item)
         \<and> weight item = w \<and> width item = wd \<and> slope item = s
         \<and> cssStretch item = or_js (css wde) (Str wd)
         \<and> cssStyle item = or_js (case map_of sl s of None \<Rightarrow> Undefined | Some v \<Rightarrow> v) (Str s)
         \<and> menuSlope item = cssStyle item"
  using assms
  by (auto simp: getSuffixMappingItem_def and_then_eq_Inr nValidate_Inr entry_of_def value_of_def
      split: option.splits)

lemma item_cases:
  assumes we: "map_of ws w = Some we" and wde: "map_of wds wd = Some wde"
  shows "getSuffixMappingItem (Some ws) w (Some sl) s (Some wds) wd =
     (if \<not> passes VlShapeWeight (shape we) then Inl (NotAValidNumber (''Shape weight of '' @ w) (shape we))
      else if \<not> passes VlCssWeight (css we) then Inl (NotAValidNumber (''CSS weight of '' @ w) (css we))
      else if \<not> passes VlMenuWeight (menu we) then Inl (NotAValidNumber (''Menu weight of '' @ w) (menu we))
      else if \<not> passes VlShapeWidth (shape wde) then Inl (NotAValidNumber (''Shape width of '' @ wd) (shape wde))
      else if \<not> passes VlMenuWidth (menu wde) then Inl (NotAValidNumber (''Menu width of '' @ wd) (menu wde))
      else getSuffixMappingItem (Some ws) w (Some sl) s (Some wds) wd)"
  using we wde by (simp add: getSuffixMappingItem_def entry_of_def nValidate_no_fixup)

lemma item_passes_Inr:
  assumes we: "map_of ws w = Some we" and wde: "map_of wds wd = Some wde"
    and "passes VlShapeWeight (shape we)" "passes VlCssWeight (css we)" "passes VlMenuWeight (menu we)"
      "passes VlShapeWidth (shape wde)" "passes VlMenuWidth (menu wde)"
  shows "\<exists>item. getSuffixMappingItem (Some ws) w (Some sl) s (Some wds) wd = Inr item"
  using assms by (simp add: getSuffixMappingItem_def entry_of_def value_of_def nValidate_no_fixup split: option.splits)

lemma item_Inl:
  assumes err: "getSuffixMappingItem (Some ws) w (Some sl) s (Some wds) wd = Inl e"
    and "w \<in> fst ` set ws" "wd \<in> fst ` set wds"
  shows "names_invalid_field ws wds e"
proof -
  from assms(2) obtain we where we: "map_of ws w = Some we"
    by (metis map_of_eq_None_iff not_Some_eq)
  from assms(3) obtain wde where wde: "map_of wds wd = Some wde"
    by (metis map_of_eq_None_iff not_Some_eq)
  from we wde have in_ws: "(w, we) \<in> set ws" and in_wds: "(wd, wde) \<in> set wds"
    by (auto dest: map_of_SomeD)
  note unf = item_cases[OF we wde, of sl s]
  consider (a) "\<not> passes VlShapeWeight (shape we)"
    | (b) "passes VlShapeWeight (shape we)" "\<not> passes VlCssWeight (css we)"
    | (c) "passes VlShapeWeight (shape we)" "passes VlCssWeight (css we)" "\<not> passes VlMenuWeight (menu we)"
    | (d) "passes VlShapeWeight (shape we)" "passes VlCssWeight (css we)" "passes VlMenuWeight (menu we)"
          "\<not> passes VlShapeWidth (shape wde)"
    | (e) "passes VlShapeWeight (shape we)" "passes VlCssWeight (css we)" "passes VlMenuWeight (menu we)"
          "passes VlShapeWidth (shape wde)" "\<not> passes VlMenuWidth (menu wde)"
    | (f) "passes VlShapeWeight (shape we)" "passes VlCssWeight (css we)" "passes VlMenuWeight (menu we)"
          "passes VlShapeWidth (shape wde)" "passes VlMenuWidth (menu wde)"
    by blast
  then show ?thesis
  proof cases
    case a
    with unf err have "e = NotAValidNumber (''Shape weight of '' @ w) (shape we)" by simp
    with a in_ws show ?thesis unfolding names_invalid_field_def by (intro disjI1 bexI[of _ "(w, we)"]) simp_all
  next
    case b
    with unf err have "e = NotAValidNumber (''CSS weight of '' @ w) (css we)" by simp
    with b in_ws show ?thesis unfolding names_invalid_field_def by (intro disjI1 bexI[of _ "(w, we)"]) simp_all
  next
    case c
    with unf err have "e = NotAValidNumber (''Menu weight of '' @ w) (menu we)" by simp
    with c in_ws show ?thesis unfolding names_invalid_field_def by (intro disjI1 bexI[of _ "(w, we)"]) simp_all
  next
    case d
    with unf err have "e = NotAValidNumber (''Shape width of '' @ wd) (shape wde)" by simp
    with d in_wds show ?thesis unfolding names_invalid_field_def by (intro disjI2 bexI[of _ "(wd, wde)"]) simp_all
  next
    case e
    with unf err have "e = NotAValidNumber (''Menu width of '' @ wd) (menu wde)" by simp
    with e in_wds show ?thesis unfolding names_invalid_field_def by (intro disjI2 bexI[of _ "(wd, wde)"]) simp_all
  next
    case f
    from item_passes_Inr[OF we wde f, of sl s] err show ?thesis by simp
  qed
qed


lemma overwrite_entries: "(k', v') \<in> set (overwrite k v ob) \<Longrightarrow> (k', v') = (k, v) \<or> (k', v') \<in> set ob"
  by (induction k v ob rule: overwrite.induct) (auto split: if_splits)

lemma insert_index_entries:
  "(k', v') \<in> set (insert_index n k v ob) \<Longrightarrow> (k', v') = (k, v) \<or> (k', v') \<in> set ob"
  by (induction n k v ob rule: insert_index.induct) (auto split: option.splits if_splits)

lemma obj_set_entries: "(k', v') \<in> set (obj_set k v ob) \<Longrightarrow> (k', v') = (k, v) \<or> (k', v') \<in> set ob"
  by (auto simp: obj_set_def dest: overwrite_entries insert_index_entries split: option.splits if_splits)

lemma mapping_widths_entries:
  "mapping_widths weights w slopes s widths wds m = Inr m' \<Longrightarrow> (k, item) \<in> set m' \<Longrightarrow>
   (k, item) \<in> set m \<or>
   (\<exists>wd \<in> set wds. getSuffixMappingItem weights w slopes s widths wd = Inr item
       \<and> k = makeSuffix w wd s DEFAULT_SUBFAMILY)"
proof (induction wds arbitrary: m)
  case Nil
  then show ?case by simp
next
  case (Cons wd wds)
  from Cons.prems(1) obtain it where it: "getSuffixMappingItem weights w slopes s widths wd = Inr it"
    and rest: "mapping_widths weights w slopes s widths wds
                 (obj_set (makeSuffix w wd s DEFAULT_SUBFAMILY) it m) = Inr m'"
    by (auto simp: and_then_eq_Inr)
  from Cons.IH[OF rest Cons.prems(2)] show ?case
  proof
    assume "(k, item) \<in> set (obj_set (makeSuffix w wd s DEFAULT_SUBFAMILY) it m)"
    then have "(k, item) = (makeSuffix w wd s DEFAULT_SUBFAMILY, it) \<or> (k, item) \<in> set m"
      by (rule obj_set_entries)
    with it show ?thesis by auto
  next
    assume "\<exists>wd\<in>set wds. getSuffixMappingItem weights w slopes s widths wd = Inr item
       \<and> k = makeSuffix w wd s DEFAULT_SUBFAMILY"
    then show ?thesis by auto
  qed
qed

lemma mapping_slopes_entries:
  "mapping_slopes weights w slopes ss widths m = Inr m' \<Longrightarrow> (k, item) \<in> set m' \<Longrightarrow>
   (k, item) \<in> set m \<or>
   (\<exists>s \<in> set ss. \<exists>wd \<in> set (for_in widths).
       getSuffixMappingItem weights w slopes s widths wd = Inr item
       \<and> k = makeSuffix w wd s DEFAULT_SUBFAMILY)"
proof (induction ss arbitrary: m)
  case Nil
  then show ?case by simp
next
  case (Cons s ss)
  from Cons.prems(1) obtain m1 where
    m1: "mapping_widths weights w slopes s widths (for_in widths) m = Inr m1"
    and rest: "mapping_slopes weights w slopes ss widths m1 = Inr m'"
    by (auto simp: and_then_eq_Inr)
  from Cons.IH[OF rest Cons.prems(2)] show ?case
  proof
    assume "(k, item) \<in> set m1"
    from mapping_widths_entries[OF m1 this] show ?thesis by auto
  next
    assume "\<exists>s\<in>set ss. \<exists>wd\<in>set (for_in widths).
       getSuffixMappingItem weights w slopes s widths wd = Inr item
       \<and> k = makeSuffix w wd s DEFAULT_SUBFAMILY"
    then show ?thesis by auto
  qed
qed

lemma mapping_weights_entries:
  "mapping_weights weights ws slopes widths m = Inr m' \<Longrightarrow> (k, item) \<in> set m' \<Longrightarrow>
   (k, item) \<in> set m \<or>
   (\<exists>w \<in> set ws. \<exists>s \<in> set (for_in slopes). \<exists>wd \<in> set (for_in widths).
       getSuffixMappingItem weights w slopes s widths wd = Inr item
       \<and> k = makeSuffix w wd s DEFAULT_SUBFAMILY)"
proof (induction ws arbitrary: m)
  case Nil
  then show ?case by simp
next
  case (Cons w ws)
  from Cons.prems(1) obtain m1 where
    m1: "mapping_slopes weights w slopes (for_in slopes) widths m = Inr m1"
    and rest: "mapping_weights weights ws slopes widths m1 = Inr m'"
    by (auto simp: and_then_eq_Inr)
  from Cons.IH[OF rest Cons.prems(2)] show ?case
  proof
    assume "(k, item) \<in> set m1"
    from mapping_slopes_entries[OF m1 this] show ?thesis by auto
  next
    assume "\<exists>w\<in>set ws. \<exists>s\<in>set (for_in slopes). \<exists>wd\<in>set (for_in widths).
       getSuffixMappingItem weights w slopes s widths wd = Inr item
       \<and> k = makeSuffix w wd s DEFAULT_SUBFAMILY"
    then show ?thesis by auto
  qed
qed

lemma getSuffixMapping_entries:
  assumes "getSuffixMapping weights slopes widths = Inr m" "(k, item) \<in> set m"
  shows "\<exists>w \<in> set (for_in weights). \<exists>s \<in> set (for_in slopes). \<exists>wd \<in> set (for_in widths).
       getSuffixMappingItem weights w slopes s widths wd = Inr item
       \<and> k = makeSuffix w wd s DEFAULT_SUBFAMILY"
  using mapping_weights_entries[OF assms[unfolded getSuffixMapping_def]] by simp

text \<open>Success means that every item was built; a failure is the failure of an item.\<close>

lemma mapping_widths_all:
  "mapping_widths weights w slopes s widths wds m = Inr m' \<Longrightarrow> wd \<in> set wds \<Longrightarrow>
   \<exists>item. getSuffixMappingItem weights w slopes s widths wd = Inr item"
  by (induction wds arbitrary: m) (auto simp: and_then_eq_Inr)

lemma mapping_slopes_all:
  "mapping_slopes weights w slopes ss widths m = Inr m' \<Longrightarrow> s \<in> set ss \<Longrightarrow> wd \<in> set (for_in widths) \<Longrightarrow>
   \<exists>item. getSuffixMappingItem weights w slopes s widths wd = Inr item"
  by (induction ss arbitrary: m) (auto simp: and_then_eq_Inr dest: mapping_widths_all)

lemma mapping_weights_all:
  "mapping_weights weights ws slopes widths m = Inr m' \<Longrightarrow> w \<in> set ws \<Longrightarrow>
   s \<in> set (for_in slopes) \<Longrightarrow> wd \<in> set (for_in widths) \<Longrightarrow>
   \<exists>item. getSuffixMappingItem weights w slopes s widths wd = Inr item"
  by (induction ws arbitrary: m) (auto simp: and_then_eq_Inr dest: mapping_slopes_all)

lemma mapping_widths_error:
  "mapping_widths weights w slopes s widths wds m = Inl e \<Longrightarrow>
   \<exists>wd \<in> set wds. getSuffixMappingItem weights w slopes s widths wd = Inl e"
  by (induction wds arbitrary: m) (auto simp: and_then_eq_Inl)

lemma mapping_slopes_error:
  "mapping_slopes weights w slopes ss widths m = Inl e \<Longrightarrow>
   \<exists>s \<in> set ss. \<exists>wd \<in> set (for_in widths). getSuffixMappingItem weights w slopes s widths wd = Inl e"
  by (induction ss arbitrary: m) (auto simp: and_then_eq_Inl dest: mapping_widths_error)

lemma mapping_weights_error:
  "mapping_weights weights ws slopes widths m = Inl e \<Longrightarrow>
   \<exists>w \<in> set ws. \<exists>s \<in> set (for_in slopes). \<exists>wd \<in> set (for_in widths).
      getSuffixMappingItem weights w slopes s widths wd = Inl e"
  by (induction ws arbitrary: m) (auto simp: and_then_eq_Inl dest: mapping_slopes_error)

subsection \<open>Validation of the axis tables\<close>

lemma in_keys_map_of: "k \<in> fst ` set ob \<Longrightarrow> \<exists>v. map_of ob k = Some v"
  by (metis map_of_eq_None_iff not_Some_eq)

text \<open>
  Claim C4. Let the table \<open>weights\<close> have an entry \<open>w\<close> whose shape value fails the check
  of \<open>VlShapeWeight\<close> (it is no number, or a number outside 100 to 900). Then the mapping item
  of \<open>w\<close>, for any slope and width, is the error that names the key
  \<^verbatim>\<open>Shape weight of w\<close> and the stored value; and suffix-mapping resolution over these weights
  and any non-empty tables of slopes and widths (the resolver reads an entry of \<open>weights\<close>
  only inside its loops over both) fails, with an error that names an invalid field and the
  value stored in it. A value \<^verbatim>\<open>nValidate\<close> accepts is returned as it is.
\<close>

theorem invalid_shape_weight_is_fatal:
  assumes we: "map_of weights w = Some we" and bad: "\<not> passes VlShapeWeight (shape we)"
  shows "getSuffixMappingItem (Some weights) w slopes s widths wd
           = Inl (NotAValidNumber (''Shape weight of '' @ w) (shape we))
       \<and> (sl \<noteq> [] \<and> wds \<noteq> [] \<longrightarrow>
            (\<exists>e. getSuffixMapping (Some weights) (Some sl) (Some wds) = Inl e
                 \<and> names_invalid_field weights wds e))
       \<and> (\<forall>key v x. nValidate key v VlShapeWeight = Inr x \<longrightarrow> v = Num x \<and> 100 \<le> x \<and> x \<le> 900)"
proof -
  have item: "getSuffixMappingItem (Some weights) w slopes s widths wd
           = Inl (NotAValidNumber (''Shape weight of '' @ w) (shape we))" for slopes s widths wd
    using we bad by (rule item_shape_weight_rejected)
  have fails: "\<exists>e. getSuffixMapping (Some weights) (Some sl) (Some wds) = Inl e
                 \<and> names_invalid_field weights wds e" if ne: "sl \<noteq> []" "wds \<noteq> []"
  proof (cases "getSuffixMapping (Some weights) (Some sl) (Some wds)")
    case (Inr m)
    from we have "w \<in> set (for_in (Some weights))"
      by (auto simp: for_in_def dest: map_of_SomeD intro: rev_image_eqI)
    moreover from ne have "fst (hd sl) \<in> set (for_in (Some sl))" "fst (hd wds) \<in> set (for_in (Some wds))"
      by (simp_all add: for_in_def)
    ultimately obtain it where
      "getSuffixMappingItem (Some weights) w (Some sl) (fst (hd sl)) (Some wds) (fst (hd wds)) = Inr it"
      using mapping_weights_all[OF Inr[unfolded getSuffixMapping_def]] by blast
    with item show ?thesis by simp
  next
    case (Inl e)
    then obtain w' s' wd' where k: "w' \<in> set (for_in (Some weights))" "wd' \<in> set (for_in (Some wds))"
      and e: "getSuffixMappingItem (Some weights) w' (Some sl) s' (Some wds) wd' = Inl e"
      using mapping_weights_error[of "Some weights" "for_in (Some weights)" "Some sl" "Some wds" "[]" e]
      by (auto simp: getSuffixMapping_def)
    from k have "w' \<in> fst ` set weights" "wd' \<in> fst ` set wds" by (simp_all add: for_in_def)
    with e have "names_invalid_field weights wds e" by (rule item_Inl)
    with Inl show ?thesis by simp
  qed
  have same: "\<forall>key v x. nValidate key v VlShapeWeight = Inr x \<longrightarrow> v = Num x \<and> 100 \<le> x \<and> x \<le> 900"
    by (simp add: nValidate_Inr) (simp add: VlShapeWeight_def)
  from item fails same show ?thesis by blast
qed

theorem invalid_shape_weight_is_fatal_witness:
  "map_of overweight ''heavy'' = Some \<lparr>shape = Num 950, css = Num 900, menu = Num 900\<rparr>
   \<and> \<not> passes VlShapeWeight (Num 950)
   \<and> getSuffixMappingItem (Some overweight) ''heavy'' (Some scenario_slopes) ''upright''
        (Some scenario_widths) ''normal''
      = Inl (NotAValidNumber ''Shape weight of heavy'' (Num 950))
   \<and> scenario_slopes \<noteq> [] \<and> scenario_widths \<noteq> []
   \<and> getSuffixMapping (Some overweight) (Some scenario_slopes) (Some scenario_widths)
      = Inl (NotAValidNumber ''Shape weight of heavy'' (Num 950))
   \<and> names_invalid_field overweight scenario_widths (NotAValidNumber ''Shape weight of heavy'' (Num 950))"
proof -
  have we: "map_of overweight ''heavy'' = Some \<lparr>shape = Num 950, css = Num 900, menu = Num 900\<rparr>"
    by (simp add: overweight_def)
  have bad: "\<not> passes VlShapeWeight (shape \<lparr>shape = Num 950, css = Num 900, menu = Num 900\<rparr>)"
    by (simp add: passes_def VlShapeWeight_def)
  have ne: "scenario_slopes \<noteq> [] \<and> scenario_widths \<noteq> []"
    by (simp add: scenario_slopes_def scenario_widths_def)
  note t = invalid_shape_weight_is_fatal[OF we bad, where sl = scenario_slopes and wds = scenario_widths
      and slopes = "Some scenario_slopes" and s = "''upright''" and widths = "Some scenario_widths"
      and wd = "''normal''"]
  have m: "getSuffixMapping (Some overweight) (Some scenario_slopes) (Some scenario_widths)
      = Inl (NotAValidNumber ''Shape weight of heavy'' (Num 950))"
    using t by (simp add: getSuffixMapping_def for_in_def overweight_def scenario_slopes_def
        scenario_widths_def)
  from t ne m we bad show ?thesis by auto
qed

text \<open>
  Claim C10. In every entry of a suffix mapping, \<open>cssStyle\<close> and \<open>menuSlope\<close> are the same
  value: the value the table of slopes gives the entry's slope key when that value is truthy,
  and the key itself otherwise; \<open>cssStretch\<close> is the \<open>css\<close> field of the entry's width when
  that is truthy and the width key otherwise (so also when the field is absent). None of the
  three goes through \<^verbatim>\<open>nValidate\<close>: an item is built exactly when the three numeric fields
  of its weight and the two of its width pass their validators, whatever the slope's value and
  the width's \<open>css\<close> field are.
\<close>

theorem slope_and_stretch_fields_unvalidated:
  "(getSuffixMapping weights slopes widths = Inr mapping \<and> (suffix, item) \<in> set mapping \<longrightarrow>
      cssStyle item = menuSlope item
    \<and> (\<exists>sl v. slopes = Some sl \<and> map_of sl (slope item) = Some v
          \<and> cssStyle item = (if truthy v then v else Str (slope item)))
    \<and> (\<exists>wds wde. widths = Some wds \<and> map_of wds (width item) = Some wde
          \<and> cssStretch item = (if truthy (css wde) then css wde else Str (width item))))
   \<and> (map_of ws w = Some we \<and> map_of wds' wd = Some wde' \<longrightarrow>
      ((\<exists>it. getSuffixMappingItem (Some ws) w (Some sl') s (Some wds') wd = Inr it) \<longleftrightarrow>
         passes VlShapeWeight (shape we) \<and> passes VlCssWeight (css we) \<and> passes VlMenuWeight (menu we)
       \<and> passes VlShapeWidth (shape wde') \<and> passes VlMenuWidth (menu wde')))"
proof (intro conjI impI)
  assume a: "getSuffixMapping weights slopes widths = Inr mapping \<and> (suffix, item) \<in> set mapping"
  then obtain w s wd where s: "s \<in> set (for_in slopes)"
    and it: "getSuffixMappingItem weights w slopes s widths wd = Inr item"
    using getSuffixMapping_entries[of weights slopes widths mapping suffix item] by blast
  from item_Inr[OF it] obtain wds wde sl where
    f: "widths = Some wds" "map_of wds wd = Some wde" "slopes = Some sl"
      "weight item = w" "width item = wd" "slope item = s"
      "cssStretch item = or_js (css wde) (Str wd)"
      "cssStyle item = or_js (case map_of sl s of None \<Rightarrow> Undefined | Some v \<Rightarrow> v) (Str s)"
      "menuSlope item = cssStyle item"
    by blast
  from s f(3) obtain v where v: "map_of sl s = Some v"
    using in_keys_map_of[of s sl] by (auto simp: for_in_def)
  show "cssStyle item = menuSlope item" using f(9) by simp
  show "\<exists>sl v. slopes = Some sl \<and> map_of sl (slope item) = Some v
          \<and> cssStyle item = (if truthy v then v else Str (slope item))"
    using f(3,6,8) v by (simp add: or_js_def)
  show "\<exists>wds wde. widths = Some wds \<and> map_of wds (width item) = Some wde
          \<and> cssStretch item = (if truthy (css wde) then css wde else Str (width item))"
    using f(1,2,5,7) by (simp add: or_js_def)
next
  assume b: "map_of ws w = Some we \<and> map_of wds' wd = Some wde'"
  show "(\<exists>it. getSuffixMappingItem (Some ws) w (Some sl') s (Some wds') wd = Inr it) \<longleftrightarrow>
         passes VlShapeWeight (shape we) \<and> passes VlCssWeight (css we) \<and> passes VlMenuWeight (menu we)
       \<and> passes VlShapeWidth (shape wde') \<and> passes VlMenuWidth (menu wde')"
  proof
    assume "\<exists>it. getSuffixMappingItem (Some ws) w (Some sl') s (Some wds') wd = Inr it"
    then obtain it where "getSuffixMappingItem (Some ws) w (Some sl') s (Some wds') wd = Inr it" ..
    from item_Inr[OF this] b show "passes VlShapeWeight (shape we) \<and> passes VlCssWeight (css we)
       \<and> passes VlMenuWeight (menu we) \<and> passes VlShapeWidth (shape wde') \<and> passes VlMenuWidth (menu wde')"
      by (auto simp: passes_def)
  next
    assume "passes VlShapeWeight (shape we) \<and> passes VlCssWeight (css we) \<and> passes VlMenuWeight (menu we)
       \<and> passes VlShapeWidth (shape wde') \<and> passes VlMenuWidth (menu wde')"
    with b show "\<exists>it. getSuffixMappingItem (Some ws) w (Some sl') s (Some wds') wd = Inr it"
      using item_passes_Inr[of ws w we wds' wd wde' sl' s] by blast
  qed
qed

theorem slope_and_stretch_fields_unvalidated_witness:
  "getSuffixMapping (Some scenario_weights) (Some [(''upright'', Str ''normal''), (''italic'', Num 0)])
      (Some [(''normal'', \<lparr>shape = Num 500, css = Undefined, menu = Num 5\<rparr>)])
     = Inr [(''regular'',
             \<lparr>weight = ''regular'', shapeWeight = 400, cssWeight = 400, menuWeight = 400,
              width = ''normal'', shapeWidth = 500, cssStretch = Str ''normal'', menuWidth = 5,
              slope = ''upright'', cssStyle = Str ''normal'', menuSlope = Str ''normal''\<rparr>),
            (''italic'',
             \<lparr>weight = ''regular'', shapeWeight = 400, cssWeight = 400, menuWeight = 400,
              width = ''normal'', shapeWidth = 500, cssStretch = Str ''normal'', menuWidth = 5,
              slope = ''italic'', cssStyle = Str ''italic'', menuSlope = Str ''italic''\<rparr>)]
   \<and> map_of scenario_weights ''regular'' = Some \<lparr>shape = Num 400, css = Num 400, menu = Num 400\<rparr>
   \<and> map_of [(''normal'', \<lparr>shape = Num 500, css = Undefined, menu = Num 5\<rparr>)] ''normal''
       = Some \<lparr>shape = Num 500, css = Undefined, menu = Num 5\<rparr>
   \<and> (\<exists>it. getSuffixMappingItem (Some scenario_weights) ''regular''
               (Some [(''upright'', Str ''normal''), (''italic'', Num 0)]) ''italic''
               (Some [(''normal'', \<lparr>shape = Num 500, css = Undefined, menu = Num 5\<rparr>)]) ''normal'' = Inr it)
   \<and> passes VlShapeWeight (Num 400) \<and> passes VlCssWeight (Num 400) \<and> passes VlMenuWeight (Num 400)
   \<and> passes VlShapeWidth (Num 500) \<and> passes VlMenuWidth (Num 5)"
  using slope_and_stretch_fields_unvalidated[where ws = scenario_weights and w = "''regular''"
      and we = "\<lparr>shape = Num 400, css = Num 400, menu = Num 400\<rparr>"
      and wds' = "[(''normal'', \<lparr>shape = Num 500, css = Undefined, menu = Num 5\<rparr>)]" and wd = "''normal''"
      and wde' = "\<lparr>shape = Num 500, css = Undefined, menu = Num 5\<rparr>"
      and sl' = "[(''upright'', Str ''normal''), (''italic'', Num 0)]" and s = "''italic''"]
  by (simp add: getSuffixMapping_def for_in_def scenario_weights_def getSuffixMappingItem_def
      entry_of_def value_of_def nValidate_def VlShapeWeight_def VlCssWeight_def VlMenuWeight_def
      VlShapeWidth_def VlMenuWidth_def passes_def or_js_def obj_set_def array_index_def
      makeSuffix_def WIDTH_NORMAL_def WEIGHT_NORMAL_def SLOPE_NORMAL_def DEFAULT_SUBFAMILY_def)

subsection \<open>Plan expansion\<close>

lemma makeFileName_inject [simp]: "makeFileName p s = makeFileName p s' \<longleftrightarrow> s = s'"
  by (simp add: makeFileName_def)

lemma makeFileName_suffix: "drop (Suc (length p)) (makeFileName p s) = s"
  by (simp add: makeFileName_def)

lemma plan_targets_fst:
  "fst (plan_targets p ws sl sm acc)
   = fst acc @ map (\<lambda>e. makeFileName p (fst e)) (filter (\<lambda>e. \<not> skips ws sl (snd e)) sm)"
  by (induction p ws sl sm acc rule: plan_targets.induct) simp_all

lemma plan_targets_snd:
  "map_of (snd (plan_targets p ws sl sm acc)) t
   = (if t \<in> (\<lambda>e. makeFileName p (fst e)) ` set (filter (\<lambda>e. \<not> skips ws sl (snd e)) sm)
      then Some (p, drop (Suc (length p)) t) else map_of (snd acc) t)"
proof (induction p ws sl sm acc rule: plan_targets.induct)
  case (1 p ws sl acc)
  then show ?case by simp
next
  case (2 p ws sl suffix sfi rest acc)
  show ?case
  proof (cases "skips ws sl sfi")
    case True
    with 2 show ?thesis by simp
  next
    case False
    with 2 show ?thesis
      by (auto simp: map_of_obj_set makeFileName_suffix)
  qed
qed

lemma not_in_keys_map_of: "k \<notin> fst ` set ob \<Longrightarrow> map_of ob k = None"
  by (simp add: map_of_eq_None_iff)

lemma build_plans_step_sound:
  assumes inv: "index_sound acc" and fresh: "prefix \<notin> fst ` set (returnBuildPlans acc)"
  shows "index_sound
           \<lparr>fileNameToBpMap = snd (plan_targets prefix ws sl sm ([], fileNameToBpMap acc)),
            returnBuildPlans =
              obj_set prefix (bp\<lparr>targets := fst (plan_targets prefix ws sl sm ([], fileNameToBpMap acc))\<rparr>)
                (returnBuildPlans acc)\<rparr>"
proof -
  define N where "N = (\<lambda>e. makeFileName prefix (fst e)) ` set (filter (\<lambda>e. \<not> skips ws sl (snd e)) sm)"
  define ix' where "ix' = snd (plan_targets prefix ws sl sm ([], fileNameToBpMap acc))"
  define ts where "ts = fst (plan_targets prefix ws sl sm ([], fileNameToBpMap acc))"
  have ts: "set ts = N" by (simp add: ts_def N_def plan_targets_fst)
  have ix: "map_of ix' t = (if t \<in> N then Some (prefix, drop (Suc (length prefix)) t)
                           else map_of (fileNameToBpMap acc) t)" for t
    by (simp add: ix'_def N_def plan_targets_snd)
  have none: "map_of (returnBuildPlans acc) prefix = None"
    using fresh by (rule not_in_keys_map_of)
  have name: "\<exists>k. t = makeFileName prefix k \<and> drop (Suc (length prefix)) t = k" if "t \<in> N" for t
    using that by (auto simp: N_def makeFileName_suffix)
  from inv have old1: "\<And>t p s. map_of (fileNameToBpMap acc) t = Some (p, s) \<Longrightarrow>
        t = makeFileName p s \<and> (\<exists>b. map_of (returnBuildPlans acc) p = Some b \<and> t \<in> set (targets b))"
    and old2: "\<And>p b t. map_of (returnBuildPlans acc) p = Some b \<Longrightarrow> t \<in> set (targets b) \<Longrightarrow>
        (\<exists>q. map_of (fileNameToBpMap acc) t = Some q) \<and> (\<exists>s. t = makeFileName p s)"
    unfolding index_sound_def by blast+
  have new1: "t = makeFileName p s \<and>
      (\<exists>b. map_of (obj_set prefix (bp\<lparr>targets := ts\<rparr>) (returnBuildPlans acc)) p = Some b \<and> t \<in> set (targets b))"
    if h: "map_of ix' t = Some (p, s)" for t p s
  proof (cases "t \<in> N")
    case True
    with h ix[of t] have ps: "p = prefix" "s = drop (Suc (length prefix)) t" by auto
    with name[OF True] ts True show ?thesis by (auto simp: map_of_obj_set)
  next
    case False
    with h ix[of t] have "map_of (fileNameToBpMap acc) t = Some (p, s)" by simp
    from old1[OF this] obtain b where b: "t = makeFileName p s" "map_of (returnBuildPlans acc) p = Some b"
      "t \<in> set (targets b)" by blast
    with none have "p \<noteq> prefix" by auto
    with b show ?thesis by (auto simp: map_of_obj_set)
  qed
  have new2: "(\<exists>q. map_of ix' t = Some q) \<and> (\<exists>s. t = makeFileName p s)"
    if h: "map_of (obj_set prefix (bp\<lparr>targets := ts\<rparr>) (returnBuildPlans acc)) p = Some b" "t \<in> set (targets b)"
    for p b t
  proof (cases "p = prefix")
    case True
    with h have "t \<in> N" using ts by (auto simp: map_of_obj_set)
    with name[of t] ix[of t] True show ?thesis by auto
  next
    case False
    with h have "map_of (returnBuildPlans acc) p = Some b" by (simp add: map_of_obj_set)
    from old2[OF this h(2)] ix[of t] show ?thesis by auto
  qed
  show ?thesis
    unfolding index_sound_def ix'_def[symmetric] ts_def[symmetric]
    using new1 new2 by simp blast
qed

lemma build_plans_loop_sound:
  "build_plans_loop rp plans acc = Inr r \<Longrightarrow> index_sound acc \<Longrightarrow> distinct (map fst plans) \<Longrightarrow>
   fst ` set plans \<inter> fst ` set (returnBuildPlans acc) = {} \<Longrightarrow> index_sound r"
proof (induction plans arbitrary: acc)
  case Nil
  then show ?case by simp
next
  case (Cons pr plans)
  obtain prefix raw where pr: "pr = (prefix, raw)" by (cases pr)
  from Cons.prems(1) pr obtain bp sm where
    rest: "build_plans_loop rp plans
         \<lparr>fileNameToBpMap = snd (plan_targets prefix (bp_weights bp) (bp_slopes bp) sm ([], fileNameToBpMap acc)),
          returnBuildPlans =
            obj_set prefix
              (bp\<lparr>targets := fst (plan_targets prefix (bp_weights bp) (bp_slopes bp) sm ([], fileNameToBpMap acc))\<rparr>)
              (returnBuildPlans acc)\<rparr> = Inr r"
    by (auto simp: and_then_eq_Inr Let_def)
  from Cons.prems(4) pr have fresh: "prefix \<notin> fst ` set (returnBuildPlans acc)" by auto
  have s: "index_sound
         \<lparr>fileNameToBpMap = snd (plan_targets prefix (bp_weights bp) (bp_slopes bp) sm ([], fileNameToBpMap acc)),
          returnBuildPlans =
            obj_set prefix
              (bp\<lparr>targets := fst (plan_targets prefix (bp_weights bp) (bp_slopes bp) sm ([], fileNameToBpMap acc))\<rparr>)
              (returnBuildPlans acc)\<rparr>"
    using Cons.prems(2) fresh by (rule build_plans_step_sound)
  from Cons.prems(3,4) pr have d: "distinct (map fst plans)"
    and disj: "fst ` set plans \<inter> insert prefix (fst ` set (returnBuildPlans acc)) = {}"
    by auto
  show ?case
    by (rule Cons.IH[OF rest s d]) (use disj in \<open>simp add: keys_obj_set\<close>)
qed

lemma index_sound_BuildPlans:
  assumes "BuildPlans rp = Inr r" "distinct (for_in (buildPlans rp))"
  shows "index_sound r"
proof -
  have "index_sound \<lparr>fileNameToBpMap = [], returnBuildPlans = []\<rparr>"
    by (simp add: index_sound_def)
  with assms show ?thesis
    unfolding BuildPlans_def
    by (cases "buildPlans rp") (auto simp: for_in_def intro: build_plans_loop_sound)
qed

lemma build_plans_loop_keeps:
  "build_plans_loop rp plans acc = Inr r \<Longrightarrow> p \<notin> fst ` set plans \<Longrightarrow>
   map_of (returnBuildPlans r) p = map_of (returnBuildPlans acc) p"
proof (induction plans arbitrary: acc)
  case Nil
  then show ?case by simp
next
  case (Cons pr plans)
  obtain prefix raw where pr: "pr = (prefix, raw)" by (cases pr)
  from Cons.prems(1) pr obtain ix b where
    rest: "build_plans_loop rp plans
             \<lparr>fileNameToBpMap = ix, returnBuildPlans = obj_set prefix b (returnBuildPlans acc)\<rparr> = Inr r"
    by (auto simp: and_then_eq_Inr Let_def)
  from Cons.prems(2) pr have "p \<noteq> prefix" "p \<notin> fst ` set plans" by auto
  with Cons.IH[OF rest] show ?case by (simp add: map_of_obj_set)
qed

lemma build_plans_loop_plan:
  "build_plans_loop rp plans acc = Inr r \<Longrightarrow> distinct (map fst plans) \<Longrightarrow> (prefix, raw) \<in> set plans \<Longrightarrow>
   \<exists>bp sm. validateAndShimBuildPlans prefix raw (rp_weights rp) (rp_slopes rp) (rp_widths rp) = Inr bp
     \<and> getSuffixMapping (bp_weights bp) (bp_slopes bp) (bp_widths bp) = Inr sm
     \<and> map_of (returnBuildPlans r) prefix
         = Some (bp\<lparr>targets := map (\<lambda>e. makeFileName prefix (fst e))
                                  (filter (\<lambda>e. \<not> skips (bp_weights bp) (bp_slopes bp) (snd e)) sm)\<rparr>)"
proof (induction plans arbitrary: acc)
  case Nil
  then show ?case by simp
next
  case (Cons pr plans)
  obtain prefix' raw' where pr: "pr = (prefix', raw')" by (cases pr)
  from Cons.prems(1) pr obtain bp sm where
    v: "validateAndShimBuildPlans prefix' raw' (rp_weights rp) (rp_slopes rp) (rp_widths rp) = Inr bp"
    and m: "getSuffixMapping (bp_weights bp) (bp_slopes bp) (bp_widths bp) = Inr sm"
    and rest: "build_plans_loop rp plans
         \<lparr>fileNameToBpMap = snd (plan_targets prefix' (bp_weights bp) (bp_slopes bp) sm ([], fileNameToBpMap acc)),
          returnBuildPlans =
            obj_set prefix'
              (bp\<lparr>targets := fst (plan_targets prefix' (bp_weights bp) (bp_slopes bp) sm ([], fileNameToBpMap acc))\<rparr>)
              (returnBuildPlans acc)\<rparr> = Inr r"
    by (auto simp: and_then_eq_Inr Let_def)
  show ?case
  proof (cases "(prefix, raw) = (prefix', raw')")
    case True
    from Cons.prems(2) pr have "prefix' \<notin> fst ` set plans" by simp
    from build_plans_loop_keeps[OF rest this] True v m show ?thesis
      by (auto simp: map_of_obj_set plan_targets_fst)
  next
    case False
    with Cons.prems(3) pr have "(prefix, raw) \<in> set plans" by auto
    moreover from Cons.prems(2) have "distinct (map fst plans)" by simp
    ultimately show ?thesis using Cons.IH[OF rest] by blast
  qed
qed

lemma build_plans_loop_append:
  "build_plans_loop rp (xs @ ys) acc = Inr r
   \<longleftrightarrow> (\<exists>a. build_plans_loop rp xs acc = Inr a \<and> build_plans_loop rp ys a = Inr r)"
proof (induction xs arbitrary: acc)
  case Nil
  then show ?case by simp
next
  case (Cons pr xs)
  obtain prefix raw where pr: "pr = (prefix, raw)" by (cases pr)
  show ?case unfolding pr by (auto simp: and_then_eq_Inr Let_def Cons.IH)
qed

lemma build_plans_loop_index_keeps:
  "build_plans_loop rp plans acc = Inr r \<Longrightarrow> distinct (map fst plans) \<Longrightarrow>
   (\<forall>q bq. q \<in> fst ` set plans \<and> map_of (returnBuildPlans r) q = Some bq \<longrightarrow> t \<notin> set (targets bq)) \<Longrightarrow>
   map_of (fileNameToBpMap r) t = map_of (fileNameToBpMap acc) t"
proof (induction plans arbitrary: acc)
  case Nil
  then show ?case by simp
next
  case (Cons pr plans)
  obtain prefix raw where pr: "pr = (prefix, raw)" by (cases pr)
  from Cons.prems(1) pr obtain bp sm where
    rest: "build_plans_loop rp plans
         \<lparr>fileNameToBpMap = snd (plan_targets prefix (bp_weights bp) (bp_slopes bp) sm ([], fileNameToBpMap acc)),
          returnBuildPlans =
            obj_set prefix
              (bp\<lparr>targets := fst (plan_targets prefix (bp_weights bp) (bp_slopes bp) sm ([], fileNameToBpMap acc))\<rparr>)
              (returnBuildPlans acc)\<rparr> = Inr r"
    by (auto simp: and_then_eq_Inr Let_def)
  from Cons.prems(2) pr have fresh: "prefix \<notin> fst ` set plans" and d: "distinct (map fst plans)"
    by simp_all
  from build_plans_loop_keeps[OF rest fresh]
  have here: "map_of (returnBuildPlans r) prefix
     = Some (bp\<lparr>targets := fst (plan_targets prefix (bp_weights bp) (bp_slopes bp) sm ([], fileNameToBpMap acc))\<rparr>)"
    by (simp add: map_of_obj_set)
  from Cons.prems(3)[rule_format, of prefix] pr here
  have "t \<notin> set (fst (plan_targets prefix (bp_weights bp) (bp_slopes bp) sm ([], fileNameToBpMap acc)))"
    by simp
  then have "t \<notin> (\<lambda>e. makeFileName prefix (fst e)) `
                  set (filter (\<lambda>e. \<not> skips (bp_weights bp) (bp_slopes bp) (snd e)) sm)"
    by (simp add: plan_targets_fst)
  then have step: "map_of (snd (plan_targets prefix (bp_weights bp) (bp_slopes bp) sm ([], fileNameToBpMap acc))) t
      = map_of (fileNameToBpMap acc) t"
    by (simp add: plan_targets_snd)
  from Cons.prems(3) pr
  have later: "\<forall>q bq. q \<in> fst ` set plans \<and> map_of (returnBuildPlans r) q = Some bq \<longrightarrow> t \<notin> set (targets bq)"
    by auto
  from Cons.IH[OF rest d later] step show ?case by simp
qed

lemma build_plans_loop_last:
  assumes run: "build_plans_loop rp (before @ (p, raw) # after) acc = Inr r"
    and keys: "distinct (map fst (before @ (p, raw) # after))"
    and plan: "map_of (returnBuildPlans r) p = Some bp" and target: "t \<in> set (targets bp)"
    and later: "\<forall>q bq. q \<in> fst ` set after \<and> map_of (returnBuildPlans r) q = Some bq \<longrightarrow> t \<notin> set (targets bq)"
  shows "map_of (fileNameToBpMap r) t = Some (p, drop (Suc (length p)) t)"
proof -
  from run obtain a where "build_plans_loop rp ((p, raw) # after) a = Inr r"
    unfolding build_plans_loop_append by blast
  then obtain b sm where
    rest: "build_plans_loop rp after
         \<lparr>fileNameToBpMap = snd (plan_targets p (bp_weights b) (bp_slopes b) sm ([], fileNameToBpMap a)),
          returnBuildPlans =
            obj_set p
              (b\<lparr>targets := fst (plan_targets p (bp_weights b) (bp_slopes b) sm ([], fileNameToBpMap a))\<rparr>)
              (returnBuildPlans a)\<rparr> = Inr r"
    by (auto simp: and_then_eq_Inr Let_def)
  from keys have fresh: "p \<notin> fst ` set after" and d: "distinct (map fst after)" by auto
  from build_plans_loop_keeps[OF rest fresh] plan
  have "bp = b\<lparr>targets := fst (plan_targets p (bp_weights b) (bp_slopes b) sm ([], fileNameToBpMap a))\<rparr>"
    by (simp add: map_of_obj_set)
  with target have "t \<in> (\<lambda>e. makeFileName p (fst e)) `
                  set (filter (\<lambda>e. \<not> skips (bp_weights b) (bp_slopes b) (snd e)) sm)"
    by (simp add: plan_targets_fst)
  then have step: "map_of (snd (plan_targets p (bp_weights b) (bp_slopes b) sm ([], fileNameToBpMap a))) t
      = Some (p, drop (Suc (length p)) t)"
    by (simp add: plan_targets_snd)
  from build_plans_loop_index_keeps[OF rest d later] step show ?thesis by simp
qed

lemma single_normal_mapping:
  assumes "getSuffixMapping (Some [(''regular'', we)]) (Some [(''upright'', sv)]) (Some [(''normal'', wde)])
           = Inr sm"
  shows "\<exists>item. sm = [(''regular'', item)] \<and> weight item = ''regular'' \<and> slope item = ''upright''"
proof -
  from assms obtain item where
    it: "getSuffixMappingItem (Some [(''regular'', we)]) ''regular'' (Some [(''upright'', sv)]) ''upright''
            (Some [(''normal'', wde)]) ''normal'' = Inr item"
    and sm: "sm = obj_set (makeSuffix ''regular'' ''normal'' ''upright'' DEFAULT_SUBFAMILY) item []"
    by (auto simp: getSuffixMapping_def for_in_def and_then_eq_Inr)
  have "makeSuffix ''regular'' ''normal'' ''upright'' DEFAULT_SUBFAMILY = ''regular''"
    by (simp add: makeSuffix_def WIDTH_NORMAL_def WEIGHT_NORMAL_def SLOPE_NORMAL_def DEFAULT_SUBFAMILY_def)
  with sm have "sm = [(''regular'', item)]"
    by (simp add: obj_set_def array_index_def)
  with item_Inr[OF it] show ?thesis by auto
qed

lemmas plans_eval = BuildPlans_def validateAndShimBuildPlans_def or_table_def
  getSuffixMapping_def for_in_def getSuffixMappingItem_def entry_of_def value_of_def nValidate_def
  VlShapeWeight_def VlCssWeight_def VlMenuWeight_def VlShapeWidth_def VlMenuWidth_def or_js_def
  obj_set_def array_index_def makeSuffix_def WIDTH_NORMAL_def WEIGHT_NORMAL_def SLOPE_NORMAL_def
  DEFAULT_SUBFAMILY_def makeFileName_def skips_def scenario_weights_def scenario_slopes_def
  scenario_widths_def plan_with_def config_with_def

text \<open>
  Claim C2. The suffix of the three normal keys is the empty concatenation replaced by the
  default subfamily token \<^verbatim>\<open>regular\<close>. So a plan whose resolved weights are the one key
  \<^verbatim>\<open>regular\<close>, whose resolved slopes are the one key \<^verbatim>\<open>upright\<close> (with a truthy value, as
  a slope name is) and whose resolved widths are the one key \<^verbatim>\<open>normal\<close> has, in every
  successful expansion of its configuration, exactly one target: its prefix followed by
  \<^verbatim>\<open>-regular\<close>, which is \<^verbatim>\<open>sans-regular\<close> for the plan \<^verbatim>\<open>sans\<close>. The expansion does succeed
  when this is the only plan, it has a family name and the five numbers of its axes are
  valid.
\<close>

theorem normal_axes_expand_to_regular:
  assumes plans: "buildPlans rp = Some plans" "distinct (map fst plans)" "(prefix, raw) \<in> set plans"
    and weights: "or_table (bp_weights raw) (rp_weights rp) = Some [(''regular'', we)]"
    and slopes: "or_table (bp_slopes raw) (or_table (bp_slants raw) (rp_slopes rp)) = Some [(''upright'', sv)]"
      "truthy sv"
    and widths: "or_table (bp_widths raw) (rp_widths rp) = Some [(''normal'', wde)]"
  shows "makeSuffix WEIGHT_NORMAL WIDTH_NORMAL SLOPE_NORMAL DEFAULT_SUBFAMILY = ''regular''
       \<and> (BuildPlans rp = Inr r \<longrightarrow>
            (\<exists>bp. map_of (returnBuildPlans r) prefix = Some bp \<and> targets bp = [prefix @ ''-regular'']))
       \<and> (plans = [(prefix, raw)] \<and> truthy (family raw)
            \<and> passes VlShapeWeight (shape we) \<and> passes VlCssWeight (css we) \<and> passes VlMenuWeight (menu we)
            \<and> passes VlShapeWidth (shape wde) \<and> passes VlMenuWidth (menu wde) \<longrightarrow>
            (\<exists>r'. BuildPlans rp = Inr r'))"
proof (intro conjI impI)
  show "makeSuffix WEIGHT_NORMAL WIDTH_NORMAL SLOPE_NORMAL DEFAULT_SUBFAMILY = ''regular''"
    by (simp add: makeSuffix_def DEFAULT_SUBFAMILY_def)
next
  assume ok: "BuildPlans rp = Inr r"
  from ok plans(1) have "build_plans_loop rp plans \<lparr>fileNameToBpMap = [], returnBuildPlans = []\<rparr> = Inr r"
    by (simp add: BuildPlans_def)
  from build_plans_loop_plan[OF this plans(2,3)] obtain bp sm where
    v: "validateAndShimBuildPlans prefix raw (rp_weights rp) (rp_slopes rp) (rp_widths rp) = Inr bp"
    and m: "getSuffixMapping (bp_weights bp) (bp_slopes bp) (bp_widths bp) = Inr sm"
    and p: "map_of (returnBuildPlans r) prefix
         = Some (bp\<lparr>targets := map (\<lambda>e. makeFileName prefix (fst e))
                                  (filter (\<lambda>e. \<not> skips (bp_weights bp) (bp_slopes bp) (snd e)) sm)\<rparr>)"
    by blast
  from v weights slopes(1) widths have axes: "bp_weights bp = Some [(''regular'', we)]"
    "bp_slopes bp = Some [(''upright'', sv)]" "bp_widths bp = Some [(''normal'', wde)]"
    by (auto simp: validateAndShimBuildPlans_def split: if_splits)
  from m axes obtain item where sm: "sm = [(''regular'', item)]"
    and item: "weight item = ''regular''" "slope item = ''upright''"
    using single_normal_mapping[of we sv wde sm] by auto
  from item slopes(2) axes have "\<not> skips (bp_weights bp) (bp_slopes bp) item"
    by (simp add: skips_def)
  with p sm have "map_of (returnBuildPlans r) prefix = Some (bp\<lparr>targets := [prefix @ ''-regular'']\<rparr>)"
    by (simp add: makeFileName_def)
  then show "\<exists>bp. map_of (returnBuildPlans r) prefix = Some bp \<and> targets bp = [prefix @ ''-regular'']"
    by simp
next
  assume valid: "plans = [(prefix, raw)] \<and> truthy (family raw)
            \<and> passes VlShapeWeight (shape we) \<and> passes VlCssWeight (css we) \<and> passes VlMenuWeight (menu we)
            \<and> passes VlShapeWidth (shape wde) \<and> passes VlMenuWidth (menu wde)"
  then obtain item where
    "getSuffixMappingItem (Some [(''regular'', we)]) ''regular'' (Some [(''upright'', sv)]) ''upright''
       (Some [(''normal'', wde)]) ''normal'' = Inr item"
    using item_passes_Inr[of "[(''regular'', we)]" "''regular''" we "[(''normal'', wde)]" "''normal''" wde
        "[(''upright'', sv)]" "''upright''"]
    by auto
  then have "\<exists>sm. getSuffixMapping (Some [(''regular'', we)]) (Some [(''upright'', sv)])
                    (Some [(''normal'', wde)]) = Inr sm"
    by (simp add: getSuffixMapping_def for_in_def)
  with valid plans(1) weights slopes(1) widths show "\<exists>r'. BuildPlans rp = Inr r'"
    by (auto simp: BuildPlans_def validateAndShimBuildPlans_def)
qed

theorem normal_axes_expand_to_regular_witness:
  "buildPlans scenario = Some [(''sans'',
         \<lparr>family = Str ''Sans'', bp_weights = Some scenario_weights, bp_slopes = Some scenario_slopes,
          bp_slants = None, bp_widths = Some scenario_widths, targets = []\<rparr>)]
   \<and> truthy (Str ''normal'') \<and> truthy (Str ''Sans'')
   \<and> passes VlShapeWeight (Num 400) \<and> passes VlCssWeight (Num 400) \<and> passes VlMenuWeight (Num 400)
   \<and> passes VlShapeWidth (Num 500) \<and> passes VlMenuWidth (Num 5)
   \<and> makeSuffix WEIGHT_NORMAL WIDTH_NORMAL SLOPE_NORMAL DEFAULT_SUBFAMILY = ''regular''
   \<and> BuildPlans scenario
     = Inr \<lparr>fileNameToBpMap = [(''sans-regular'', (''sans'', ''regular''))],
            returnBuildPlans =
              [(''sans'',
                \<lparr>family = Str ''Sans'', bp_weights = Some scenario_weights,
                 bp_slopes = Some scenario_slopes, bp_slants = None,
                 bp_widths = Some scenario_widths, targets = [''sans-regular'']\<rparr>)]\<rparr>
   \<and> (\<exists>bp. map_of
              [(''sans'',
                \<lparr>family = Str ''Sans'', bp_weights = Some scenario_weights,
                 bp_slopes = Some scenario_slopes, bp_slants = None,
                 bp_widths = Some scenario_widths, targets = [''sans-regular'']\<rparr>)] ''sans'' = Some bp
          \<and> targets bp = [''sans'' @ ''-regular''])"
proof -
  have ok: "BuildPlans scenario
     = Inr \<lparr>fileNameToBpMap = [(''sans-regular'', (''sans'', ''regular''))],
            returnBuildPlans =
              [(''sans'',
                \<lparr>family = Str ''Sans'', bp_weights = Some scenario_weights,
                 bp_slopes = Some scenario_slopes, bp_slants = None,
                 bp_widths = Some scenario_widths, targets = [''sans-regular'']\<rparr>)]\<rparr>"
    by (simp add: plans_eval scenario_def)
  have plans: "buildPlans scenario = Some [(''sans'',
         \<lparr>family = Str ''Sans'', bp_weights = Some scenario_weights, bp_slopes = Some scenario_slopes,
          bp_slants = None, bp_widths = Some scenario_widths, targets = []\<rparr>)]"
    by (simp add: scenario_def)
  have valid: "passes VlShapeWeight (Num 400) \<and> passes VlCssWeight (Num 400) \<and> passes VlMenuWeight (Num 400)
   \<and> passes VlShapeWidth (Num 500) \<and> passes VlMenuWidth (Num 5)"
    by (simp add: passes_def VlShapeWeight_def VlCssWeight_def VlMenuWeight_def VlShapeWidth_def
        VlMenuWidth_def)
  from normal_axes_expand_to_regular[OF plans, where prefix = "''sans''"
      and we = "\<lparr>shape = Num 400, css = Num 400, menu = Num 400\<rparr>" and sv = "Str ''normal''"
      and wde = "\<lparr>shape = Num 500, css = Str ''normal'', menu = Num 5\<rparr>"
      and r = "\<lparr>fileNameToBpMap = [(''sans-regular'', (''sans'', ''regular''))],
            returnBuildPlans =
              [(''sans'',
                \<lparr>family = Str ''Sans'', bp_weights = Some scenario_weights,
                 bp_slopes = Some scenario_slopes, bp_slants = None,
                 bp_widths = Some scenario_widths, targets = [''sans-regular'']\<rparr>)]\<rparr>"]
  show ?thesis using ok plans valid
    by (simp add: scenario_def or_table_def scenario_weights_def scenario_slopes_def scenario_widths_def)
qed

text \<open>
  Claim C1, as the code has it. The names of two plans can collide: the plan \<^verbatim>\<open>a\<close> with the
  weight \<^verbatim>\<open>b-c\<close> and the plan \<^verbatim>\<open>a-b\<close> with the weight \<^verbatim>\<open>c\<close> both record the target
  \<^verbatim>\<open>a-b-c\<close>, and the index gives that name to the plan visited last, so the pair of
  \<^verbatim>\<open>a\<close> and \<^verbatim>\<open>b-c\<close> is not recovered.
\<close>

theorem index_round_trip_counterexample:
  "BuildPlans colliding_plans
     = Inr \<lparr>fileNameToBpMap = [(''a-b-c'', (''a-b'', ''c''))],
            returnBuildPlans =
              [(''a'', (plan_with (Some [(''b-c'', \<lparr>shape = Num 700, css = Num 700, menu = Num 700\<rparr>)]))
                         \<lparr>bp_slopes := Some scenario_slopes, bp_widths := Some scenario_widths,
                          targets := [makeFileName ''a'' ''b-c'']\<rparr>),
               (''a-b'', (plan_with (Some [(''c'', \<lparr>shape = Num 700, css = Num 700, menu = Num 700\<rparr>)]))
                         \<lparr>bp_slopes := Some scenario_slopes, bp_widths := Some scenario_widths,
                          targets := [makeFileName ''a-b'' ''c'']\<rparr>)]\<rparr>
   \<and> makeFileName ''a'' ''b-c'' = makeFileName ''a-b'' ''c''
   \<and> (''a'', ''b-c'') \<noteq> (''a-b'', ''c'')
   \<and> map_of [(''a-b-c'', (''a-b'', ''c''))] (makeFileName ''a'' ''b-c'') \<noteq> Some (''a'', ''b-c'')"
  by (simp add: plans_eval colliding_plans_def)

text \<open>
  Claim C1, amended. Let the expansion succeed, and let \<open>t\<close> be a target the expanded plan of
  the prefix \<open>p\<close> records. Then \<open>t\<close> is \<open>p\<close>, a hyphen and a suffix \<open>s\<close>, and the index has
  an entry for \<open>t\<close>: a pair \<open>(p', s')\<close> whose target name is \<open>t\<close> and whose plan \<open>p'\<close> records
  \<open>t\<close> too. Of the plans that record \<open>t\<close>, \<open>p'\<close> is the one the loop visits last: the plans
  after it in the order of enumeration do not record \<open>t\<close>. When no plan of another prefix
  records \<open>t\<close>, the entry is \<open>(p, s)\<close> itself.
\<close>

theorem index_round_trip:
  assumes ok: "BuildPlans rp = Inr r"
    and raw: "buildPlans rp = Some plans" and keys: "distinct (map fst plans)"
    and plan: "map_of (returnBuildPlans r) p = Some bp" and target: "t \<in> set (targets bp)"
  shows "\<exists>s p' s' bp' before raw' after.
           t = makeFileName p s
         \<and> map_of (fileNameToBpMap r) t = Some (p', s') \<and> makeFileName p' s' = t
         \<and> map_of (returnBuildPlans r) p' = Some bp' \<and> t \<in> set (targets bp')
         \<and> plans = before @ (p', raw') # after
         \<and> (\<forall>q bq. q \<in> fst ` set after \<and> map_of (returnBuildPlans r) q = Some bq
                \<longrightarrow> t \<notin> set (targets bq))
         \<and> ((\<forall>q bq. q \<noteq> p \<and> map_of (returnBuildPlans r) q = Some bq \<longrightarrow> t \<notin> set (targets bq))
              \<longrightarrow> p' = p \<and> s' = s)"
proof -
  from raw keys have "distinct (for_in (buildPlans rp))" by (simp add: for_in_def)
  with ok have "index_sound r" by (rule index_sound_BuildPlans)
  then have i1: "\<And>t p s. map_of (fileNameToBpMap r) t = Some (p, s) \<Longrightarrow>
        t = makeFileName p s \<and> (\<exists>b. map_of (returnBuildPlans r) p = Some b \<and> t \<in> set (targets b))"
    and i2: "\<And>p b t. map_of (returnBuildPlans r) p = Some b \<Longrightarrow> t \<in> set (targets b) \<Longrightarrow>
        (\<exists>q. map_of (fileNameToBpMap r) t = Some q) \<and> (\<exists>s. t = makeFileName p s)"
    unfolding index_sound_def by blast+
  from i2[OF plan target] obtain s where s: "t = makeFileName p s" by blast
  from ok raw have run: "build_plans_loop rp plans \<lparr>fileNameToBpMap = [], returnBuildPlans = []\<rparr> = Inr r"
    by (simp add: BuildPlans_def)
  have "p \<in> fst ` set plans"
  proof (rule ccontr)
    assume "p \<notin> fst ` set plans"
    from build_plans_loop_keeps[OF run this] plan show False by simp
  qed
  then obtain raw_p where "(p, raw_p) \<in> set plans" by auto
  define records :: "string \<times> build_plan \<Rightarrow> bool" where
    "records = (\<lambda>x. \<exists>bq. map_of (returnBuildPlans r) (fst x) = Some bq \<and> t \<in> set (targets bq))"
  have "records (p, raw_p)" unfolding records_def using plan target by simp
  with \<open>(p, raw_p) \<in> set plans\<close> have "\<exists>x \<in> set plans. records x" by (rule rev_bexI)
  then have "\<exists>ys x zs. plans = ys @ x # zs \<and> records x \<and> (\<forall>z \<in> set zs. \<not> records z)"
    by (rule split_list_last_prop)
  then obtain before x after where
    split: "plans = before @ x # after" and here: "records x"
    and none: "\<forall>z \<in> set after. \<not> records z"
    by (elim exE conjE)
  obtain p' raw' where x: "x = (p', raw')" by (cases x)
  from here x obtain bp' where bp': "map_of (returnBuildPlans r) p' = Some bp'" "t \<in> set (targets bp')"
    unfolding records_def by auto
  have later: "\<forall>q bq. q \<in> fst ` set after \<and> map_of (returnBuildPlans r) q = Some bq
                \<longrightarrow> t \<notin> set (targets bq)"
  proof (intro allI impI)
    fix q bq
    assume a: "q \<in> fst ` set after \<and> map_of (returnBuildPlans r) q = Some bq"
    then obtain z where z: "z \<in> set after" "fst z = q" by auto
    with none have "\<not> records z" by simp
    with z a show "t \<notin> set (targets bq)" unfolding records_def by auto
  qed
  define s' where "s' = drop (Suc (length p')) t"
  have entry: "map_of (fileNameToBpMap r) t = Some (p', s')"
    unfolding s'_def
    by (rule build_plans_loop_last[OF run[unfolded split x] keys[unfolded split x] bp' later])
  from i1[OF entry] have t': "t = makeFileName p' s'" by blast
  have own: "(\<forall>q bq. q \<noteq> p \<and> map_of (returnBuildPlans r) q = Some bq \<longrightarrow> t \<notin> set (targets bq))
              \<longrightarrow> p' = p \<and> s' = s"
  proof
    assume alone: "\<forall>q bq. q \<noteq> p \<and> map_of (returnBuildPlans r) q = Some bq \<longrightarrow> t \<notin> set (targets bq)"
    from alone bp' have pp: "p' = p" by blast
    from s t' have "makeFileName p s = makeFileName p' s'" by (rule trans[OF sym])
    with pp have "s' = s" by simp
    with pp show "p' = p \<and> s' = s" by simp
  qed
  have all: "t = makeFileName p s
         \<and> map_of (fileNameToBpMap r) t = Some (p', s') \<and> makeFileName p' s' = t
         \<and> map_of (returnBuildPlans r) p' = Some bp' \<and> t \<in> set (targets bp')
         \<and> plans = before @ (p', raw') # after
         \<and> (\<forall>q bq. q \<in> fst ` set after \<and> map_of (returnBuildPlans r) q = Some bq
                \<longrightarrow> t \<notin> set (targets bq))
         \<and> ((\<forall>q bq. q \<noteq> p \<and> map_of (returnBuildPlans r) q = Some bq \<longrightarrow> t \<notin> set (targets bq))
              \<longrightarrow> p' = p \<and> s' = s)"
  proof (intro conjI)
    show "t = makeFileName p s" by (rule s)
    show "map_of (fileNameToBpMap r) t = Some (p', s')" by (rule entry)
    show "makeFileName p' s' = t" using t' by (rule sym)
    show "map_of (returnBuildPlans r) p' = Some bp'" by (rule bp'(1))
    show "t \<in> set (targets bp')" by (rule bp'(2))
    show "plans = before @ (p', raw') # after" using split x by (simp only:)
    show "\<forall>q bq. q \<in> fst ` set after \<and> map_of (returnBuildPlans r) q = Some bq
                \<longrightarrow> t \<notin> set (targets bq)" by (rule later)
    show "(\<forall>q bq. q \<noteq> p \<and> map_of (returnBuildPlans r) q = Some bq \<longrightarrow> t \<notin> set (targets bq))
              \<longrightarrow> p' = p \<and> s' = s" by (rule own)
  qed
  show ?thesis
    apply (rule exI[of _ s])
    apply (rule exI[of _ p'])
    apply (rule exI[of _ s'])
    apply (rule exI[of _ bp'])
    apply (rule exI[of _ before])
    apply (rule exI[of _ raw'])
    apply (rule exI[of _ after])
    apply (rule all)
    done
qed

theorem index_round_trip_witness:
  "BuildPlans two_plans = Inr two_plans_expanded
   \<and> buildPlans two_plans = Some [(''sans'', plan_with None), (''serif'', plan_with None)]
   \<and> distinct (map fst [(''sans'', plan_with None), (''serif'', plan_with None)])
   \<and> map_of (returnBuildPlans two_plans_expanded) ''serif''
       = Some \<lparr>family = Str ''Example'', bp_weights = Some scenario_weights,
               bp_slopes = Some scenario_slopes, bp_slants = None,
               bp_widths = Some scenario_widths, targets = [''serif-regular'']\<rparr>
   \<and> ''serif-regular'' \<in> set [''serif-regular'']
   \<and> ''serif-regular'' = makeFileName ''serif'' ''regular''
   \<and> map_of (fileNameToBpMap two_plans_expanded) ''serif-regular'' = Some (''serif'', ''regular'')
   \<and> BuildPlans colliding_plans
     = Inr \<lparr>fileNameToBpMap = [(''a-b-c'', (''a-b'', ''c''))],
            returnBuildPlans =
              [(''a'', (plan_with (Some [(''b-c'', \<lparr>shape = Num 700, css = Num 700, menu = Num 700\<rparr>)]))
                         \<lparr>bp_slopes := Some scenario_slopes, bp_widths := Some scenario_widths,
                          targets := [''a-b-c'']\<rparr>),
               (''a-b'', (plan_with (Some [(''c'', \<lparr>shape = Num 700, css = Num 700, menu = Num 700\<rparr>)]))
                         \<lparr>bp_slopes := Some scenario_slopes, bp_widths := Some scenario_widths,
                          targets := [''a-b-c'']\<rparr>)]\<rparr>
   \<and> buildPlans colliding_plans
     = Some [(''a'', plan_with (Some [(''b-c'', \<lparr>shape = Num 700, css = Num 700, menu = Num 700\<rparr>)])),
             (''a-b'', plan_with (Some [(''c'', \<lparr>shape = Num 700, css = Num 700, menu = Num 700\<rparr>)]))]
   \<and> distinct [''a'', ''a-b'']
   \<and> ''a-b-c'' \<in> set [''a-b-c'']
   \<and> map_of [(''a-b-c'', (''a-b'', ''c''))] ''a-b-c'' = Some (''a-b'', ''c'')
   \<and> [(''a'', plan_with (Some [(''b-c'', \<lparr>shape = Num 700, css = Num 700, menu = Num 700\<rparr>)])),
       (''a-b'', plan_with (Some [(''c'', \<lparr>shape = Num 700, css = Num 700, menu = Num 700\<rparr>)]))]
     = [(''a'', plan_with (Some [(''b-c'', \<lparr>shape = Num 700, css = Num 700, menu = Num 700\<rparr>)]))]
       @ (''a-b'', plan_with (Some [(''c'', \<lparr>shape = Num 700, css = Num 700, menu = Num 700\<rparr>)])) # []"
proof -
  have ok: "BuildPlans two_plans = Inr two_plans_expanded"
    by (simp add: plans_eval two_plans_def two_plans_expanded_def)
  have raw: "buildPlans two_plans = Some [(''sans'', plan_with None), (''serif'', plan_with None)]"
    by (simp add: two_plans_def config_with_def)
  have keys: "distinct (map fst [(''sans'', plan_with None), (''serif'', plan_with None)])"
    by simp
  have plan: "map_of (returnBuildPlans two_plans_expanded) ''serif''
       = Some \<lparr>family = Str ''Example'', bp_weights = Some scenario_weights,
               bp_slopes = Some scenario_slopes, bp_slants = None,
               bp_widths = Some scenario_widths, targets = [''serif-regular'']\<rparr>"
    by (simp add: two_plans_expanded_def)
  have target: "''serif-regular'' \<in> set (targets \<lparr>family = Str ''Example'', bp_weights = Some scenario_weights,
               bp_slopes = Some scenario_slopes, bp_slants = None,
               bp_widths = Some scenario_widths, targets = [''serif-regular'']\<rparr>)"
    by simp
  from index_round_trip[OF ok raw keys plan target]
  have "\<exists>p' s'. map_of (fileNameToBpMap two_plans_expanded) ''serif-regular'' = Some (p', s')
          \<and> makeFileName p' s' = ''serif-regular''"
    by blast
  then have one: "map_of (fileNameToBpMap two_plans_expanded) ''serif-regular'' = Some (''serif'', ''regular'')"
    by (auto simp: two_plans_expanded_def makeFileName_def split: if_splits)
  define r where "r = \<lparr>fileNameToBpMap = [(''a-b-c'', (''a-b'', ''c''))],
            returnBuildPlans =
              [(''a'', (plan_with (Some [(''b-c'', \<lparr>shape = Num 700, css = Num 700, menu = Num 700\<rparr>)]))
                         \<lparr>bp_slopes := Some scenario_slopes, bp_widths := Some scenario_widths,
                          targets := [''a-b-c'']\<rparr>),
               (''a-b'', (plan_with (Some [(''c'', \<lparr>shape = Num 700, css = Num 700, menu = Num 700\<rparr>)]))
                         \<lparr>bp_slopes := Some scenario_slopes, bp_widths := Some scenario_widths,
                          targets := [''a-b-c'']\<rparr>)]\<rparr>"
  have ok2: "BuildPlans colliding_plans = Inr r"
    unfolding r_def by (simp add: plans_eval colliding_plans_def)
  have raw2: "buildPlans colliding_plans
     = Some [(''a'', plan_with (Some [(''b-c'', \<lparr>shape = Num 700, css = Num 700, menu = Num 700\<rparr>)])),
             (''a-b'', plan_with (Some [(''c'', \<lparr>shape = Num 700, css = Num 700, menu = Num 700\<rparr>)]))]"
    by (simp add: colliding_plans_def config_with_def)
  have keys2: "distinct (map fst
            [(''a'', plan_with (Some [(''b-c'', \<lparr>shape = Num 700, css = Num 700, menu = Num 700\<rparr>)])),
             (''a-b'', plan_with (Some [(''c'', \<lparr>shape = Num 700, css = Num 700, menu = Num 700\<rparr>)]))])"
    by simp
  have plan2: "map_of (returnBuildPlans r) ''a''
      = Some ((plan_with (Some [(''b-c'', \<lparr>shape = Num 700, css = Num 700, menu = Num 700\<rparr>)]))
                         \<lparr>bp_slopes := Some scenario_slopes, bp_widths := Some scenario_widths,
                          targets := [''a-b-c'']\<rparr>)"
    by (simp add: r_def)
  have target2: "''a-b-c'' \<in> set (targets
           ((plan_with (Some [(''b-c'', \<lparr>shape = Num 700, css = Num 700, menu = Num 700\<rparr>)]))
                         \<lparr>bp_slopes := Some scenario_slopes, bp_widths := Some scenario_widths,
                          targets := [''a-b-c'']\<rparr>))"
    by simp
  from index_round_trip[OF ok2 raw2 keys2 plan2 target2]
  have "\<exists>p' s'. map_of (fileNameToBpMap r) ''a-b-c'' = Some (p', s')" by blast
  then have two: "map_of [(''a-b-c'', (''a-b'', ''c''))] ''a-b-c'' = Some (''a-b'', ''c'')"
    by (simp add: r_def)
  show ?thesis using ok raw keys plan one ok2[unfolded r_def] raw2 two
    by (simp add: makeFileName_def)
qed

subsection \<open>Collection plans\<close>

lemma map_of_obj_push:
  "map_of (obj_push k x ob) = (map_of ob)(k \<mapsto> (case map_of ob k of None \<Rightarrow> [x] | Some xs \<Rightarrow> xs @ [x]))"
  by (simp add: obj_push_def map_of_obj_set split: option.splits)

lemma composition_sound_push:
  assumes inv: "composition_sound need_plan cp"
    and src: "need_plan prefix = Inr gri" and tgt: "file \<in> set (targets gri)"
  shows "composition_sound need_plan
           (cp\<lparr>glyfTtcComposition := obj_push glyfName (prefix, file) (glyfTtcComposition cp),
               ttcComposition := obj_push ttcName glyfName (ttcComposition cp)\<rparr>)"
proof -
  from inv have g: "\<And>name parts dir file. map_of (glyfTtcComposition cp) name = Some parts \<Longrightarrow>
        (dir, file) \<in> set parts \<Longrightarrow> \<exists>gri. need_plan dir = Inr gri \<and> file \<in> set (targets gri)"
    and t: "\<And>name gs g. map_of (ttcComposition cp) name = Some gs \<Longrightarrow> g \<in> set gs \<Longrightarrow>
        \<exists>parts. map_of (glyfTtcComposition cp) g = Some parts \<and> parts \<noteq> []"
    unfolding composition_sound_def by blast+
  have g': "\<exists>gri. need_plan dir = Inr gri \<and> f \<in> set (targets gri)"
    if "map_of (obj_push glyfName (prefix, file) (glyfTtcComposition cp)) name = Some parts"
      "(dir, f) \<in> set parts" for name parts dir f
  proof (cases "name = glyfName")
    case True
    with that have "(dir, f) = (prefix, file)
        \<or> (\<exists>old. map_of (glyfTtcComposition cp) glyfName = Some old \<and> (dir, f) \<in> set old)"
      by (auto simp: map_of_obj_push split: option.splits)
    with src tgt g show ?thesis by blast
  next
    case False
    with that g show ?thesis by (auto simp: map_of_obj_push)
  qed
  have glyf_kept: "\<exists>parts. map_of (obj_push glyfName (prefix, file) (glyfTtcComposition cp)) n = Some parts
        \<and> parts \<noteq> []"
    if "n = glyfName \<or> (\<exists>parts. map_of (glyfTtcComposition cp) n = Some parts \<and> parts \<noteq> [])" for n
    using that by (auto simp: map_of_obj_push split: option.splits)
  have t': "\<exists>parts. map_of (obj_push glyfName (prefix, file) (glyfTtcComposition cp)) n = Some parts
        \<and> parts \<noteq> []"
    if "map_of (obj_push ttcName glyfName (ttcComposition cp)) name = Some gs" "n \<in> set gs" for name gs n
  proof (cases "name = ttcName")
    case True
    with that have "n = glyfName \<or> (\<exists>old. map_of (ttcComposition cp) ttcName = Some old \<and> n \<in> set old)"
      by (auto simp: map_of_obj_push split: option.splits)
    with t have "n = glyfName \<or> (\<exists>parts. map_of (glyfTtcComposition cp) n = Some parts \<and> parts \<noteq> [])"
      by blast
    then show ?thesis by (rule glyf_kept)
  next
    case False
    with that have "map_of (ttcComposition cp) name = Some gs" by (simp add: map_of_obj_push)
    from t[OF this that(2)] show ?thesis by (intro glyf_kept) simp
  qed
  show ?thesis unfolding composition_sound_def using g' t' by simp blast
qed

lemma collect_suffixes_sound:
  "collect_suffixes fnFileName config collectPrefix prefix (targets gri) sm acc = Inr acc' \<Longrightarrow>
   composition_sound need_plan (fst acc) \<Longrightarrow> need_plan prefix = Inr gri \<Longrightarrow>
   composition_sound need_plan (fst acc')"
proof (induction sm arbitrary: acc)
  case Nil
  then show ?case by simp
next
  case (Cons e sm)
  obtain suffix sfi where e: "e = (suffix, sfi)" by (cases e)
  show ?case
  proof (cases "makeFileName prefix suffix \<in> set (targets gri)")
    case False
    with Cons.prems(1) e have
      "collect_suffixes fnFileName config collectPrefix prefix (targets gri) sm acc = Inr acc'"
      by (auto simp: and_then_eq_Inr)
    from Cons.IH[OF this Cons.prems(2,3)] show ?thesis .
  next
    case True
    with Cons.prems(1) e obtain ttcName glyfName where
      rest: "collect_suffixes fnFileName config collectPrefix prefix (targets gri) sm
               ((fst acc)\<lparr>glyfTtcComposition :=
                             obj_push glyfName (prefix, makeFileName prefix suffix)
                               (glyfTtcComposition (fst acc)),
                           ttcComposition := obj_push ttcName glyfName (ttcComposition (fst acc))\<rparr>,
                set_add ttcName (snd acc)) = Inr acc'"
      by (auto simp: and_then_eq_Inr)
    have "composition_sound need_plan
            ((fst acc)\<lparr>glyfTtcComposition :=
                             obj_push glyfName (prefix, makeFileName prefix suffix)
                               (glyfTtcComposition (fst acc)),
                        ttcComposition := obj_push ttcName glyfName (ttcComposition (fst acc))\<rparr>)"
      using Cons.prems(2,3) True by (rule composition_sound_push)
    with Cons.IH[OF rest _ Cons.prems(3)] show ?thesis by simp
  qed
qed

lemma collect_sources_sound:
  "collect_sources need_plan fnFileName config sm collectPrefix fr acc = Inr acc' \<Longrightarrow>
   composition_sound need_plan (fst acc) \<Longrightarrow> composition_sound need_plan (fst acc')"
proof (induction fr arbitrary: acc)
  case Nil
  then show ?case by simp
next
  case (Cons prefix rest)
  from Cons.prems(1) obtain gri acc1 where gri: "need_plan prefix = Inr gri"
    and s: "collect_suffixes fnFileName config collectPrefix prefix (targets gri) sm acc = Inr acc1"
    and r: "collect_sources need_plan fnFileName config sm collectPrefix rest acc1 = Inr acc'"
    by (auto simp: and_then_eq_Inr)
  from collect_suffixes_sound[OF s Cons.prems(2) gri] have "composition_sound need_plan (fst acc1)" .
  from Cons.IH[OF r this] show ?case .
qed

lemma composition_sound_contents:
  "composition_sound need_plan (cp\<lparr>ttcContents := a, groupDecomposition := b\<rparr>)
   = composition_sound need_plan cp"
  by (simp add: composition_sound_def)

lemma collect_loop_sound:
  "collect_loop need_plan fnFileName config sm entries cp = Inr cp' \<Longrightarrow>
   composition_sound need_plan cp \<Longrightarrow> composition_sound need_plan cp'"
proof (induction entries arbitrary: cp)
  case Nil
  then show ?case by simp
next
  case (Cons e entries)
  obtain collectPrefix collect where e: "e = (collectPrefix, collect)" by (cases e)
  show ?case
  proof (cases "from_list collect")
    case None
    with Cons e show ?thesis by simp
  next
    case (Some fr)
    show ?thesis
    proof (cases fr)
      case Nil
      with Cons e Some show ?thesis by simp
    next
      case (Cons p ps)
      with Cons.prems(1) e Some obtain acc where
        s: "collect_sources need_plan fnFileName config sm collectPrefix (p # ps) (cp, []) = Inr acc"
        and r: "collect_loop need_plan fnFileName config sm entries
                 ((fst acc)\<lparr>ttcContents := obj_set collectPrefix (snd acc) (ttcContents (fst acc)),
                            groupDecomposition :=
                              obj_set collectPrefix (p # ps) (groupDecomposition (fst acc))\<rparr>) = Inr cp'"
        by (auto simp: and_then_eq_Inr)
      from collect_sources_sound[OF s] Cons.prems(2) have "composition_sound need_plan (fst acc)" by simp
      then have "composition_sound need_plan
                 ((fst acc)\<lparr>ttcContents := obj_set collectPrefix (snd acc) (ttcContents (fst acc)),
                            groupDecomposition :=
                              obj_set collectPrefix (p # ps) (groupDecomposition (fst acc))\<rparr>)"
        by (simp only: composition_sound_contents)
      from Cons.IH[OF r this] show ?thesis .
    qed
  qed
qed

lemma collect_suffixes_total:
  "\<exists>acc'. collect_suffixes fnStandardTtc (Some c) collectPrefix prefix tset sm acc = Inr acc'"
proof (induction sm arbitrary: acc)
  case Nil
  then show ?case by simp
next
  case (Cons e sm)
  obtain suffix sfi where e: "e = (suffix, sfi)" by (cases e)
  show ?case unfolding e using Cons.IH
    by (simp add: fnStandardTtc_def with_widths_def)
qed

lemma collect_sources_total:
  "(\<And>p. p \<in> set fr \<Longrightarrow> \<exists>gri. need_plan p = Inr gri) \<Longrightarrow>
   \<exists>acc'. collect_sources need_plan fnStandardTtc (Some c) sm collectPrefix fr acc = Inr acc'"
proof (induction fr arbitrary: acc)
  case Nil
  then show ?case by simp
next
  case (Cons prefix rest)
  from Cons.prems obtain gri where gri: "need_plan prefix = Inr gri" by auto
  obtain acc1 where
    s: "collect_suffixes fnStandardTtc (Some c) collectPrefix prefix (targets gri) sm acc = Inr acc1"
    using collect_suffixes_total by blast
  from Cons.IH[of acc1] Cons.prems obtain acc' where
    "collect_sources need_plan fnStandardTtc (Some c) sm collectPrefix rest acc1 = Inr acc'" by auto
  with gri s show ?case by simp
qed

lemma collect_loop_total:
  "(\<And>collectPrefix collect fr p. (collectPrefix, collect) \<in> set entries \<Longrightarrow>
      from_list collect = Some fr \<Longrightarrow> p \<in> set fr \<Longrightarrow> \<exists>gri. need_plan p = Inr gri) \<Longrightarrow>
   \<exists>cp'. collect_loop need_plan fnStandardTtc (Some c) sm entries cp = Inr cp'"
proof (induction entries arbitrary: cp)
  case Nil
  then show ?case by simp
next
  case (Cons e entries)
  obtain collectPrefix collect where e: "e = (collectPrefix, collect)" by (cases e)
  have rest: "\<exists>cp'. collect_loop need_plan fnStandardTtc (Some c) sm entries cp1 = Inr cp'" for cp1
  proof (rule Cons.IH)
    fix collectPrefix collect fr p
    assume "(collectPrefix, collect) \<in> set entries" "from_list collect = Some fr" "p \<in> set fr"
    then show "\<exists>gri. need_plan p = Inr gri"
      using Cons.prems[of collectPrefix collect fr p] by simp
  qed
  show ?case
  proof (cases "from_list collect")
    case None
    with e rest show ?thesis by simp
  next
    case (Some fr)
    show ?thesis
    proof (cases fr)
      case Nil
      with e Some rest show ?thesis by simp
    next
      case (Cons p ps)
      have "\<And>q. q \<in> set (p # ps) \<Longrightarrow> \<exists>gri. need_plan q = Inr gri"
        using Cons.prems[of collectPrefix collect fr] e Some Cons by simp
      then obtain acc where
        "collect_sources need_plan fnStandardTtc (Some c) sm collectPrefix (p # ps) (cp, []) = Inr acc"
        using collect_sources_total[of "p # ps" need_plan c sm collectPrefix "(cp, [])"] by blast
      with e Some Cons rest show ?thesis by simp
    qed
  qed
qed

lemma sparse_collection_sources:
  "BuildPlanOf sparse_collection ''sans''
       = Inr ((plan_with (Some scenario_weights))
                \<lparr>bp_slopes := Some [(''upright'', Str ''normal''), (''italic'', Str ''italic'')],
                 bp_widths := Some scenario_widths, targets := [''sans-regular'', ''sans-italic'']\<rparr>)"
  "BuildPlanOf sparse_collection ''mono''
       = Inr ((plan_with (Some scenario_weights))
                \<lparr>bp_slopes := Some scenario_slopes,
                 bp_widths := Some scenario_widths, targets := [''mono-regular'']\<rparr>)"
  by (simp_all add: plans_eval BuildPlanOf_def sparse_collection_def)

lemma sparse_collection_result: "CollectPlans sparse_collection = Inr sparse_collection_plans"
proof -
  have sm: "StandardSuffixes sparse_collection = Inr
      [(''regular'',
        \<lparr>weight = ''regular'', shapeWeight = 400, cssWeight = 400, menuWeight = 400,
         width = ''normal'', shapeWidth = 500, cssStretch = Str ''normal'', menuWidth = 5,
         slope = ''upright'', cssStyle = Str ''normal'', menuSlope = Str ''normal''\<rparr>),
       (''italic'',
        \<lparr>weight = ''regular'', shapeWeight = 400, cssWeight = 400, menuWeight = 400,
         width = ''normal'', shapeWidth = 500, cssStretch = Str ''normal'', menuWidth = 5,
         slope = ''italic'', cssStyle = Str ''italic'', menuSlope = Str ''italic''\<rparr>)]"
    by (simp add: plans_eval StandardSuffixes_def sparse_collection_def)
  have raw: "collectPlans sparse_collection = Some [(''both'', \<lparr>from_list = Some [''sans'', ''mono'']\<rparr>)]"
    and cfg: "collectConfig sparse_collection
                = Some \<lparr>distinguishWeights = False, distinguishWidths = False, distinguishSlope = False\<rparr>"
    by (simp_all add: sparse_collection_def)
  have cp: "getCollectPlans (BuildPlanOf sparse_collection) (collectPlans sparse_collection)
              [(''regular'',
        \<lparr>weight = ''regular'', shapeWeight = 400, cssWeight = 400, menuWeight = 400,
         width = ''normal'', shapeWidth = 500, cssStretch = Str ''normal'', menuWidth = 5,
         slope = ''upright'', cssStyle = Str ''normal'', menuSlope = Str ''normal''\<rparr>),
       (''italic'',
        \<lparr>weight = ''regular'', shapeWeight = 400, cssWeight = 400, menuWeight = 400,
         width = ''normal'', shapeWidth = 500, cssStretch = Str ''normal'', menuWidth = 5,
         slope = ''italic'', cssStyle = Str ''italic'', menuSlope = Str ''italic''\<rparr>)]
              (collectConfig sparse_collection) fnStandardTtc = Inr sparse_collection_plans"
    unfolding getCollectPlans_def
    by (simp add: sparse_collection_sources raw cfg sparse_collection_plans_def fnStandardTtc_def
        with_widths_def obj_push_def set_add_def obj_set_def array_index_def makeSuffix_def
        makeFileName_def plan_with_def WIDTH_NORMAL_def WEIGHT_NORMAL_def SLOPE_NORMAL_def
        DEFAULT_SUBFAMILY_def)
  show ?thesis by (simp add: CollectPlans_def sm cp)
qed

text \<open>
  Claim C3. Whatever the planner returns, every pair in a list of \<^verbatim>\<open>glyfTtcComposition\<close>
  is a source plan the planner was given and a target that plan lists, and every name in a
  list of \<^verbatim>\<open>ttcComposition\<close> is a container of \<^verbatim>\<open>glyfTtcComposition\<close> with at least one
  such pair: a suffix of the standard mapping whose target a source does not produce leaves
  no trace. And no such suffix makes the planner fail: with the standard naming function and
  a \<^verbatim>\<open>collectConfig\<close> table, it returns a plan set whenever every source prefix of every
  collection names a build plan, whatever targets those plans list.
\<close>

theorem sparse_axes_are_skipped:
  "(getCollectPlans need_plan rawCollectPlans suffixMapping config fnFileName = Inr cp \<longrightarrow>
      (\<forall>name parts dir file.
         map_of (glyfTtcComposition cp) name = Some parts \<and> (dir, file) \<in> set parts \<longrightarrow>
         (\<exists>gri. need_plan dir = Inr gri \<and> file \<in> set (targets gri)))
    \<and> (\<forall>name gs g.
         map_of (ttcComposition cp) name = Some gs \<and> g \<in> set gs \<longrightarrow>
         (\<exists>parts. map_of (glyfTtcComposition cp) g = Some parts \<and> parts \<noteq> [])))
   \<and> ((\<forall>collectPrefix collect fr p.
          (collectPrefix, collect) \<in> set entries \<and> from_list collect = Some fr \<and> p \<in> set fr \<longrightarrow>
          (\<exists>gri. need_plan p = Inr gri)) \<longrightarrow>
       (\<exists>cp'. getCollectPlans need_plan (Some entries) suffixMapping (Some c) fnStandardTtc = Inr cp'))"
proof (intro conjI impI)
  assume r: "getCollectPlans need_plan rawCollectPlans suffixMapping config fnFileName = Inr cp"
  have "composition_sound need_plan
          \<lparr>glyfTtcComposition = [], ttcComposition = [], ttcContents = [], groupDecomposition = []\<rparr>"
    by (simp add: composition_sound_def)
  with r have s: "composition_sound need_plan cp"
    unfolding getCollectPlans_def by (rule collect_loop_sound)
  from s show "\<forall>name parts dir file.
         map_of (glyfTtcComposition cp) name = Some parts \<and> (dir, file) \<in> set parts \<longrightarrow>
         (\<exists>gri. need_plan dir = Inr gri \<and> file \<in> set (targets gri))"
    unfolding composition_sound_def by blast
  from s show "\<forall>name gs g.
         map_of (ttcComposition cp) name = Some gs \<and> g \<in> set gs \<longrightarrow>
         (\<exists>parts. map_of (glyfTtcComposition cp) g = Some parts \<and> parts \<noteq> [])"
    unfolding composition_sound_def by blast
next
  assume a: "\<forall>collectPrefix collect fr p.
          (collectPrefix, collect) \<in> set entries \<and> from_list collect = Some fr \<and> p \<in> set fr \<longrightarrow>
          (\<exists>gri. need_plan p = Inr gri)"
  show "\<exists>cp'. getCollectPlans need_plan (Some entries) suffixMapping (Some c) fnStandardTtc = Inr cp'"
    unfolding getCollectPlans_def option.case
    by (rule collect_loop_total) (use a in blast)
qed

theorem sparse_axes_are_skipped_witness:
  "getCollectPlans (BuildPlanOf sparse_collection) (collectPlans sparse_collection)
     [(''regular'',
        \<lparr>weight = ''regular'', shapeWeight = 400, cssWeight = 400, menuWeight = 400,
         width = ''normal'', shapeWidth = 500, cssStretch = Str ''normal'', menuWidth = 5,
         slope = ''upright'', cssStyle = Str ''normal'', menuSlope = Str ''normal''\<rparr>),
       (''italic'',
        \<lparr>weight = ''regular'', shapeWeight = 400, cssWeight = 400, menuWeight = 400,
         width = ''normal'', shapeWidth = 500, cssStretch = Str ''normal'', menuWidth = 5,
         slope = ''italic'', cssStyle = Str ''italic'', menuSlope = Str ''italic''\<rparr>)]
     (collectConfig sparse_collection) fnStandardTtc = Inr sparse_collection_plans
   \<and> BuildPlanOf sparse_collection ''mono''
       = Inr ((plan_with (Some scenario_weights))
                \<lparr>bp_slopes := Some scenario_slopes,
                 bp_widths := Some scenario_widths, targets := [''mono-regular'']\<rparr>)
   \<and> map_of (glyfTtcComposition sparse_collection_plans) ''both-regular''
       = Some [(''sans'', ''sans-regular''), (''sans'', ''sans-italic''), (''mono'', ''mono-regular'')]
   \<and> (''mono'', ''mono-regular'') \<in> set [(''sans'', ''sans-regular''), (''sans'', ''sans-italic''),
                                          (''mono'', ''mono-regular'')]
   \<and> ''mono-regular'' \<in> set [''mono-regular'']
   \<and> (''mono'', ''mono-italic'') \<notin> set [(''sans'', ''sans-regular''), (''sans'', ''sans-italic''),
                                          (''mono'', ''mono-regular'')]"
proof -
  note t = sparse_axes_are_skipped[where need_plan = "BuildPlanOf sparse_collection"
      and rawCollectPlans = "collectPlans sparse_collection" and config = "collectConfig sparse_collection"
      and fnFileName = fnStandardTtc and cp = sparse_collection_plans]
  have "StandardSuffixes sparse_collection = Inr
      [(''regular'',
        \<lparr>weight = ''regular'', shapeWeight = 400, cssWeight = 400, menuWeight = 400,
         width = ''normal'', shapeWidth = 500, cssStretch = Str ''normal'', menuWidth = 5,
         slope = ''upright'', cssStyle = Str ''normal'', menuSlope = Str ''normal''\<rparr>),
       (''italic'',
        \<lparr>weight = ''regular'', shapeWeight = 400, cssWeight = 400, menuWeight = 400,
         width = ''normal'', shapeWidth = 500, cssStretch = Str ''normal'', menuWidth = 5,
         slope = ''italic'', cssStyle = Str ''italic'', menuSlope = Str ''italic''\<rparr>)]"
    by (simp add: plans_eval StandardSuffixes_def sparse_collection_def)
  with sparse_collection_result have "getCollectPlans (BuildPlanOf sparse_collection)
     (collectPlans sparse_collection)
     [(''regular'',
        \<lparr>weight = ''regular'', shapeWeight = 400, cssWeight = 400, menuWeight = 400,
         width = ''normal'', shapeWidth = 500, cssStretch = Str ''normal'', menuWidth = 5,
         slope = ''upright'', cssStyle = Str ''normal'', menuSlope = Str ''normal''\<rparr>),
       (''italic'',
        \<lparr>weight = ''regular'', shapeWeight = 400, cssWeight = 400, menuWeight = 400,
         width = ''normal'', shapeWidth = 500, cssStretch = Str ''normal'', menuWidth = 5,
         slope = ''italic'', cssStyle = Str ''italic'', menuSlope = Str ''italic''\<rparr>)]
     (collectConfig sparse_collection) fnStandardTtc = Inr sparse_collection_plans"
    by (simp add: CollectPlans_def)
  with t sparse_collection_sources show ?thesis
    by (simp add: sparse_collection_plans_def)
qed

subsection \<open>Deduplication of composition lists\<close>

lemma set_add_distinct: "distinct xs \<Longrightarrow> distinct (set_add x xs)"
  by (simp add: set_add_def)

lemma set_set_add: "set (set_add x xs) = insert x (set xs)"
  by (auto simp: set_add_def)

lemma new_Set_snoc: "new_Set (xs @ [x]) = set_add x (new_Set xs)"
  by (simp add: new_Set_def)

lemma new_Set_distinct: "distinct (new_Set xs)"
  by (induction xs rule: rev_induct) (simp_all add: new_Set_snoc set_add_distinct, simp add: new_Set_def)

lemma set_new_Set: "set (new_Set xs) = set xs"
  by (induction xs rule: rev_induct) (simp_all add: new_Set_snoc set_set_add, simp add: new_Set_def)

lemma takeWhile_until_last: "b \<notin> set xs \<Longrightarrow> takeWhile (\<lambda>z. z \<noteq> b) (xs @ [b]) = xs"
  by (induction xs) auto

lemma takeWhile_before: "b \<in> set xs \<Longrightarrow> takeWhile (\<lambda>z. z \<noteq> b) (xs @ ys) = takeWhile (\<lambda>z. z \<noteq> b) xs"
  by (induction xs) auto

lemma new_Set_order:
  "b \<in> set xs \<Longrightarrow> set (takeWhile (\<lambda>z. z \<noteq> b) (new_Set xs)) = set (takeWhile (\<lambda>z. z \<noteq> b) xs)"
proof (induction xs rule: rev_induct)
  case Nil
  then show ?case by simp
next
  case (snoc x xs)
  show ?case
  proof (cases "b \<in> set xs")
    case True
    then have b: "b \<in> set (new_Set xs)" by (simp add: set_new_Set)
    have "takeWhile (\<lambda>z. z \<noteq> b) (set_add x (new_Set xs)) = takeWhile (\<lambda>z. z \<noteq> b) (new_Set xs)"
      using b by (simp add: set_add_def takeWhile_before)
    moreover have "takeWhile (\<lambda>z. z \<noteq> b) (xs @ [x]) = takeWhile (\<lambda>z. z \<noteq> b) xs"
      using True by (rule takeWhile_before)
    ultimately show ?thesis using snoc.IH[OF True] by (simp add: new_Set_snoc)
  next
    case False
    with snoc.prems have bx: "b = x" by simp
    from False have nb: "b \<notin> set (new_Set xs)" by (simp add: set_new_Set)
    have "takeWhile (\<lambda>z. z \<noteq> b) (set_add x (new_Set xs)) = new_Set xs"
      using nb bx by (simp add: set_add_def takeWhile_until_last)
    moreover have "takeWhile (\<lambda>z. z \<noteq> b) (xs @ [x]) = xs"
      using False bx by (simp add: takeWhile_until_last)
    ultimately show ?thesis by (simp add: new_Set_snoc set_new_Set)
  qed
qed

subsection \<open>Duplicates in the lists of the plan set\<close>

lemma fnStandardTtc_inject:
  "fnStandardTtc cfg c w wd sl = Inr n \<Longrightarrow> fnStandardTtc cfg c' w wd sl = Inr n \<Longrightarrow> c = c'"
  by (cases cfg) (auto simp: fnStandardTtc_def)

lemma glyf_origin_mono:
  "glyf_origin config sm T cp \<Longrightarrow> T \<subseteq> T' \<Longrightarrow> glyf_origin config sm T' cp"
  unfolding glyf_origin_def by (meson subsetD)

lemma glyf_origin_contents:
  "glyf_origin config sm T (cp\<lparr>ttcContents := a, groupDecomposition := b\<rparr>)
   = glyf_origin config sm T cp"
  by (simp add: glyf_origin_def)

lemma glyf_origin_push:
  assumes inv: "glyf_origin config sm T cp"
    and fresh: "(c, p, s) \<notin> T" and ent: "(s, sfi) \<in> set sm" and keys: "distinct (map fst sm)"
    and nm: "fnStandardTtc (with_widths config) c (weight sfi) (width sfi) (slope sfi) = Inr glyfName"
  shows "glyf_origin config sm (insert (c, p, s) T)
           (cp\<lparr>glyfTtcComposition := obj_push glyfName (p, makeFileName p s) (glyfTtcComposition cp),
               ttcComposition := tc\<rparr>)"
proof -
  from inv have d: "\<And>name parts. map_of (glyfTtcComposition cp) name = Some parts \<Longrightarrow> distinct parts"
    and o: "\<And>name parts dir f. map_of (glyfTtcComposition cp) name = Some parts \<Longrightarrow>
        (dir, f) \<in> set parts \<Longrightarrow>
        \<exists>c' s' sfi'. (c', dir, s') \<in> T \<and> (s', sfi') \<in> set sm \<and> f = makeFileName dir s'
          \<and> fnStandardTtc (with_widths config) c' (weight sfi') (width sfi') (slope sfi') = Inr name"
    unfolding glyf_origin_def by blast+
  have new: "(p, makeFileName p s) \<notin> set old" if old: "map_of (glyfTtcComposition cp) glyfName = Some old"
    for old
  proof
    assume "(p, makeFileName p s) \<in> set old"
    from o[OF old this] obtain c' s' sfi' where t: "(c', p, s') \<in> T" and e: "(s', sfi') \<in> set sm"
      and f: "makeFileName p s = makeFileName p s'"
      and n: "fnStandardTtc (with_widths config) c' (weight sfi') (width sfi') (slope sfi') = Inr glyfName"
      by blast
    from f have ss: "s' = s" by simp
    with e ent keys have "sfi' = sfi" by (auto dest: eq_key_imp_eq_value)
    with n nm have "c' = c" by (auto dest: fnStandardTtc_inject)
    with t ss fresh show False by simp
  qed
  have o': "\<exists>c' s' sfi'. (c', dir, s') \<in> insert (c, p, s) T \<and> (s', sfi') \<in> set sm
          \<and> f = makeFileName dir s'
          \<and> fnStandardTtc (with_widths config) c' (weight sfi') (width sfi') (slope sfi') = Inr name"
    if h: "map_of (obj_push glyfName (p, makeFileName p s) (glyfTtcComposition cp)) name = Some parts"
      "(dir, f) \<in> set parts" for name parts dir f
  proof (cases "name = glyfName \<and> (dir, f) = (p, makeFileName p s)")
    case True
    with ent nm show ?thesis by blast
  next
    case False
    with h have "\<exists>old. map_of (glyfTtcComposition cp) name = Some old \<and> (dir, f) \<in> set old"
      by (auto simp: map_of_obj_push split: option.splits if_splits)
    then obtain old where "map_of (glyfTtcComposition cp) name = Some old" "(dir, f) \<in> set old"
      by blast
    from o[OF this] show ?thesis by blast
  qed
  have d': "distinct parts"
    if h: "map_of (obj_push glyfName (p, makeFileName p s) (glyfTtcComposition cp)) name = Some parts"
    for name parts
  proof (cases "name = glyfName")
    case False
    with h d show ?thesis by (simp add: map_of_obj_push)
  next
    case True
    show ?thesis
    proof (cases "map_of (glyfTtcComposition cp) glyfName")
      case None
      with h True show ?thesis by (auto simp: map_of_obj_push)
    next
      case (Some old)
      with h True have "parts = old @ [(p, makeFileName p s)]" by (simp add: map_of_obj_push)
      with d[OF Some] new[OF Some] show ?thesis by simp
    qed
  qed
  show ?thesis unfolding glyf_origin_def using d' o' by simp
qed

lemma collect_suffixes_origin:
  "collect_suffixes fnStandardTtc config c p tset rest acc = Inr acc' \<Longrightarrow>
   glyf_origin config sm T (fst acc) \<Longrightarrow> set rest \<subseteq> set sm \<Longrightarrow> distinct (map fst rest) \<Longrightarrow>
   distinct (map fst sm) \<Longrightarrow> (\<forall>s \<in> fst ` set rest. (c, p, s) \<notin> T) \<Longrightarrow>
   glyf_origin config sm (T \<union> {c} \<times> {p} \<times> UNIV) (fst acc')"
proof (induction rest arbitrary: acc T)
  case Nil
  then show ?case by (auto intro: glyf_origin_mono)
next
  case (Cons e rest)
  obtain s sfi where e: "e = (s, sfi)" by (cases e)
  from Cons.prems(3,4) e have sub: "set rest \<subseteq> set sm" and ent: "(s, sfi) \<in> set sm"
    and dr: "distinct (map fst rest)" and ns: "s \<notin> fst ` set rest"
    by auto
  show ?case
  proof (cases "makeFileName p s \<in> set tset")
    case False
    with Cons.prems(1) e have
      r: "collect_suffixes fnStandardTtc config c p tset rest acc = Inr acc'"
      by (auto simp: and_then_eq_Inr)
    from Cons.prems(6) have "\<forall>s \<in> fst ` set rest. (c, p, s) \<notin> T" by simp
    from Cons.IH[OF r Cons.prems(2) sub dr Cons.prems(5) this] show ?thesis .
  next
    case True
    with Cons.prems(1) e obtain ttcName glyfName where
      nm: "fnStandardTtc (with_widths config) c (weight sfi) (width sfi) (slope sfi) = Inr glyfName"
      and r: "collect_suffixes fnStandardTtc config c p tset rest
               ((fst acc)\<lparr>glyfTtcComposition :=
                             obj_push glyfName (p, makeFileName p s) (glyfTtcComposition (fst acc)),
                           ttcComposition := obj_push ttcName glyfName (ttcComposition (fst acc))\<rparr>,
                set_add ttcName (snd acc)) = Inr acc'"
      by (auto simp: and_then_eq_Inr)
    from Cons.prems(6) e have fresh: "(c, p, s) \<notin> T" by simp
    have step: "glyf_origin config sm (insert (c, p, s) T)
            ((fst acc)\<lparr>glyfTtcComposition :=
                             obj_push glyfName (p, makeFileName p s) (glyfTtcComposition (fst acc)),
                        ttcComposition := obj_push ttcName glyfName (ttcComposition (fst acc))\<rparr>)"
      using Cons.prems(2) fresh ent Cons.prems(5) nm by (rule glyf_origin_push)
    from Cons.prems(6) ns have later: "\<forall>s' \<in> fst ` set rest. (c, p, s') \<notin> insert (c, p, s) T"
      by auto
    have "glyf_origin config sm (insert (c, p, s) T \<union> {c} \<times> {p} \<times> UNIV) (fst acc')"
      by (rule Cons.IH[OF r _ sub dr Cons.prems(5) later]) (use step in simp)
    moreover have "insert (c, p, s) T \<union> {c} \<times> {p} \<times> UNIV = T \<union> {c} \<times> {p} \<times> UNIV" by auto
    ultimately show ?thesis by simp
  qed
qed

lemma collect_sources_origin:
  "collect_sources need_plan fnStandardTtc config sm c fr acc = Inr acc' \<Longrightarrow>
   glyf_origin config sm T (fst acc) \<Longrightarrow> distinct fr \<Longrightarrow> distinct (map fst sm) \<Longrightarrow>
   (\<forall>p \<in> set fr. \<forall>s. (c, p, s) \<notin> T) \<Longrightarrow>
   glyf_origin config sm (T \<union> {c} \<times> UNIV \<times> UNIV) (fst acc')"
proof (induction fr arbitrary: acc T)
  case Nil
  then show ?case by (auto intro: glyf_origin_mono)
next
  case (Cons p rest)
  from Cons.prems(1) obtain gri acc1 where gri: "need_plan p = Inr gri"
    and s: "collect_suffixes fnStandardTtc config c p (targets gri) sm acc = Inr acc1"
    and r: "collect_sources need_plan fnStandardTtc config sm c rest acc1 = Inr acc'"
    by (auto simp: and_then_eq_Inr)
  from Cons.prems(5) have "\<forall>s \<in> fst ` set sm. (c, p, s) \<notin> T" by simp
  from collect_suffixes_origin[OF s Cons.prems(2) subset_refl Cons.prems(4) Cons.prems(4) this]
  have one: "glyf_origin config sm (T \<union> {c} \<times> {p} \<times> UNIV) (fst acc1)" .
  from Cons.prems(3) have dr: "distinct rest" and np: "p \<notin> set rest" by simp_all
  from Cons.prems(5) np have later: "\<forall>q \<in> set rest. \<forall>s. (c, q, s) \<notin> T \<union> {c} \<times> {p} \<times> UNIV"
    by auto
  from Cons.IH[OF r one dr Cons.prems(4) later]
  have "glyf_origin config sm (T \<union> {c} \<times> {p} \<times> UNIV \<union> {c} \<times> UNIV \<times> UNIV) (fst acc')" .
  moreover have "T \<union> {c} \<times> {p} \<times> UNIV \<union> {c} \<times> UNIV \<times> UNIV = T \<union> {c} \<times> UNIV \<times> UNIV"
    by auto
  ultimately show ?case by simp
qed

lemma collect_loop_origin:
  "collect_loop need_plan fnStandardTtc config sm entries cp = Inr cp' \<Longrightarrow>
   glyf_origin config sm T cp \<Longrightarrow> distinct (map fst entries) \<Longrightarrow> distinct (map fst sm) \<Longrightarrow>
   (\<forall>c collect fr. (c, collect) \<in> set entries \<and> from_list collect = Some fr \<longrightarrow> distinct fr) \<Longrightarrow>
   (\<forall>c \<in> fst ` set entries. \<forall>p s. (c, p, s) \<notin> T) \<Longrightarrow>
   \<exists>T'. glyf_origin config sm T' cp'"
proof (induction entries arbitrary: cp T)
  case Nil
  then show ?case by auto
next
  case (Cons e entries)
  obtain c collect where e: "e = (c, collect)" by (cases e)
  from Cons.prems(3) e have de: "distinct (map fst entries)" and nc: "c \<notin> fst ` set entries"
    by simp_all
  from Cons.prems(5) have fr': "\<forall>c collect fr. (c, collect) \<in> set entries \<and> from_list collect = Some fr
      \<longrightarrow> distinct fr"
    by auto
  from Cons.prems(6) have keep: "\<forall>c \<in> fst ` set entries. \<forall>p s. (c, p, s) \<notin> T" by simp
  show ?case
  proof (cases "from_list collect")
    case None
    with Cons.prems(1) e have "collect_loop need_plan fnStandardTtc config sm entries cp = Inr cp'"
      by simp
    from Cons.IH[OF this Cons.prems(2) de Cons.prems(4) fr' keep] show ?thesis .
  next
    case (Some fr)
    show ?thesis
    proof (cases fr)
      case Nil
      with Cons.prems(1) e Some
      have "collect_loop need_plan fnStandardTtc config sm entries cp = Inr cp'" by simp
      from Cons.IH[OF this Cons.prems(2) de Cons.prems(4) fr' keep] show ?thesis .
    next
      case (Cons p ps)
      with Cons.prems(1) e Some obtain acc where
        s: "collect_sources need_plan fnStandardTtc config sm c (p # ps) (cp, []) = Inr acc"
        and r: "collect_loop need_plan fnStandardTtc config sm entries
                 ((fst acc)\<lparr>ttcContents := obj_set c (snd acc) (ttcContents (fst acc)),
                            groupDecomposition := obj_set c (p # ps) (groupDecomposition (fst acc))\<rparr>)
                = Inr cp'"
        by (auto simp: and_then_eq_Inr)
      from Cons.prems(5)[rule_format, of c collect "p # ps"] e Some Cons
      have dfr: "distinct (p # ps)" by simp
      from Cons.prems(6) e have fresh: "\<forall>q \<in> set (p # ps). \<forall>s. (c, q, s) \<notin> T" by simp
      from collect_sources_origin[OF s _ dfr Cons.prems(4) fresh] Cons.prems(2)
      have "glyf_origin config sm (T \<union> {c} \<times> UNIV \<times> UNIV) (fst acc)" by simp
      then have one: "glyf_origin config sm (T \<union> {c} \<times> UNIV \<times> UNIV)
                 ((fst acc)\<lparr>ttcContents := obj_set c (snd acc) (ttcContents (fst acc)),
                            groupDecomposition := obj_set c (p # ps) (groupDecomposition (fst acc))\<rparr>)"
        by (simp only: glyf_origin_contents)
      from keep nc have later: "\<forall>c' \<in> fst ` set entries. \<forall>p s. (c', p, s) \<notin> T \<union> {c} \<times> UNIV \<times> UNIV"
        by auto
      from Cons.IH[OF r one de Cons.prems(4) fr' later] show ?thesis .
    qed
  qed
qed

lemma getCollectPlans_glyf_distinct:
  assumes "getCollectPlans need_plan (Some entries) sm config fnStandardTtc = Inr cp"
    and "distinct (map fst entries)" and "distinct (map fst sm)"
    and "\<forall>c collect fr. (c, collect) \<in> set entries \<and> from_list collect = Some fr \<longrightarrow> distinct fr"
    and "map_of (glyfTtcComposition cp) name = Some parts"
  shows "distinct parts"
proof -
  have start: "glyf_origin config sm {}
      \<lparr>glyfTtcComposition = [], ttcComposition = [], ttcContents = [], groupDecomposition = []\<rparr>"
    by (simp add: glyf_origin_def)
  from assms(1) have "collect_loop need_plan fnStandardTtc config sm entries
      \<lparr>glyfTtcComposition = [], ttcComposition = [], ttcContents = [], groupDecomposition = []\<rparr> = Inr cp"
    by (simp add: getCollectPlans_def)
  from collect_loop_origin[OF this start assms(2,3,4)] obtain T where "glyf_origin config sm T cp"
    by auto
  with assms(5) show ?thesis unfolding glyf_origin_def by blast
qed

lemma repeated_source_result: "CollectPlans repeated_source = Inr repeated_source_plans"
proof -
  have src: "BuildPlanOf repeated_source ''sans''
       = Inr ((plan_with (Some scenario_weights))
                \<lparr>bp_slopes := Some scenario_slopes,
                 bp_widths := Some scenario_widths, targets := [''sans-regular'']\<rparr>)"
    by (simp add: plans_eval BuildPlanOf_def repeated_source_def)
  have sm: "StandardSuffixes repeated_source = Inr
      [(''regular'',
        \<lparr>weight = ''regular'', shapeWeight = 400, cssWeight = 400, menuWeight = 400,
         width = ''normal'', shapeWidth = 500, cssStretch = Str ''normal'', menuWidth = 5,
         slope = ''upright'', cssStyle = Str ''normal'', menuSlope = Str ''normal''\<rparr>)]"
    by (simp add: plans_eval StandardSuffixes_def repeated_source_def)
  have raw: "collectPlans repeated_source = Some [(''twice'', \<lparr>from_list = Some [''sans'', ''sans'']\<rparr>)]"
    and cfg: "collectConfig repeated_source
                = Some \<lparr>distinguishWeights = False, distinguishWidths = False, distinguishSlope = False\<rparr>"
    by (simp_all add: repeated_source_def)
  have cp: "getCollectPlans (BuildPlanOf repeated_source) (collectPlans repeated_source)
              [(''regular'',
        \<lparr>weight = ''regular'', shapeWeight = 400, cssWeight = 400, menuWeight = 400,
         width = ''normal'', shapeWidth = 500, cssStretch = Str ''normal'', menuWidth = 5,
         slope = ''upright'', cssStyle = Str ''normal'', menuSlope = Str ''normal''\<rparr>)]
              (collectConfig repeated_source) fnStandardTtc = Inr repeated_source_plans"
    unfolding getCollectPlans_def
    by (simp add: src raw cfg repeated_source_plans_def fnStandardTtc_def
        with_widths_def obj_push_def set_add_def obj_set_def array_index_def makeSuffix_def
        makeFileName_def plan_with_def WIDTH_NORMAL_def WEIGHT_NORMAL_def SLOPE_NORMAL_def
        DEFAULT_SUBFAMILY_def)
  show ?thesis by (simp add: CollectPlans_def sm cp)
qed

text \<open>
  Claim C7, as the code has it. The lists the planner returns can hold equal entries. For
  the collection \<^verbatim>\<open>both\<close> of the example, two plans and no axis distinguished, the list of
  \<^verbatim>\<open>ttcComposition\<close> for \<^verbatim>\<open>both-regular\<close> holds the same name three times. For the
  collection \<^verbatim>\<open>twice\<close>, which names the source \<^verbatim>\<open>sans\<close> twice, the list of
  \<^verbatim>\<open>glyfTtcComposition\<close> for \<^verbatim>\<open>twice-regular\<close> holds the pair of \<^verbatim>\<open>sans\<close> and
  \<^verbatim>\<open>sans-regular\<close> two times.
\<close>

theorem planner_lists_distinct_counterexample:
  "CollectPlans sparse_collection = Inr sparse_collection_plans
   \<and> map_of (ttcComposition sparse_collection_plans) ''both-regular''
       = Some [''both-regular'', ''both-regular'', ''both-regular'']
   \<and> \<not> distinct [''both-regular'', ''both-regular'', ''both-regular'']
   \<and> CollectPlans repeated_source = Inr repeated_source_plans
   \<and> map_of (glyfTtcComposition repeated_source_plans) ''twice-regular''
       = Some [(''sans'', ''sans-regular''), (''sans'', ''sans-regular'')]
   \<and> \<not> distinct [(''sans'', ''sans-regular''), (''sans'', ''sans-regular'')]"
  using sparse_collection_result repeated_source_result
  by (simp add: sparse_collection_plans_def repeated_source_plans_def)

text \<open>
  Claim C7, amended. With the standard naming function, a list of \<^verbatim>\<open>glyfTtcComposition\<close> in
  the planner's output holds no two equal pairs when no collection names the same source
  twice in its array \<^verbatim>\<open>from\<close> (the keys of the collections and of the suffix mapping are
  distinct, as the keys of an object are); \<^verbatim>\<open>glyfTtc\<close> takes that list as it is. The
  duplicates of a list of \<^verbatim>\<open>ttcComposition\<close> are removed when \<^verbatim>\<open>ExportTtcFile\<close> reads it: the
  constituents it requests for a container are the entries of the container's list, each
  once, in the order of their first insertion (what stands before an entry among the
  constituents is what stands before its first occurrence in the list); for a container
  without a list it requests nothing.
\<close>

theorem composition_lists_deduplicated:
  "(getCollectPlans need_plan (Some entries) suffixMapping config fnStandardTtc = Inr cp
      \<and> distinct (map fst entries) \<and> distinct (map fst suffixMapping)
      \<and> (\<forall>c collect fr. (c, collect) \<in> set entries \<and> from_list collect = Some fr \<longrightarrow> distinct fr)
      \<and> map_of (glyfTtcComposition cp) name = Some parts \<longrightarrow>
      distinct parts \<and> glyfTtc_parts cp name = Some parts)
   \<and> (map_of (ttcComposition cp) f = Some gs \<longrightarrow>
      distinct (ExportTtcFile_parts cp f)
    \<and> set (ExportTtcFile_parts cp f) = set gs
    \<and> (\<forall>b \<in> set gs. set (takeWhile (\<lambda>z. z \<noteq> b) (ExportTtcFile_parts cp f))
                       = set (takeWhile (\<lambda>z. z \<noteq> b) gs)))
   \<and> (map_of (ttcComposition cp) f = None \<longrightarrow> ExportTtcFile_parts cp f = [])"
proof (intro conjI impI)
  assume a: "getCollectPlans need_plan (Some entries) suffixMapping config fnStandardTtc = Inr cp
      \<and> distinct (map fst entries) \<and> distinct (map fst suffixMapping)
      \<and> (\<forall>c collect fr. (c, collect) \<in> set entries \<and> from_list collect = Some fr \<longrightarrow> distinct fr)
      \<and> map_of (glyfTtcComposition cp) name = Some parts"
  then show "distinct parts" by (intro getCollectPlans_glyf_distinct[of need_plan entries suffixMapping config cp name parts]) simp_all
  from a show "glyfTtc_parts cp name = Some parts" by (simp add: glyfTtc_parts_def)
next
  assume "map_of (ttcComposition cp) f = Some gs"
  then show "distinct (ExportTtcFile_parts cp f)" "set (ExportTtcFile_parts cp f) = set gs"
    "\<forall>b \<in> set gs. set (takeWhile (\<lambda>z. z \<noteq> b) (ExportTtcFile_parts cp f))
                       = set (takeWhile (\<lambda>z. z \<noteq> b) gs)"
    by (simp_all add: ExportTtcFile_parts_def new_Set_distinct set_new_Set new_Set_order)
next
  assume "map_of (ttcComposition cp) f = None"
  then show "ExportTtcFile_parts cp f = []" by (simp add: ExportTtcFile_parts_def new_Set_def)
qed

theorem composition_lists_deduplicated_witness:
  "getCollectPlans (BuildPlanOf sparse_collection)
     (Some [(''both'', \<lparr>from_list = Some [''sans'', ''mono'']\<rparr>)])
     [(''regular'',
        \<lparr>weight = ''regular'', shapeWeight = 400, cssWeight = 400, menuWeight = 400,
         width = ''normal'', shapeWidth = 500, cssStretch = Str ''normal'', menuWidth = 5,
         slope = ''upright'', cssStyle = Str ''normal'', menuSlope = Str ''normal''\<rparr>),
       (''italic'',
        \<lparr>weight = ''regular'', shapeWeight = 400, cssWeight = 400, menuWeight = 400,
         width = ''normal'', shapeWidth = 500, cssStretch = Str ''normal'', menuWidth = 5,
         slope = ''italic'', cssStyle = Str ''italic'', menuSlope = Str ''italic''\<rparr>)]
     (Some \<lparr>distinguishWeights = False, distinguishWidths = False, distinguishSlope = False\<rparr>)
     fnStandardTtc = Inr sparse_collection_plans
   \<and> distinct (map fst [(''both'', \<lparr>from_list = Some [''sans'', ''mono'']\<rparr>)])
   \<and> distinct [''regular'', ''italic''] \<and> distinct [''sans'', ''mono'']
   \<and> map_of (glyfTtcComposition sparse_collection_plans) ''both-regular''
       = Some [(''sans'', ''sans-regular''), (''sans'', ''sans-italic''), (''mono'', ''mono-regular'')]
   \<and> distinct [(''sans'', ''sans-regular''), (''sans'', ''sans-italic''), (''mono'', ''mono-regular'')]
   \<and> glyfTtc_parts sparse_collection_plans ''both-regular''
       = Some [(''sans'', ''sans-regular''), (''sans'', ''sans-italic''), (''mono'', ''mono-regular'')]
   \<and> map_of (ttcComposition sparse_collection_plans) ''both-regular''
       = Some [''both-regular'', ''both-regular'', ''both-regular'']
   \<and> ExportTtcFile_parts sparse_collection_plans ''both-regular'' = [''both-regular'']
   \<and> map_of (ttcComposition (sparse_collection_plans\<lparr>ttcComposition := [(''x'', [''b'', ''a'', ''b'', ''c'', ''a''])]\<rparr>)) ''x''
       = Some [''b'', ''a'', ''b'', ''c'', ''a'']
   \<and> ExportTtcFile_parts (sparse_collection_plans\<lparr>ttcComposition := [(''x'', [''b'', ''a'', ''b'', ''c'', ''a''])]\<rparr>) ''x''
       = [''b'', ''a'', ''c'']
   \<and> map_of (ttcComposition sparse_collection_plans) ''none'' = None
   \<and> ExportTtcFile_parts sparse_collection_plans ''none'' = []"
proof -
  have sm: "StandardSuffixes sparse_collection = Inr
      [(''regular'',
        \<lparr>weight = ''regular'', shapeWeight = 400, cssWeight = 400, menuWeight = 400,
         width = ''normal'', shapeWidth = 500, cssStretch = Str ''normal'', menuWidth = 5,
         slope = ''upright'', cssStyle = Str ''normal'', menuSlope = Str ''normal''\<rparr>),
       (''italic'',
        \<lparr>weight = ''regular'', shapeWeight = 400, cssWeight = 400, menuWeight = 400,
         width = ''normal'', shapeWidth = 500, cssStretch = Str ''normal'', menuWidth = 5,
         slope = ''italic'', cssStyle = Str ''italic'', menuSlope = Str ''italic''\<rparr>)]"
    by (simp add: plans_eval StandardSuffixes_def sparse_collection_def)
  have raw: "collectPlans sparse_collection = Some [(''both'', \<lparr>from_list = Some [''sans'', ''mono'']\<rparr>)]"
    and cfg: "collectConfig sparse_collection
                = Some \<lparr>distinguishWeights = False, distinguishWidths = False, distinguishSlope = False\<rparr>"
    by (simp_all add: sparse_collection_def)
  from sparse_collection_result have run: "getCollectPlans (BuildPlanOf sparse_collection)
     (Some [(''both'', \<lparr>from_list = Some [''sans'', ''mono'']\<rparr>)])
     [(''regular'',
        \<lparr>weight = ''regular'', shapeWeight = 400, cssWeight = 400, menuWeight = 400,
         width = ''normal'', shapeWidth = 500, cssStretch = Str ''normal'', menuWidth = 5,
         slope = ''upright'', cssStyle = Str ''normal'', menuSlope = Str ''normal''\<rparr>),
       (''italic'',
        \<lparr>weight = ''regular'', shapeWeight = 400, cssWeight = 400, menuWeight = 400,
         width = ''normal'', shapeWidth = 500, cssStretch = Str ''normal'', menuWidth = 5,
         slope = ''italic'', cssStyle = Str ''italic'', menuSlope = Str ''italic''\<rparr>)]
     (Some \<lparr>distinguishWeights = False, distinguishWidths = False, distinguishSlope = False\<rparr>)
     fnStandardTtc = Inr sparse_collection_plans"
    by (simp add: CollectPlans_def sm raw cfg)
  have froms: "\<forall>c collect fr. (c, collect) \<in> set [(''both'', \<lparr>from_list = Some [''sans'', ''mono'']\<rparr>)]
      \<and> from_list collect = Some fr \<longrightarrow> distinct fr"
    by auto
  have glyf: "map_of (glyfTtcComposition sparse_collection_plans) ''both-regular''
       = Some [(''sans'', ''sans-regular''), (''sans'', ''sans-italic''), (''mono'', ''mono-regular'')]"
    by (simp add: sparse_collection_plans_def)
  have ttc: "map_of (ttcComposition sparse_collection_plans) ''both-regular''
       = Some [''both-regular'', ''both-regular'', ''both-regular'']"
    "map_of (ttcComposition sparse_collection_plans) ''none'' = None"
    by (simp_all add: sparse_collection_plans_def)
  note t1 = composition_lists_deduplicated[where need_plan = "BuildPlanOf sparse_collection"
      and entries = "[(''both'', \<lparr>from_list = Some [''sans'', ''mono'']\<rparr>)]"
      and config = "Some \<lparr>distinguishWeights = False, distinguishWidths = False, distinguishSlope = False\<rparr>"
      and cp = sparse_collection_plans and name = "''both-regular''"
      and parts = "[(''sans'', ''sans-regular''), (''sans'', ''sans-italic''), (''mono'', ''mono-regular'')]"
      and f = "''both-regular''" and gs = "[''both-regular'', ''both-regular'', ''both-regular'']"
      and suffixMapping = "[(''regular'',
        \<lparr>weight = ''regular'', shapeWeight = 400, cssWeight = 400, menuWeight = 400,
         width = ''normal'', shapeWidth = 500, cssStretch = Str ''normal'', menuWidth = 5,
         slope = ''upright'', cssStyle = Str ''normal'', menuSlope = Str ''normal''\<rparr>),
       (''italic'',
        \<lparr>weight = ''regular'', shapeWeight = 400, cssWeight = 400, menuWeight = 400,
         width = ''normal'', shapeWidth = 500, cssStretch = Str ''normal'', menuWidth = 5,
         slope = ''italic'', cssStyle = Str ''italic'', menuSlope = Str ''italic''\<rparr>)]"]
  from t1 run froms glyf
  have g: "distinct [(''sans'', ''sans-regular''), (''sans'', ''sans-italic''), (''mono'', ''mono-regular'')]
      \<and> glyfTtc_parts sparse_collection_plans ''both-regular''
       = Some [(''sans'', ''sans-regular''), (''sans'', ''sans-italic''), (''mono'', ''mono-regular'')]"
    by simp
  have e: "ExportTtcFile_parts sparse_collection_plans ''both-regular'' = [''both-regular'']"
    "ExportTtcFile_parts (sparse_collection_plans\<lparr>ttcComposition := [(''x'', [''b'', ''a'', ''b'', ''c'', ''a''])]\<rparr>) ''x''
       = [''b'', ''a'', ''c'']"
    "ExportTtcFile_parts sparse_collection_plans ''none'' = []"
    by (simp_all add: sparse_collection_plans_def ExportTtcFile_parts_def new_Set_def set_add_def)
  show ?thesis using run g glyf ttc e by simp
qed

subsection \<open>The legacy width grades\<close>

lemma sqrt_grade_bounds:
  "10733 / 10000 < sqrt (576 / 500 :: real)" "sqrt (576 / 500 :: real) < 10734 / 10000"
proof -
  have "sqrt ((10733 / 10000 :: real)^2) < sqrt (576 / 500)"
    by (rule real_sqrt_less_mono) (simp add: power2_eq_square)
  then show "10733 / 10000 < sqrt (576 / 500 :: real)" by simp
  have "sqrt (576 / 500) < sqrt ((10734 / 10000 :: real)^2)"
    by (rule real_sqrt_less_mono) (simp add: power2_eq_square)
  then show "sqrt (576 / 500 :: real) < 10734 / 10000" by simp
qed

lemma sqrt_grade_square: "sqrt (576 / 500 :: real) * sqrt (576 / 500) = 576 / 500"
  by simp

lemma round_between:
  fixes x :: real
  assumes "of_int z - 1 / 2 < x" "x < of_int z + 1 / 2"
  shows "round x = z"
  using assms by (intro round_unique) simp_all

lemma grade_powr:
  fixes s :: real
  assumes "0 < s"
  shows "s powr (3 - 5) = 1 / (s * s)" "s powr (4 - 5) = 1 / s" "s powr (5 - 5) = 1"
    "s powr (6 - 5) = s" "s powr (7 - 5) = s * s" "s powr (8 - 5) = s * s * s"
    "s powr (9 - 5) = (s * s) * (s * s)"
proof -
  have m1: "s powr (-1) = 1 / s" using assms by (simp add: powr_minus_divide)
  have m2: "s powr (-2) = 1 / (s * s)"
    using assms by (simp add: powr_minus_divide power2_eq_square)
  show "s powr (3 - 5) = 1 / (s * s)" using m2 by simp
  show "s powr (4 - 5) = 1 / s" using m1 by simp
  show "s powr (5 - 5) = 1" using assms by simp
  show "s powr (6 - 5) = s" using assms by simp
  show "s powr (7 - 5) = s * s" using assms by (simp add: power2_eq_square)
  show "s powr (8 - 5) = s * s * s" using assms by (simp add: power3_eq_cube)
  show "s powr (9 - 5) = (s * s) * (s * s)" using assms by (simp add: power4_eq_xxxx)
qed

text \<open>
  The unit widths of the seven grades, also for a power that is only close to the real one:
  the numbers the formula rounds are far from a half, so an error of a hundredth in
  \<^verbatim>\<open>Math.pow\<close> and \<^verbatim>\<open>Math.sqrt\<close>, many orders above that of double arithmetic, does not change
  them.
\<close>

lemma grade_bounds:
  "434 - 4 / 10 < 500 * (sqrt (576 / 500)) powr (3 - 5)" "500 * (sqrt (576 / 500)) powr (3 - 5) < 434 + 4 / 10"
  "466 - 4 / 10 < 500 * (sqrt (576 / 500)) powr (4 - 5)" "500 * (sqrt (576 / 500)) powr (4 - 5) < 466 + 4 / 10"
  "500 * (sqrt (576 / 500)) powr (5 - 5) = 500"
  "537 - 4 / 10 < 500 * (sqrt (576 / 500)) powr (6 - 5)" "500 * (sqrt (576 / 500)) powr (6 - 5) < 537 + 4 / 10"
  "500 * (sqrt (576 / 500)) powr (7 - 5) = 576"
  "618 - 4 / 10 < 500 * (sqrt (576 / 500)) powr (8 - 5)" "500 * (sqrt (576 / 500)) powr (8 - 5) < 618 + 4 / 10"
  "664 - 46 / 100 < 500 * (sqrt (576 / 500)) powr (9 - 5)" "500 * (sqrt (576 / 500)) powr (9 - 5) < 664 + 4 / 10"
proof -
  define s :: real where "s = sqrt (576 / 500)"
  have pos: "0 < s" and lo: "10733 / 10000 < s" and hi: "s < 10734 / 10000"
    and sq: "s * s = 576 / 500"
    using sqrt_grade_bounds sqrt_grade_square by (simp_all add: s_def)
  have e3: "500 * s powr (3 - 5) = 500 / (576 / 500)"
    unfolding grade_powr(1)[OF pos] sq by simp
  have e4: "500 * s powr (4 - 5) = 500 / s"
    unfolding grade_powr(2)[OF pos] by simp
  have e5: "500 * s powr (5 - 5) = 500"
    unfolding grade_powr(3)[OF pos] by simp
  have e6: "500 * s powr (6 - 5) = 500 * s"
    unfolding grade_powr(4)[OF pos] by simp
  have e7: "500 * s powr (7 - 5) = 576"
    unfolding grade_powr(5)[OF pos] sq by simp
  have e8: "500 * s powr (8 - 5) = 576 * s"
    unfolding grade_powr(6)[OF pos] sq by simp
  have e9: "500 * s powr (9 - 5) = 500 * ((576 / 500) * (576 / 500))"
    unfolding grade_powr(7)[OF pos] sq by simp
  show "434 - 4 / 10 < 500 * (sqrt (576 / 500)) powr (3 - 5)"
    "500 * (sqrt (576 / 500)) powr (3 - 5) < 434 + 4 / 10"
    unfolding s_def[symmetric] e3 by simp_all
  show "466 - 4 / 10 < 500 * (sqrt (576 / 500)) powr (4 - 5)"
    "500 * (sqrt (576 / 500)) powr (4 - 5) < 466 + 4 / 10"
    unfolding s_def[symmetric] e4 using pos lo hi by (simp_all add: field_simps)
  show "500 * (sqrt (576 / 500)) powr (5 - 5) = 500"
    unfolding s_def[symmetric] e5 by simp
  show "537 - 4 / 10 < 500 * (sqrt (576 / 500)) powr (6 - 5)"
    "500 * (sqrt (576 / 500)) powr (6 - 5) < 537 + 4 / 10"
    unfolding s_def[symmetric] e6 using lo hi by simp_all
  show "500 * (sqrt (576 / 500)) powr (7 - 5) = 576"
    unfolding s_def[symmetric] e7 by simp
  show "618 - 4 / 10 < 500 * (sqrt (576 / 500)) powr (8 - 5)"
    "500 * (sqrt (576 / 500)) powr (8 - 5) < 618 + 4 / 10"
    unfolding s_def[symmetric] e8 using lo hi by simp_all
  show "664 - 46 / 100 < 500 * (sqrt (576 / 500)) powr (9 - 5)"
    "500 * (sqrt (576 / 500)) powr (9 - 5) < 664 + 4 / 10"
    unfolding s_def[symmetric] e9 by simp_all
qed

lemma near_round:
  fixes y v :: real
  assumes "\<bar>y - v\<bar> \<le> 1 / 100" "of_int z - 46 / 100 \<le> v" "v \<le> of_int z + 4 / 10"
  shows "round y = z"
  using assms by (intro round_between) linarith+

lemma grade_values_stable:
  fixes y :: real
  assumes "3 \<le> i" "i \<le> 9" "\<bar>y - 500 * (sqrt (576 / 500)) powr (of_int i - 5)\<bar> \<le> 1 / 100"
  shows "round y = [434, 466, 500, 537, 576, 618, 664] ! nat (i - 3)"
proof -
  from assms(1,2) consider "i = 3" | "i = 4" | "i = 5" | "i = 6" | "i = 7" | "i = 8" | "i = 9"
    by linarith
  then show ?thesis
  proof cases
    case 1
    have "round y = 434"
    proof (rule near_round)
      show "\<bar>y - 500 * (sqrt (576 / 500)) powr (3 - 5)\<bar> \<le> 1 / 100"
        using assms(3) 1 by simp
      show "of_int 434 - 46 / 100 \<le> 500 * (sqrt (576 / 500)) powr (3 - 5)"
        using grade_bounds(1,2) by simp
      show "500 * (sqrt (576 / 500)) powr (3 - 5) \<le> of_int 434 + 4 / 10"
        using grade_bounds(1,2) by simp
    qed
    with 1 show ?thesis by simp
  next
    case 2
    have "round y = 466"
    proof (rule near_round)
      show "\<bar>y - 500 * (sqrt (576 / 500)) powr (4 - 5)\<bar> \<le> 1 / 100"
        using assms(3) 2 by simp
      show "of_int 466 - 46 / 100 \<le> 500 * (sqrt (576 / 500)) powr (4 - 5)"
        using grade_bounds(3,4) by simp
      show "500 * (sqrt (576 / 500)) powr (4 - 5) \<le> of_int 466 + 4 / 10"
        using grade_bounds(3,4) by simp
    qed
    with 2 show ?thesis by simp
  next
    case 3
    have "round y = 500"
    proof (rule near_round)
      show "\<bar>y - 500 * (sqrt (576 / 500)) powr (5 - 5)\<bar> \<le> 1 / 100"
        using assms(3) 3 by simp
      show "of_int 500 - 46 / 100 \<le> 500 * (sqrt (576 / 500)) powr (5 - 5)"
        using grade_bounds(5) by simp
      show "500 * (sqrt (576 / 500)) powr (5 - 5) \<le> of_int 500 + 4 / 10"
        using grade_bounds(5) by simp
    qed
    with 3 show ?thesis by simp
  next
    case 4
    have "round y = 537"
    proof (rule near_round)
      show "\<bar>y - 500 * (sqrt (576 / 500)) powr (6 - 5)\<bar> \<le> 1 / 100"
        using assms(3) 4 by simp
      show "of_int 537 - 46 / 100 \<le> 500 * (sqrt (576 / 500)) powr (6 - 5)"
        using grade_bounds(6,7) by simp
      show "500 * (sqrt (576 / 500)) powr (6 - 5) \<le> of_int 537 + 4 / 10"
        using grade_bounds(6,7) by simp
    qed
    with 4 show ?thesis by simp
  next
    case 5
    have "round y = 576"
    proof (rule near_round)
      show "\<bar>y - 500 * (sqrt (576 / 500)) powr (7 - 5)\<bar> \<le> 1 / 100"
        using assms(3) 5 by simp
      show "of_int 576 - 46 / 100 \<le> 500 * (sqrt (576 / 500)) powr (7 - 5)"
        using grade_bounds(8) by simp
      show "500 * (sqrt (576 / 500)) powr (7 - 5) \<le> of_int 576 + 4 / 10"
        using grade_bounds(8) by simp
    qed
    with 5 show ?thesis by simp
  next
    case 6
    have "round y = 618"
    proof (rule near_round)
      show "\<bar>y - 500 * (sqrt (576 / 500)) powr (8 - 5)\<bar> \<le> 1 / 100"
        using assms(3) 6 by simp
      show "of_int 618 - 46 / 100 \<le> 500 * (sqrt (576 / 500)) powr (8 - 5)"
        using grade_bounds(9,10) by simp
      show "500 * (sqrt (576 / 500)) powr (8 - 5) \<le> of_int 618 + 4 / 10"
        using grade_bounds(9,10) by simp
    qed
    with 6 show ?thesis by simp
  next
    case 7
    have "round y = 664"
    proof (rule near_round)
      show "\<bar>y - 500 * (sqrt (576 / 500)) powr (9 - 5)\<bar> \<le> 1 / 100"
        using assms(3) 7 by simp
      show "of_int 664 - 46 / 100 \<le> 500 * (sqrt (576 / 500)) powr (9 - 5)"
        using grade_bounds(11,12) by simp
      show "500 * (sqrt (576 / 500)) powr (9 - 5) \<le> of_int 664 + 4 / 10"
        using grade_bounds(11,12) by simp
    qed
    with 7 show ?thesis by simp
  qed
qed

lemma grade_values:
  "round (500 * (sqrt (576 / 500)) powr (3 - 5)) = 434"
  "round (500 * (sqrt (576 / 500)) powr (4 - 5)) = 466"
  "round (500 * (sqrt (576 / 500)) powr (5 - 5)) = 500"
  "round (500 * (sqrt (576 / 500)) powr (6 - 5)) = 537"
  "round (500 * (sqrt (576 / 500)) powr (7 - 5)) = 576"
  "round (500 * (sqrt (576 / 500)) powr (8 - 5)) = 618"
  "round (500 * (sqrt (576 / 500)) powr (9 - 5)) = 664"
  using grade_values_stable[of 3 "500 * (sqrt (576 / 500)) powr (3 - 5)"]
    grade_values_stable[of 4 "500 * (sqrt (576 / 500)) powr (4 - 5)"]
    grade_values_stable[of 5 "500 * (sqrt (576 / 500)) powr (5 - 5)"]
    grade_values_stable[of 6 "500 * (sqrt (576 / 500)) powr (6 - 5)"]
    grade_values_stable[of 7 "500 * (sqrt (576 / 500)) powr (7 - 5)"]
    grade_values_stable[of 8 "500 * (sqrt (576 / 500)) powr (8 - 5)"]
    grade_values_stable[of 9 "500 * (sqrt (576 / 500)) powr (9 - 5)"]
  by simp_all

lemma xCorrected_of_int:
  "xCorrected_of inexact (of_int i) = of_int (round (500 * (sqrt (576 / 500)) powr (of_int i - 5)))"
  by (simp add: xCorrected_of_def)

lemma fix_outside: "x < 3 \<or> 9 < x \<Longrightarrow> VlShapeWidth_fix inexact st x = (x, st)"
  by (auto simp: VlShapeWidth_fix_def)

lemma fix_cached:
  "3 \<le> x \<Longrightarrow> x \<le> 9 \<Longrightarrow> g_widthFixupMemory st x = Some v \<Longrightarrow>
   VlShapeWidth_fix inexact st x = (v, st)"
  by (simp add: VlShapeWidth_fix_def)

lemma fix_fresh:
  "3 \<le> x \<Longrightarrow> x \<le> 9 \<Longrightarrow> g_widthFixupMemory st x = None \<Longrightarrow>
   VlShapeWidth_fix inexact st x =
     (xCorrected_of inexact x,
      st\<lparr>warned := warned st @ [(x, xCorrected_of inexact x)],
         g_widthFixupMemory := (g_widthFixupMemory st)(x \<mapsto> xCorrected_of inexact x)\<rparr>)"
  by (simp add: VlShapeWidth_fix_def Let_def)

lemma fix_memory_after:
  "3 \<le> x \<Longrightarrow> x \<le> 9 \<Longrightarrow>
   g_widthFixupMemory (snd (VlShapeWidth_fix inexact st x)) x = Some (fst (VlShapeWidth_fix inexact st x))"
  by (cases "g_widthFixupMemory st x") (simp_all add: fix_fresh fix_cached)

lemma fix_memory_kept:
  "g_widthFixupMemory st x = Some v \<Longrightarrow>
   g_widthFixupMemory (snd (VlShapeWidth_fix inexact st y)) x = Some v"
  by (auto simp: VlShapeWidth_fix_def Let_def split: option.splits)

lemma fix_calls_memory_kept:
  "g_widthFixupMemory st x = Some v \<Longrightarrow> g_widthFixupMemory (fix_calls inexact st ys) x = Some v"
  by (induction ys arbitrary: st) (simp_all add: fix_memory_kept)

lemma fix_memory_dom:
  "g_widthFixupMemory (snd (VlShapeWidth_fix inexact st y)) x = Some v \<Longrightarrow>
   x = y \<or> g_widthFixupMemory st x = Some v"
  by (auto simp: VlShapeWidth_fix_def Let_def split: option.splits if_splits)

lemma fix_calls_memory_dom:
  "g_widthFixupMemory (fix_calls inexact st ys) x = Some v \<Longrightarrow>
   x \<in> set ys \<or> g_widthFixupMemory st x = Some v"
proof (induction ys arbitrary: st)
  case Nil
  then show ?case by simp
next
  case (Cons y ys)
  from Cons.IH[of "snd (VlShapeWidth_fix inexact st y)"] Cons.prems
  show ?case by (auto dest: fix_memory_dom)
qed

lemma memory_sound_start: "memory_sound inexact process_start"
  by (simp add: memory_sound_def process_start_def)

lemma memory_sound_fix:
  "memory_sound inexact st \<Longrightarrow> memory_sound inexact (snd (VlShapeWidth_fix inexact st x))"
  by (auto simp: memory_sound_def VlShapeWidth_fix_def Let_def split: option.splits)

lemma memory_sound_calls:
  "memory_sound inexact st \<Longrightarrow> memory_sound inexact (fix_calls inexact st xs)"
  by (induction xs arbitrary: st) (simp_all add: memory_sound_fix)

lemma fix_value:
  "memory_sound inexact st \<Longrightarrow> 3 \<le> x \<Longrightarrow> x \<le> 9 \<Longrightarrow>
   fst (VlShapeWidth_fix inexact st x) = xCorrected_of inexact x"
  by (auto simp: memory_sound_def VlShapeWidth_fix_def Let_def split: option.splits)

lemma fix_value_int:
  assumes "memory_sound inexact st" "3 \<le> i" "i \<le> 9"
  shows "fst (VlShapeWidth_fix inexact st (of_int i))
         = of_int (round (500 * (sqrt (576 / 500)) powr (of_int i - 5)))"
proof -
  from assms(2,3) have "(3::real) \<le> of_int i" "of_int i \<le> (9::real)" by simp_all
  from fix_value[OF assms(1) this] show ?thesis by (simp only: xCorrected_of_int)
qed

lemma fix_grade_table:
  assumes "memory_sound inexact st" "3 \<le> i" "i \<le> 9"
  shows "fst (VlShapeWidth_fix inexact st (of_int i))
         = of_int ([434, 466, 500, 537, 576, 618, 664] ! nat (i - 3))"
proof -
  have "round (500 * (sqrt (576 / 500)) powr (of_int i - 5))
        = [434, 466, 500, 537, 576, 618, 664] ! nat (i - 3)"
    using assms(2,3) by (intro grade_values_stable) simp_all
  with fix_value_int[OF assms] show ?thesis by simp
qed

lemma grade_table_mono:
  "3 \<le> i \<Longrightarrow> i < j \<Longrightarrow> j \<le> 9 \<Longrightarrow>
   ([434, 466, 500, 537, 576, 618, 664] ! nat (i - 3) :: int) < [434, 466, 500, 537, 576, 618, 664] ! nat (j - 3)"
proof -
  assume a: "3 \<le> i" "i < j" "j \<le> 9"
  then consider "i = 3" | "i = 4" | "i = 5" | "i = 6" | "i = 7" | "i = 8" by linarith
  then show ?thesis
  proof cases
    case 1
    with a consider "j = 4" | "j = 5" | "j = 6" | "j = 7" | "j = 8" | "j = 9" by linarith
    then show ?thesis using 1 by cases simp_all
  next
    case 2
    with a consider "j = 5" | "j = 6" | "j = 7" | "j = 8" | "j = 9" by linarith
    then show ?thesis using 2 by cases simp_all
  next
    case 3
    with a consider "j = 6" | "j = 7" | "j = 8" | "j = 9" by linarith
    then show ?thesis using 3 by cases simp_all
  next
    case 4
    with a consider "j = 7" | "j = 8" | "j = 9" by linarith
    then show ?thesis using 4 by cases simp_all
  next
    case 5
    with a consider "j = 8" | "j = 9" by linarith
    then show ?thesis using 5 by cases simp_all
  next
    case 6
    with a have "j = 9" by linarith
    then show ?thesis using 6 by simp
  qed
qed

lemma distinct_keys_filter:
  "distinct (map fst ws) \<Longrightarrow> length (filter (\<lambda>w. fst w = x) ws) \<le> 1"
proof (induction ws)
  case Nil
  then show ?case by simp
next
  case (Cons w ws)
  show ?case
  proof (cases "fst w = x")
    case True
    with Cons.prems have "x \<notin> fst ` set ws" by auto
    then have "filter (\<lambda>w. fst w = x) ws = []" by (auto simp: filter_empty_conv)
    with True show ?thesis by simp
  next
    case False
    with Cons show ?thesis by simp
  qed
qed

text \<open>
  Claim C5. In every state the process can reach by calls of \<^verbatim>\<open>VlShapeWidth.fix\<close>, and
  whatever the arithmetic of the runtime gives at the grades that are not integers, the
  call returns 500 for the grade 5 and \<open>round (500 * (sqrt (576/500))^4)\<close>, which is 664,
  for the grade 9; over the integer grades 3 to 9 it is strictly increasing (whatever the
  two states the calls are made in), in particular \<open>fix 3 < fix 5 < fix 9\<close>; and a number
  below 3 or above 9 is returned as it is, with the state unchanged.
\<close>

theorem width_grade_fixup_values:
  fixes xs ys :: "real list" and x :: real and i j :: int and inexact :: "real \<Rightarrow> real"
  defines "st \<equiv> fix_calls inexact process_start xs"
    and "st' \<equiv> fix_calls inexact process_start ys"
  shows "fst (VlShapeWidth_fix inexact st 5) = 500
       \<and> fst (VlShapeWidth_fix inexact st 9) = of_int (round (500 * (sqrt (576 / 500)) ^ 4))
       \<and> fst (VlShapeWidth_fix inexact st 9) = 664
       \<and> fst (VlShapeWidth_fix inexact st 3) < fst (VlShapeWidth_fix inexact st 5)
       \<and> fst (VlShapeWidth_fix inexact st 5) < fst (VlShapeWidth_fix inexact st 9)
       \<and> (3 \<le> i \<and> i < j \<and> j \<le> 9 \<longrightarrow>
            fst (VlShapeWidth_fix inexact st (of_int i)) < fst (VlShapeWidth_fix inexact st' (of_int j)))
       \<and> (x < 3 \<or> 9 < x \<longrightarrow> VlShapeWidth_fix inexact st x = (x, st))"
proof -
  have s: "memory_sound inexact st" "memory_sound inexact st'"
    unfolding st_def st'_def by (simp_all add: memory_sound_calls memory_sound_start)
  have v: "fst (VlShapeWidth_fix inexact st 3) = 434" "fst (VlShapeWidth_fix inexact st 5) = 500"
    "fst (VlShapeWidth_fix inexact st 9) = 664"
    using fix_grade_table[OF s(1), of 3] fix_grade_table[OF s(1), of 5]
      fix_grade_table[OF s(1), of 9] by simp_all
  have p: "(sqrt (576 / 500 :: real)) ^ 4 = (sqrt (576 / 500)) powr (9 - 5)"
    by simp
  have m: "3 \<le> i \<and> i < j \<and> j \<le> 9 \<longrightarrow>
            fst (VlShapeWidth_fix inexact st (of_int i)) < fst (VlShapeWidth_fix inexact st' (of_int j))"
  proof
    assume a: "3 \<le> i \<and> i < j \<and> j \<le> 9"
    then have "fst (VlShapeWidth_fix inexact st (of_int i)) = of_int ([434, 466, 500, 537, 576, 618, 664] ! nat (i - 3))"
      "fst (VlShapeWidth_fix inexact st' (of_int j)) = of_int ([434, 466, 500, 537, 576, 618, 664] ! nat (j - 3))"
      using fix_grade_table[OF s(1), of i] fix_grade_table[OF s(2), of j] by simp_all
    with grade_table_mono[of i j] a
    show "fst (VlShapeWidth_fix inexact st (of_int i)) < fst (VlShapeWidth_fix inexact st' (of_int j))"
      by simp
  qed
  have r: "fst (VlShapeWidth_fix inexact st 9) = of_int (round (500 * (sqrt (576 / 500)) ^ 4))"
    unfolding p using fix_value_int[OF s(1), of 9] by simp
  show ?thesis using v m r fix_outside[of x inexact st] by simp
qed

theorem width_grade_fixup_values_witness:
  "fst (VlShapeWidth_fix exact_arithmetic (fix_calls exact_arithmetic process_start [5, 9]) 5) = 500
   \<and> fst (VlShapeWidth_fix exact_arithmetic (fix_calls exact_arithmetic process_start [5, 9]) 9) = 664
   \<and> fst (VlShapeWidth_fix exact_arithmetic (fix_calls exact_arithmetic process_start [5, 9]) 3)
       < fst (VlShapeWidth_fix exact_arithmetic (fix_calls exact_arithmetic process_start [5, 9]) 5)
   \<and> (3::int) \<le> 4 \<and> (4::int) < 8 \<and> (8::int) \<le> 9
   \<and> fst (VlShapeWidth_fix exact_arithmetic (fix_calls exact_arithmetic process_start [5, 9]) 4)
       < fst (VlShapeWidth_fix exact_arithmetic (fix_calls exact_arithmetic process_start []) 8)
   \<and> (9::real) < 500
   \<and> VlShapeWidth_fix exact_arithmetic (fix_calls exact_arithmetic process_start [5, 9]) 500
     = (500, fix_calls exact_arithmetic process_start [5, 9])"
  using width_grade_fixup_values[where xs = "[5, 9]" and ys = "[]" and i = 4 and j = 8
      and x = 500 and inexact = exact_arithmetic]
  by simp

text \<open>
  Claim C6. Let the process have made any calls \<open>xs\<close> of \<^verbatim>\<open>fix\<close>, then call it for a grade
  \<open>x\<close> between 3 and 9, an integer or not, then make any further calls \<open>ys\<close>. The call for
  \<open>x\<close> leaves the value it returns in the memory; if \<open>x\<close> was not among the earlier calls it
  also prints exactly one warning, for \<open>x\<close> and that value. A later call for \<open>x\<close> returns
  the same value and changes nothing, so it computes nothing and prints no warning. In no
  reachable state does the list of printed warnings hold more than one warning for the
  same grade. At an integer grade the value is that of the formula.
\<close>

theorem width_grade_fixup_memoized:
  fixes xs ys zs :: "real list" and x :: real and inexact :: "real \<Rightarrow> real"
  defines "st \<equiv> fix_calls inexact process_start xs"
  defines "v1 \<equiv> fst (VlShapeWidth_fix inexact st x)"
    and "st1 \<equiv> snd (VlShapeWidth_fix inexact st x)"
  defines "st2 \<equiv> fix_calls inexact st1 ys"
  assumes grade: "3 \<le> x" "x \<le> 9"
  shows "g_widthFixupMemory st1 x = Some v1
       \<and> (x \<notin> set xs \<longrightarrow> warned st1 = warned st @ [(x, v1)])
       \<and> VlShapeWidth_fix inexact st2 x = (v1, st2)
       \<and> length (filter (\<lambda>w. fst w = x) (warned (fix_calls inexact process_start zs))) \<le> 1
       \<and> (x = of_int \<lfloor>x\<rfloor> \<longrightarrow> v1 = of_int (round (500 * (sqrt (576 / 500)) powr (x - 5))))"
proof -
  have cached: "g_widthFixupMemory st1 x = Some v1"
    unfolding st1_def v1_def using grade by (rule fix_memory_after)
  have first: "warned st1 = warned st @ [(x, v1)]" if "x \<notin> set xs"
  proof -
    have "g_widthFixupMemory st x = None"
    proof (cases "g_widthFixupMemory st x")
      case None
      then show ?thesis .
    next
      case (Some v)
      with fix_calls_memory_dom[of inexact process_start xs x v] that show ?thesis
        by (simp add: st_def process_start_def)
    qed
    then show ?thesis unfolding st1_def v1_def using grade by (simp add: fix_fresh)
  qed
  have "g_widthFixupMemory st2 x = Some v1"
    unfolding st2_def using cached by (rule fix_calls_memory_kept)
  with grade have later: "VlShapeWidth_fix inexact st2 x = (v1, st2)"
    by (simp add: fix_cached)
  have "memory_sound inexact (fix_calls inexact process_start zs)"
    by (simp add: memory_sound_calls memory_sound_start)
  then have "distinct (map fst (warned (fix_calls inexact process_start zs)))"
    by (simp add: memory_sound_def)
  then have once: "length (filter (\<lambda>w. fst w = x) (warned (fix_calls inexact process_start zs))) \<le> 1"
    by (rule distinct_keys_filter)
  have "memory_sound inexact st"
    unfolding st_def by (simp add: memory_sound_calls memory_sound_start)
  then have "v1 = xCorrected_of inexact x"
    unfolding v1_def using grade by (rule fix_value)
  then have val: "x = of_int \<lfloor>x\<rfloor> \<longrightarrow> v1 = of_int (round (500 * (sqrt (576 / 500)) powr (x - 5)))"
    by (simp add: xCorrected_of_def)
  show ?thesis using val cached first later once by simp
qed

theorem width_grade_fixup_memoized_witness:
  "(3::real) \<le> 5 \<and> (5::real) \<le> 9 \<and> (5::real) \<notin> set [7] \<and> (5::real) = of_int \<lfloor>5::real\<rfloor>
   \<and> g_widthFixupMemory (snd (VlShapeWidth_fix exact_arithmetic (fix_calls exact_arithmetic process_start [7]) 5)) 5
     = Some (fst (VlShapeWidth_fix exact_arithmetic (fix_calls exact_arithmetic process_start [7]) 5))
   \<and> warned (snd (VlShapeWidth_fix exact_arithmetic (fix_calls exact_arithmetic process_start [7]) 5))
     = warned (fix_calls exact_arithmetic process_start [7])
       @ [(5, fst (VlShapeWidth_fix exact_arithmetic (fix_calls exact_arithmetic process_start [7]) 5))]
   \<and> VlShapeWidth_fix exact_arithmetic
       (fix_calls exact_arithmetic (snd (VlShapeWidth_fix exact_arithmetic (fix_calls exact_arithmetic process_start [7]) 5)) [4, 5]) 5
     = (fst (VlShapeWidth_fix exact_arithmetic (fix_calls exact_arithmetic process_start [7]) 5),
        fix_calls exact_arithmetic (snd (VlShapeWidth_fix exact_arithmetic (fix_calls exact_arithmetic process_start [7]) 5)) [4, 5])
   \<and> length (filter (\<lambda>w. fst w = 5) (warned (fix_calls exact_arithmetic process_start [5, 7, 5]))) \<le> 1
   \<and> fst (VlShapeWidth_fix exact_arithmetic (fix_calls exact_arithmetic process_start [7]) 5)
     = of_int (round (500 * (sqrt (576 / 500)) powr (5 - 5)))"
  using width_grade_fixup_memoized[where x = 5 and xs = "[7]" and ys = "[4, 5]"
      and zs = "[5, 7, 5]" and inexact = exact_arithmetic]
  by simp

text \<open>
  \<^verbatim>\<open>nValidate\<close> does not reach \<^verbatim>\<open>fix\<close>: it asks for the property \<^verbatim>\<open>fixup\<close>, which
  \<^verbatim>\<open>VlShapeWidth\<close> does not have, so a legacy grade is validated as it stands and rejected.
\<close>

lemma legacy_grade_is_rejected:
  "nValidate key (Num 5) VlShapeWidth = Inl (NotAValidNumber key (Num 5))"
  by (simp add: nValidate_def VlShapeWidth_def)

end
